(* ===== verification/Prelude.thy ===== *)
theory Prelude
  imports Main "HOL-Library.Sublist"
begin

text \<open>
  Shared vocabulary of the development. The four Python modules under \<open>src/\<close> talk to
  the outside world through three channels only: \<open>requests.get\<close>, the file system
  (\<open>os.makedirs\<close>, \<open>open(..., 'wb')\<close>) and \<open>time.sleep\<close>. All three are modelled
  here once:
  \<^item> a request is the URL, the header list, the timeout and the \<open>stream\<close> flag the code
    passes to \<open>requests.get\<close>; a \<open>server\<close> is an arbitrary function from requests to
    \<open>http_result\<close>s, so every theorem holds for every behaviour of the remote host;
  \<^item> the \<open>world\<close> record holds the directories, the files written and the trace of
    every effect in the order the code performs it;
  \<^item> Python's \<open>str(int)\<close>, \<open>in\<close> on strings and \<open>str.replace\<close> are executable
    functions on \<open>string\<close> (lists of 8-bit characters: the code only handles ASCII URLs).
\<close>

named_theorems world_simps "effect primitives unfolded by the component proofs"
named_theorems pystr_simps "evaluation rules of the Python string helpers"

section \<open>Requests, responses and the world\<close>

type_synonym url = string
type_synonym path = string
type_synonym headers = "(string \<times> string) list"

text \<open>\<open>requests.get(url, headers=..., timeout=..., stream=...)\<close>.\<close>
record request =
  req_url :: url
  req_headers :: headers
  req_timeout :: nat
  req_stream :: bool

text \<open>
  What a call of \<open>requests.get\<close> can come back with. \<open>Resp status body\<close>: a complete
  response. \<open>Broken status part\<close>: the status line arrived but the body transfer failed
  after \<open>part\<close>; a non-streaming \<open>get\<close> reads the body itself and so raises, a streaming
  one raises later, inside \<open>iter_content\<close>. \<open>NetError\<close>: no response at all (timeout,
  DNS failure, refused connection): \<open>get\<close> raises a \<open>RequestException\<close>.
\<close>
datatype http_result = Resp nat string | Broken nat string | NetError

type_synonym server = "request \<Rightarrow> http_result"

datatype event =
    Get request
  | Sleep nat  \<comment> \<open>\<open>time.sleep\<close>, in milliseconds\<close>
  | Progress int int  \<comment> \<open>\<open>update_progress(current, total, ...)\<close> of the window\<close>
  | ProgressReset  \<comment> \<open>\<open>reset_progress(...)\<close>\<close>
  | MakeDir path
  | WriteFile path string

text \<open>\<open>writable\<close> is the operating system's answer to \<open>open(p, 'wb')\<close>: permissions,
  missing intermediate directories and the like are not modelled further.\<close>
record world =
  dirs :: "path set"
  files :: "path \<Rightarrow> string option"
  writable :: "path \<Rightarrow> bool"
  trace :: "event list"

text \<open>A world before the program runs: no directory, no file, nothing done yet.\<close>
definition init_world :: world where
  "init_world = \<lparr>dirs = {}, files = Map.empty, writable = (\<lambda>_. True), trace = []\<rparr>"

definition http_get :: "server \<Rightarrow> request \<Rightarrow> world \<Rightarrow> http_result \<times> world" where
  [world_simps]: "http_get srv r w = (srv r, w\<lparr>trace := trace w @ [Get r]\<rparr>)"

definition sleep_ms :: "nat \<Rightarrow> world \<Rightarrow> world" where
  [world_simps]: "sleep_ms n w = w\<lparr>trace := trace w @ [Sleep n]\<rparr>"

text \<open>The directories \<open>os.makedirs(d)\<close> walks through: the part of \<open>d\<close> before each
  \<open>/\<close> that is not empty, then \<open>d\<close> itself (paths are not normalised).\<close>
definition dir_prefixes :: "path \<Rightarrow> path list" where
  "dir_prefixes d = map (\<lambda>i. take i d) (filter (\<lambda>i. d ! i = CHR ''/'') [1..<length d]) @ [d]"

text \<open>\<open>os.makedirs\<close> raises when \<open>d\<close> or one of its ancestors is a file: \<open>mkdir\<close> fails with
  \<open>FileExistsError\<close> or \<open>NotADirectoryError\<close>, and \<open>exist_ok\<close> only forgives an existing
  directory.\<close>
definition makedirs_blocked :: "world \<Rightarrow> path \<Rightarrow> bool" where
  "makedirs_blocked w d \<longleftrightarrow> list_ex (\<lambda>p. files w p \<noteq> None) (dir_prefixes d)"

text \<open>\<open>os.makedirs(d, exist_ok=True)\<close>: creates \<open>d\<close> and its missing ancestors, idempotent on
  directories that exist; \<open>None\<close> is the \<open>OSError\<close> it raises.\<close>
definition makedirs :: "path \<Rightarrow> world \<Rightarrow> world option" where
  [world_simps]: "makedirs d w =
     (if makedirs_blocked w d then None
      else Some (w\<lparr>dirs := dirs w \<union> set (dir_prefixes d), trace := trace w @ [MakeDir d]\<rparr>))"

text \<open>\<open>with open(p, 'wb') as f: f.write(...)\<close>: truncates and writes \<open>content\<close>;
  \<open>None\<close> is the \<open>OSError\<close> raised by \<open>open\<close>.\<close>
definition write_file :: "path \<Rightarrow> string \<Rightarrow> world \<Rightarrow> world option" where
  [world_simps]: "write_file p content w =
     (if writable w p
      then Some (w\<lparr>files := (files w)(p \<mapsto> content), trace := trace w @ [WriteFile p content]\<rparr>)
      else None)"

fun is_get :: "event \<Rightarrow> bool" where
  "is_get (Get _) = True"
| "is_get _ = False"

fun get_url :: "event \<Rightarrow> url option" where
  "get_url (Get r) = Some (req_url r)"
| "get_url _ = None"

text \<open>The URLs requested in a trace, in order.\<close>
definition requested :: "event list \<Rightarrow> url list" where
  "requested es = List.map_filter get_url es"

lemma dir_prefixes_no_slash [simp]: "CHR ''/'' \<notin> set d \<Longrightarrow> dir_prefixes d = [d]"
proof -
  assume "CHR ''/'' \<notin> set d"
  then have "filter (\<lambda>i. d ! i = CHR ''/'') [1..<length d] = []"
    by (auto simp: filter_empty_conv) (metis nth_mem)
  then show ?thesis by (simp add: dir_prefixes_def)
qed

lemma makedirs_blocked_no_slash [simp]:
  "CHR ''/'' \<notin> set d \<Longrightarrow> makedirs_blocked w d \<longleftrightarrow> files w d \<noteq> None"
  by (simp add: makedirs_blocked_def)

lemma requested_simps [simp]:
  "requested [] = []"
  "requested (es @ fs) = requested es @ requested fs"
  "requested [Get r] = [req_url r]"
  "requested [Sleep n] = []"
  "requested [MakeDir d] = []"
  "requested [WriteFile p c] = []"
  "requested [Progress a b] = []"
  "requested [ProgressReset] = []"
  by (simp_all add: requested_def map_filter_def)

lemma requested_Cons [simp]:
  "requested (e # es) = (case get_url e of Some u \<Rightarrow> u # requested es | None \<Rightarrow> requested es)"
  by (cases "get_url e") (simp_all add: requested_def map_filter_def)

lemma requested_concat [simp]: "requested (concat ess) = concat (map requested ess)"
  by (induction ess) simp_all

lemma http_get_trace [simp]:
  "trace (snd (http_get srv r w)) = trace w @ [Get r]"
  "files (snd (http_get srv r w)) = files w"
  "dirs (snd (http_get srv r w)) = dirs w"
  "fst (http_get srv r w) = srv r"
  by (simp_all add: http_get_def)

lemma sleep_ms_fields [simp]:
  "trace (sleep_ms n w) = trace w @ [Sleep n]"
  "files (sleep_ms n w) = files w"
  "dirs (sleep_ms n w) = dirs w"
  by (simp_all add: sleep_ms_def)

lemma write_file_Some:
  "write_file p c w = Some w' \<longleftrightarrow>
     writable w p \<and> w' = w\<lparr>files := (files w)(p \<mapsto> c), trace := trace w @ [WriteFile p c]\<rparr>"
  by (auto simp: write_file_def)

section \<open>Python strings\<close>

definition is_digit :: "char \<Rightarrow> bool" where
  [pystr_simps]: "is_digit c \<longleftrightarrow> 48 \<le> (of_char c :: nat) \<and> (of_char c :: nat) \<le> 57"

definition digit_char :: "nat \<Rightarrow> char" where
  [pystr_simps]: "digit_char d = ''0123456789'' ! d"

definition digit_val :: "char \<Rightarrow> nat" where
  [pystr_simps]: "digit_val c = (of_char c :: nat) - 48"

text \<open>\<open>str(n)\<close> for \<open>n \<ge> 0\<close>: the decimal digits, most significant first.\<close>
fun py_str_nat :: "nat \<Rightarrow> string" where
  "py_str_nat n = (if n < 10 then [digit_char n] else py_str_nat (n div 10) @ [digit_char (n mod 10)])"

declare py_str_nat.simps [simp del]

text \<open>\<open>str(i)\<close> for a Python \<open>int\<close>.\<close>
definition py_str_int :: "int \<Rightarrow> string" where
  "py_str_int i = (if i < 0 then CHR ''-'' # py_str_nat (nat (- i)) else py_str_nat (nat i))"

text \<open>The value of a run of decimal digits, as \<open>int(s)\<close> computes it.\<close>
definition digits_value :: "string \<Rightarrow> nat" where
  "digits_value s = foldl (\<lambda>acc c. 10 * acc + digit_val c) 0 s"

text \<open>\<open>needle in haystack\<close> on strings: a check at every suffix.\<close>
fun py_contains :: "string \<Rightarrow> string \<Rightarrow> bool" where
  "py_contains needle [] = (needle = [])"
| "py_contains needle (c # cs) = (prefix needle (c # cs) \<or> py_contains needle cs)"

text \<open>\<open>s.replace(old, new)\<close>: every non-overlapping occurrence, left to right. For an
  empty \<open>old\<close>, Python inserts \<open>new\<close> before every character and at the end.\<close>
fun py_replace_ne :: "string \<Rightarrow> string \<Rightarrow> string \<Rightarrow> string" where
  "py_replace_ne old new [] = []"
| "py_replace_ne old new (c # cs) =
     (if prefix old (c # cs) \<and> old \<noteq> []
      then new @ py_replace_ne old new (drop (length old) (c # cs))
      else c # py_replace_ne old new cs)"

definition py_replace :: "string \<Rightarrow> string \<Rightarrow> string \<Rightarrow> string" where
  "py_replace s old new =
     (if old = [] then new @ concat (map (\<lambda>c. c # new) s) else py_replace_ne old new s)"

subsection \<open>Lemmas on the string helpers\<close>

lemma less_10_cases: "(d::nat) < 10 \<Longrightarrow> d \<in> {0, 1, 2, 3, 4, 5, 6, 7, 8, 9}"
  by auto

lemma of_char_digit_char [simp]: "d < 10 \<Longrightarrow> (of_char (digit_char d) :: nat) = 48 + d"
  by (drule less_10_cases) (auto simp: digit_char_def)

lemma digit_char_is_digit [simp]: "d < 10 \<Longrightarrow> is_digit (digit_char d)"
  by (drule less_10_cases) (auto simp: is_digit_def digit_char_def)

lemma digit_val_digit_char [simp]: "d < 10 \<Longrightarrow> digit_val (digit_char d) = d"
  by (drule less_10_cases) (auto simp: digit_val_def digit_char_def)

lemma py_str_nat_digits: "c \<in> set (py_str_nat n) \<Longrightarrow> is_digit c"
proof (induction n rule: py_str_nat.induct)
  case (1 n)
  then show ?case
    by (cases "n < 10") (auto simp: py_str_nat.simps [of n])
qed

lemma py_str_nat_ne [simp]: "py_str_nat n \<noteq> []"
  by (subst py_str_nat.simps) simp

lemma digits_value_append:
  "digits_value (xs @ ys) = digits_value xs * 10 ^ length ys + digits_value ys"
proof (induction ys arbitrary: xs rule: rev_induct)
  case Nil
  then show ?case by (simp add: digits_value_def)
next
  case (snoc y ys)
  then show ?case
    by (simp add: digits_value_def algebra_simps)
qed

lemma digits_value_single [simp]: "digits_value [c] = digit_val c"
  by (simp add: digits_value_def)

lemma digits_value_py_str_nat [simp]: "digits_value (py_str_nat n) = n"
proof (induction n rule: py_str_nat.induct)
  case (1 n)
  show ?case
  proof (cases "n < 10")
    case True
    then show ?thesis by (simp add: py_str_nat.simps [of n] digits_value_def)
  next
    case False
    with "1.IH" show ?thesis
      by (simp add: py_str_nat.simps [of n] digits_value_append mult.commute)
  qed
qed

lemma py_str_nat_inj: "py_str_nat m = py_str_nat n \<longleftrightarrow> m = n"
  by (metis digits_value_py_str_nat)

lemma py_contains_sublist [pystr_simps]: "py_contains needle hay \<longleftrightarrow> sublist needle hay"
  by (induction hay) (auto simp: sublist_Cons_right)


lemma py_replace_ne_skip:
  "old \<noteq> [] \<Longrightarrow> hd old \<notin> set pre \<Longrightarrow> py_replace_ne old new (pre @ s) = pre @ py_replace_ne old new s"
  by (induction pre) (auto simp: neq_Nil_conv)

lemma py_replace_ne_hit: "old \<noteq> [] \<Longrightarrow> py_replace_ne old new (old @ s) = new @ py_replace_ne old new s"
  by (cases old) simp_all

text \<open>\<open>template.replace(old, new)\<close> on a template holding \<open>old\<close> once, where no other
  character is the first one of \<open>old\<close>.\<close>
lemma py_replace_single:
  assumes "old \<noteq> []" "hd old \<notin> set pre" "hd old \<notin> set post"
  shows "py_replace (pre @ old @ post) old new = pre @ new @ post"
proof -
  have "py_replace_ne old new post = post"
    using py_replace_ne_skip [OF assms(1,3), of new "[]"] by simp
  then show ?thesis
    using assms by (simp add: py_replace_def py_replace_ne_skip py_replace_ne_hit)
qed

end
