(* ===== verification/PageProbe.thy ===== *)
theory PageProbe
  imports Prelude
begin

text \<open>
  PageProbe: \<open>src/find_adj.py\<close>, lines 6--36. One GET of the artwork page, and the
  classification of its outcome that the adjacent search applies.
\<close>

section \<open>Definitions\<close>

text \<open>Exceptions that escape \<open>get_artwork_page_content\<close>: a \<open>RequestException\<close> raised
  by \<open>requests.get\<close> (no response, or a body that could not be read) and the
  \<open>HTTPError\<close> raised by \<open>raise_for_status()\<close>.\<close>
datatype exc = RequestException | HTTPError nat

definition build_pixiv_artwork_url :: "int \<Rightarrow> url" where
  "build_pixiv_artwork_url artwork_id = ''https://www.pixiv.net/en/artworks/'' @ py_str_int artwork_id"

definition not_found_marker :: string where
  "not_found_marker = ''<h1>Page not found</h1>''"

definition is_valid_artwork_page :: "string \<Rightarrow> bool" where
  "is_valid_artwork_page html_content \<longleftrightarrow> \<not> py_contains not_found_marker html_content"

definition page_headers :: headers where
  "page_headers =
     [(''User-Agent'', ''Mozilla/5.0 (Windows NT 10.0; Win64; x64) AppleWebKit/537.36 (KHTML, like Gecko) Chrome/108.0.0.0 Safari/537.36''),
      (''Accept'', ''text/html,application/xhtml+xml,application/xml;q=0.9,image/webp,*/*;q=0.8''),
      (''Accept-Language'', ''en-US,en;q=0.5''),
      (''Connection'', ''keep-alive''),
      (''Upgrade-Insecure-Requests'', ''1'')]"

definition page_request :: "int \<Rightarrow> request" where
  "page_request artwork_id =
     \<lparr>req_url = build_pixiv_artwork_url artwork_id, req_headers = page_headers,
      req_timeout = 10, req_stream = False\<rparr>"

text \<open>\<open>raise_for_status()\<close> raises for every status in \<open>[400, 600)\<close>.\<close>
definition raises_for_status :: "nat \<Rightarrow> bool" where
  "raises_for_status s \<longleftrightarrow> 400 \<le> s \<and> s < 600"

definition get_artwork_page_content ::
  "server \<Rightarrow> int \<Rightarrow> world \<Rightarrow> (exc + string option) \<times> world" where
  "get_artwork_page_content srv artwork_id w =
     (case http_get srv (page_request artwork_id) w of
        (NetError, w') \<Rightarrow> (Inl RequestException, w')
      | (Broken _ _, w') \<Rightarrow> (Inl RequestException, w')
      | (Resp status text, w') \<Rightarrow>
          (if status = 404 then (Inr None, w')
           else if raises_for_status status then (Inl (HTTPError status), w')
           else (Inr (Some text), w')))"

text \<open>The three outcomes of a probe (the spec's ProbeResult), as the loop bodies of
  \<open>find_adjacent_valid_artworks\<close> tell them apart: an escaping exception, \<open>None\<close> or
  a page with the marker (keep scanning), a page without it (stop).\<close>
datatype probe_result = Present string | Absent | ProbeError exc

definition probe_outcome :: "exc + string option \<Rightarrow> probe_result" where
  "probe_outcome r =
     (case r of
        Inl e \<Rightarrow> ProbeError e
      | Inr None \<Rightarrow> Absent
      | Inr (Some content) \<Rightarrow> if is_valid_artwork_page content then Present content else Absent)"

definition probe_page :: "server \<Rightarrow> int \<Rightarrow> probe_result" where
  "probe_page srv artwork_id = probe_outcome (fst (get_artwork_page_content srv artwork_id init_world))"

section \<open>Lemmas\<close>

lemma get_artwork_page_content_world:
  "snd (get_artwork_page_content srv i w) = w\<lparr>trace := trace w @ [Get (page_request i)]\<rparr>"
  by (simp add: get_artwork_page_content_def http_get_def split: http_result.splits)

lemma get_artwork_page_content_result:
  "fst (get_artwork_page_content srv i w) = fst (get_artwork_page_content srv i w')"
  by (simp add: get_artwork_page_content_def http_get_def split: http_result.splits)

lemma probe_outcome_get [simp]:
  "probe_outcome (fst (get_artwork_page_content srv i w)) = probe_page srv i"
  unfolding probe_page_def by (metis get_artwork_page_content_result)

text \<open>C6. PageProbe's classification, from the code: no response or an unreadable body
  and every status in [400, 600) but 404 are errors; 404 and a page carrying the
  \<open><h1>Page not found</h1>\<close> marker are absent; every other status with a page
  without the marker (1xx, 2xx, 3xx and 600 or more alike) is present.\<close>
theorem probe_page_cases:
  "probe_page srv i =
     (case srv (page_request i) of
        NetError \<Rightarrow> ProbeError RequestException
      | Broken _ _ \<Rightarrow> ProbeError RequestException
      | Resp s body \<Rightarrow>
          if s = 404 then Absent
          else if 400 \<le> s \<and> s < 600 then ProbeError (HTTPError s)
          else if py_contains ''<h1>Page not found</h1>'' body then Absent
          else Present body)"
  by (auto simp add: probe_page_def get_artwork_page_content_def http_get_def probe_outcome_def
      raises_for_status_def is_valid_artwork_page_def not_found_marker_def
      split: http_result.splits)

end
