(* ===== verification/AdjacentSearch.thy ===== *)
theory AdjacentSearch
  imports PageProbe
begin

text \<open>
  AdjacentIdSearch: \<open>find_adjacent_valid_artworks\<close>, \<open>src/find_adj.py\<close> lines 39--71.
  The two \<open>while\<close> loops are \<open>scan_prev\<close> and \<open>scan_next\<close>; both are proved equal to
  one reference search over an explicit list of identifiers, \<open>scan_list\<close>, from which
  the result and the exact request trace are read off.
\<close>

section \<open>Definitions\<close>

definition next_id_limit :: int where
  "next_id_limit = 999999999"

function scan_prev :: "server \<Rightarrow> int \<Rightarrow> world \<Rightarrow> (exc + int) \<times> world" where
  "scan_prev srv prev_id w =
     (if 0 < prev_id then
        (case get_artwork_page_content srv prev_id w of
           (Inl e, w') \<Rightarrow> (Inl e, w')
         | (Inr None, w') \<Rightarrow> scan_prev srv (prev_id - 1) w'
         | (Inr (Some content), w') \<Rightarrow>
             if is_valid_artwork_page content then (Inr prev_id, w')
             else scan_prev srv (prev_id - 1) w')
      else (Inr prev_id, w))"
  by pat_completeness auto
termination
  by (relation "measure (\<lambda>(srv, p, w). nat p)") auto

function scan_next :: "server \<Rightarrow> int \<Rightarrow> world \<Rightarrow> (exc + int) \<times> world" where
  "scan_next srv next_id w =
     (if next_id < next_id_limit then
        (case get_artwork_page_content srv next_id w of
           (Inl e, w') \<Rightarrow> (Inl e, w')
         | (Inr None, w') \<Rightarrow> scan_next srv (next_id + 1) w'
         | (Inr (Some content), w') \<Rightarrow>
             if is_valid_artwork_page content then (Inr next_id, w')
             else scan_next srv (next_id + 1) w')
      else (Inr next_id, w))"
  by pat_completeness auto
termination
  by (relation "measure (\<lambda>(srv, n, w). nat (next_id_limit - n))") auto

definition find_adjacent_valid_artworks ::
  "server \<Rightarrow> int \<Rightarrow> world \<Rightarrow> (exc + int \<times> int) \<times> world" where
  "find_adjacent_valid_artworks srv center_id w =
     (case scan_prev srv (center_id - 1) w of
        (Inl e, w1) \<Rightarrow> (Inl e, w1)
      | (Inr prev_id, w1) \<Rightarrow>
          (case scan_next srv (center_id + 1) w1 of
             (Inl e, w2) \<Rightarrow> (Inl e, w2)
           | (Inr next_id, w2) \<Rightarrow> (Inr (prev_id, next_id), w2)))"

text \<open>Reference search: probe the identifiers of a list in order, stop at the first one
  that is not \<open>Absent\<close>; \<open>dflt\<close> is what the loop variable holds when the list runs out.\<close>
fun scan_list :: "server \<Rightarrow> int list \<Rightarrow> int \<Rightarrow> world \<Rightarrow> (exc + int) \<times> world" where
  "scan_list srv [] dflt w = (Inr dflt, w)"
| "scan_list srv (q # qs) dflt w =
     (case probe_page srv q of
        ProbeError e \<Rightarrow> (Inl e, w\<lparr>trace := trace w @ [Get (page_request q)]\<rparr>)
      | Present _ \<Rightarrow> (Inr q, w\<lparr>trace := trace w @ [Get (page_request q)]\<rparr>)
      | Absent \<Rightarrow> scan_list srv qs dflt (w\<lparr>trace := trace w @ [Get (page_request q)]\<rparr>))"

text \<open>The identifiers a scan over \<open>qs\<close> probes: up to and including the first one that
  is not \<open>Absent\<close>.\<close>
definition probed :: "server \<Rightarrow> int list \<Rightarrow> int list" where
  "probed srv qs =
     takeWhile (\<lambda>q. probe_page srv q = Absent) qs @
     take 1 (dropWhile (\<lambda>q. probe_page srv q = Absent) qs)"

text \<open>The result of the reference search, without the world: the first identifier that
  is not absent decides.\<close>
definition search_result :: "server \<Rightarrow> int list \<Rightarrow> int \<Rightarrow> exc + int" where
  "search_result srv qs d =
     (case dropWhile (\<lambda>q. probe_page srv q = Absent) qs of
        [] \<Rightarrow> Inr d
      | q # _ \<Rightarrow> (case probe_page srv q of ProbeError e \<Rightarrow> Inl e | _ \<Rightarrow> Inr q))"

declare scan_prev.simps [simp del] scan_next.simps [simp del]

section \<open>Lemmas\<close>

lemma get_artwork_page_content_cases:
  obtains e where "get_artwork_page_content srv q w = (Inl e, w\<lparr>trace := trace w @ [Get (page_request q)]\<rparr>)"
      and "probe_page srv q = ProbeError e"
  | "get_artwork_page_content srv q w = (Inr None, w\<lparr>trace := trace w @ [Get (page_request q)]\<rparr>)"
      and "probe_page srv q = Absent"
  | c where "get_artwork_page_content srv q w = (Inr (Some c), w\<lparr>trace := trace w @ [Get (page_request q)]\<rparr>)"
      and "probe_page srv q = (if is_valid_artwork_page c then Present c else Absent)"
proof -
  obtain r where r: "get_artwork_page_content srv q w = (r, w\<lparr>trace := trace w @ [Get (page_request q)]\<rparr>)"
    by (metis get_artwork_page_content_world prod.collapse)
  have p: "probe_page srv q = probe_outcome r"
    using probe_outcome_get [of srv q w] r by simp
  show thesis
    using that r p by (cases r) (auto simp: probe_outcome_def split: option.splits)
qed

lemma scan_prev_scan_list:
  "scan_prev srv p w = scan_list srv (rev [1..p]) (min p 0) w"
proof (induction srv p w rule: scan_prev.induct)
  case (1 srv p w)
  show ?case
  proof (cases "0 < p")
    case False
    then show ?thesis by (simp add: scan_prev.simps [of srv p w])
  next
    case True
    then have ids: "rev [1..p] = p # rev [1..p - 1]" and m: "min (p - 1) 0 = min p 0"
      by (simp_all add: upto_rec2)
    show ?thesis
      by (rule get_artwork_page_content_cases [of srv p w])
        (use True "1.IH" in \<open>auto simp: scan_prev.simps [of srv p w] ids m\<close>)
  qed
qed

lemma scan_next_scan_list:
  "scan_next srv n w = scan_list srv [n..next_id_limit - 1] (max n next_id_limit) w"
proof (induction srv n w rule: scan_next.induct)
  case (1 srv n w)
  show ?case
  proof (cases "n < next_id_limit")
    case False
    then show ?thesis by (simp add: scan_next.simps [of srv n w])
  next
    case True
    then have ids: "[n..next_id_limit - 1] = n # [n + 1..next_id_limit - 1]"
      and m: "max (n + 1) next_id_limit = max n next_id_limit"
      by (simp_all add: upto_rec1)
    show ?thesis
      by (rule get_artwork_page_content_cases [of srv n w])
        (use True "1.IH" in \<open>auto simp: scan_next.simps [of srv n w] ids m\<close>)
  qed
qed

lemma scan_list_trace:
  "trace (snd (scan_list srv qs d w)) = trace w @ map (\<lambda>q. Get (page_request q)) (probed srv qs)"
  by (induction qs arbitrary: w) (auto simp: probed_def split: probe_result.splits)

lemma scan_list_files [simp]:
  "files (snd (scan_list srv qs d w)) = files w"
  "dirs (snd (scan_list srv qs d w)) = dirs w"
  by (induction qs arbitrary: w) (auto split: probe_result.splits)

lemma search_result_simps [simp]:
  "search_result srv [] d = Inr d"
  "search_result srv (q # qs) d =
     (case probe_page srv q of
        ProbeError e \<Rightarrow> Inl e | Present _ \<Rightarrow> Inr q | Absent \<Rightarrow> search_result srv qs d)"
  by (simp_all add: search_result_def split: probe_result.splits)

lemma scan_list_result [simp]:
  "fst (scan_list srv qs d w) = search_result srv qs d"
  by (induction qs arbitrary: w) (auto split: probe_result.splits)

lemma probed_subset: "set (probed srv qs) \<subseteq> set qs"
  by (auto simp: probed_def dest: set_takeWhileD in_set_takeD set_dropWhileD)

lemma length_probed: "length (probed srv qs) \<le> length qs"
  by (induction qs) (auto simp: probed_def)

text \<open>What a successful reference search says: the identifier returned is present and
  every identifier before it in the list is absent; or every identifier was absent.\<close>
lemma scan_list_Inr:
  assumes "search_result srv qs d = Inr p"
  shows "(\<exists>ys zs c. qs = ys @ p # zs \<and> (\<forall>q \<in> set ys. probe_page srv q = Absent) \<and>
            probe_page srv p = Present c)
       \<or> (p = d \<and> (\<forall>q \<in> set qs. probe_page srv q = Absent))"
  using assms
proof (induction qs)
  case Nil
  then show ?case by simp
next
  case (Cons q qs)
  show ?case
  proof (cases "probe_page srv q")
    case Absent
    with Cons.prems Cons.IH show ?thesis
      by simp (metis Cons_eq_appendI set_ConsD)
  qed (use Cons.prems in \<open>auto intro: exI [of _ "[]"]\<close>)
qed

lemma scan_list_Inl:
  assumes "search_result srv qs d = Inl e"
  shows "\<exists>ys q zs. qs = ys @ q # zs \<and> (\<forall>q' \<in> set ys. probe_page srv q' = Absent) \<and>
           probe_page srv q = ProbeError e"
  using assms
proof (induction qs)
  case Nil
  then show ?case by simp
next
  case (Cons q qs)
  show ?case
  proof (cases "probe_page srv q")
    case Absent
    with Cons.prems Cons.IH show ?thesis
      by simp (metis Cons_eq_appendI set_ConsD)
  qed (use Cons.prems in \<open>auto intro: exI [of _ "[]"]\<close>)
qed

lemma scan_list_Inr_mem:
  "search_result srv qs d = Inr p \<Longrightarrow> p \<in> set qs \<or> p = d"
  using scan_list_Inr by fastforce

lemma sorted_wrt_split:
  "sorted_wrt R (ys @ p # zs) \<Longrightarrow> (\<forall>y \<in> set ys. R y p) \<and> (\<forall>z \<in> set zs. R p z)"
  by (simp add: sorted_wrt_append)

text \<open>The two scans as the composition runs them, in terms of the reference search.\<close>
abbreviation prev_ids :: "int \<Rightarrow> int list" where
  "prev_ids c \<equiv> rev [1..c - 1]"

abbreviation next_ids :: "int \<Rightarrow> int list" where
  "next_ids c \<equiv> [c + 1..next_id_limit - 1]"

lemma find_adjacent_unfold:
  "find_adjacent_valid_artworks srv c w =
     (case scan_list srv (prev_ids c) (min (c - 1) 0) w of
        (Inl e, w1) \<Rightarrow> (Inl e, w1)
      | (Inr p, w1) \<Rightarrow>
          (case scan_list srv (next_ids c) (max (c + 1) next_id_limit) w1 of
             (Inl e, w2) \<Rightarrow> (Inl e, w2)
           | (Inr n, w2) \<Rightarrow> (Inr (p, n), w2)))"
  unfolding find_adjacent_valid_artworks_def scan_prev_scan_list scan_next_scan_list ..

lemma find_adjacent_Inr_iff:
  "fst (find_adjacent_valid_artworks srv c w) = Inr (p, n) \<longleftrightarrow>
     search_result srv (prev_ids c) (min (c - 1) 0) = Inr p \<and>
     search_result srv (next_ids c) (max (c + 1) next_id_limit) = Inr n"
  unfolding find_adjacent_unfold
  by (auto split: prod.splits sum.splits dest!: arg_cong [where f = fst])

lemma find_adjacent_Inl_iff:
  "fst (find_adjacent_valid_artworks srv c w) = Inl e \<longleftrightarrow>
     search_result srv (prev_ids c) (min (c - 1) 0) = Inl e \<or>
     ((\<exists>p. search_result srv (prev_ids c) (min (c - 1) 0) = Inr p) \<and>
      search_result srv (next_ids c) (max (c + 1) next_id_limit) = Inl e)"
  unfolding find_adjacent_unfold
  by (auto split: prod.splits sum.splits dest!: arg_cong [where f = fst])

lemma prev_result_bounds:
  "search_result srv (prev_ids c) (min (c - 1) 0) = Inr p \<Longrightarrow> p < c"
  by (auto dest: scan_list_Inr_mem)

lemma next_result_bounds:
  "search_result srv (next_ids c) (max (c + 1) next_id_limit) = Inr n \<Longrightarrow> c < n"
  by (auto dest: scan_list_Inr_mem)

lemma prev_result_nearest:
  assumes "search_result srv (prev_ids c) (min (c - 1) 0) = Inr p"
  shows "(0 < p \<longrightarrow> (\<exists>b. probe_page srv p = Present b)) \<and>
         (\<forall>q. max 0 p < q \<and> q < c \<longrightarrow> probe_page srv q = Absent)"
  using scan_list_Inr [OF assms]
proof
  assume "\<exists>ys zs b. prev_ids c = ys @ p # zs \<and> (\<forall>q\<in>set ys. probe_page srv q = Absent) \<and>
            probe_page srv p = Present b"
  then obtain ys zs b where split: "prev_ids c = ys @ p # zs"
    and ys: "\<forall>q\<in>set ys. probe_page srv q = Absent" and b: "probe_page srv p = Present b"
    by blast
  have "sorted_wrt (>) (ys @ p # zs)"
    unfolding split [symmetric] by (simp add: sorted_wrt_rev)
  then have zs: "\<forall>z \<in> set zs. z < p" by (auto dest: sorted_wrt_split)
  have "q \<in> set ys" if "max 0 p < q" "q < c" for q
  proof -
    have "q \<in> set (ys @ p # zs)" unfolding split [symmetric] using that by simp
    with zs that show ?thesis by auto
  qed
  with ys b show ?thesis by auto
qed auto

lemma next_result_nearest:
  assumes "search_result srv (next_ids c) (max (c + 1) next_id_limit) = Inr n"
  shows "(n < next_id_limit \<longrightarrow> (\<exists>b. probe_page srv n = Present b)) \<and>
         (\<forall>q. c < q \<and> q < min n next_id_limit \<longrightarrow> probe_page srv q = Absent)"
  using scan_list_Inr [OF assms]
proof
  assume "\<exists>ys zs b. next_ids c = ys @ n # zs \<and> (\<forall>q\<in>set ys. probe_page srv q = Absent) \<and>
            probe_page srv n = Present b"
  then obtain ys zs b where split: "next_ids c = ys @ n # zs"
    and ys: "\<forall>q\<in>set ys. probe_page srv q = Absent" and b: "probe_page srv n = Present b"
    by blast
  have "sorted_wrt (<) (ys @ n # zs)"
    unfolding split [symmetric] by simp
  then have zs: "\<forall>z \<in> set zs. n < z" by (simp add: sorted_wrt_split)
  have "q \<in> set ys" if "c < q" "q < min n next_id_limit" for q
  proof -
    have "q \<in> set (ys @ n # zs)" unfolding split [symmetric] using that by simp
    with zs that show ?thesis by auto
  qed
  with ys b show ?thesis by auto
qed auto

text \<open>The identifiers \<open>find_adjacent_valid_artworks\<close> requests, in order.\<close>
definition adjacent_probes :: "server \<Rightarrow> int \<Rightarrow> int list" where
  "adjacent_probes srv c =
     probed srv (prev_ids c) @
     (case search_result srv (prev_ids c) (min (c - 1) 0) of
        Inl _ \<Rightarrow> [] | Inr _ \<Rightarrow> probed srv (next_ids c))"

lemma find_adjacent_trace:
  "trace (snd (find_adjacent_valid_artworks srv c w)) =
     trace w @ map (\<lambda>q. Get (page_request q)) (adjacent_probes srv c)"
proof -
  obtain r1 w1 where 1: "scan_list srv (prev_ids c) (min (c - 1) 0) w = (r1, w1)"
    by (cases "scan_list srv (prev_ids c) (min (c - 1) 0) w")
  obtain r2 w2 where 2: "scan_list srv (next_ids c) (max (c + 1) next_id_limit) w1 = (r2, w2)"
    by (cases "scan_list srv (next_ids c) (max (c + 1) next_id_limit) w1")
  have t1: "trace w1 = trace w @ map (\<lambda>q. Get (page_request q)) (probed srv (prev_ids c))"
    and r1: "search_result srv (prev_ids c) (min (c - 1) 0) = r1"
    using scan_list_trace [of srv _ _ w] scan_list_result [of srv _ _ w] 1 by (metis fst_conv snd_conv)+
  have "trace w2 = trace w1 @ map (\<lambda>q. Get (page_request q)) (probed srv (next_ids c))"
    using scan_list_trace [of srv _ _ w1] 2 by (metis snd_conv)
  with t1 r1 1 2 show ?thesis
    by (cases r1; cases r2) (simp_all add: find_adjacent_unfold adjacent_probes_def)
qed

lemma adjacent_probes_range:
  "q \<in> set (adjacent_probes srv c) \<Longrightarrow> (0 < q \<and> q < c) \<or> (c < q \<and> q < next_id_limit)"
  using probed_subset [of srv "prev_ids c"] probed_subset [of srv "next_ids c"]
  by (auto simp: adjacent_probes_def next_id_limit_def split: sum.splits)

lemma length_adjacent_probes:
  "length (adjacent_probes srv c) \<le> nat (c - 1) + nat (next_id_limit - c - 1)"
proof -
  have "length (probed srv (prev_ids c)) \<le> nat (c - 1)"
    using length_probed [of srv "prev_ids c"] by simp
  moreover have "length (probed srv (next_ids c)) \<le> nat (next_id_limit - c - 1)"
    using length_probed [of srv "next_ids c"] by simp
  ultimately show ?thesis
    by (auto simp: adjacent_probes_def split: sum.splits)
qed

section \<open>Properties of the adjacent search\<close>

text \<open>C1. Whenever \<open>find_adjacent_valid_artworks\<close> returns a pair, it brackets the
  center: the previous identifier is below it and the next one above it.\<close>
theorem find_adjacent_brackets:
  assumes "fst (find_adjacent_valid_artworks srv c w) = Inr (p, n)"
  shows "p < c \<and> c < n"
  using assms by (auto simp: find_adjacent_Inr_iff dest: prev_result_bounds next_result_bounds)

text \<open>C2. The pair returned is the nearest valid artwork on each side: \<open>p\<close> is present
  unless the scan ran down to 0, \<open>n\<close> is present unless it reached the upper limit,
  and every identifier strictly between them and the center was probed absent.\<close>
theorem find_adjacent_nearest:
  assumes "fst (find_adjacent_valid_artworks srv c w) = Inr (p, n)"
  shows "(0 < p \<longrightarrow> (\<exists>b. probe_page srv p = Present b)) \<and>
         (\<forall>q. max 0 p < q \<and> q < c \<longrightarrow> probe_page srv q = Absent) \<and>
         (n < next_id_limit \<longrightarrow> (\<exists>b. probe_page srv n = Present b)) \<and>
         (\<forall>q. c < q \<and> q < min n next_id_limit \<longrightarrow> probe_page srv q = Absent)"
proof -
  from assms have a: "search_result srv (prev_ids c) (min (c - 1) 0) = Inr p"
    and b: "search_result srv (next_ids c) (max (c + 1) next_id_limit) = Inr n"
    by (simp_all add: find_adjacent_Inr_iff)
  show ?thesis
    using prev_result_nearest [OF a] next_result_nearest [OF b] by simp
qed

text \<open>C3. An HTTP error status on the first page probed is not skipped: it escapes
  \<open>find_adjacent_valid_artworks\<close> as the \<open>HTTPError\<close> of \<open>raise_for_status\<close>, and the
  upward scan never runs.\<close>
theorem find_adjacent_error_escapes:
  assumes "1 < c" and "srv (page_request (c - 1)) = Resp s body"
    and "400 \<le> s" and "s < 600" and "s \<noteq> 404"
  shows "find_adjacent_valid_artworks srv c w =
           (Inl (HTTPError s), w\<lparr>trace := trace w @ [Get (page_request (c - 1))]\<rparr>)"
proof -
  have ids: "prev_ids c = (c - 1) # prev_ids (c - 1)"
    using assms(1) by (simp add: upto_rec2)
  have "probe_page srv (c - 1) = ProbeError (HTTPError s)"
    using assms by (simp add: probe_page_cases)
  then show ?thesis
    by (simp add: find_adjacent_unfold ids)
qed

text \<open>C4. The search requests exactly the pages of \<open>adjacent_probes\<close>, each with the
  browser headers and the 10 second timeout, never the center and never an identifier
  outside the two scan ranges.\<close>
theorem find_adjacent_requests:
  assumes "ev \<in> set (drop (length (trace w)) (trace (snd (find_adjacent_valid_artworks srv c w))))"
  shows "\<exists>q. ev = Get (page_request q) \<and> ((0 < q \<and> q < c) \<or> (c < q \<and> q < next_id_limit)) \<and>
             req_headers (page_request q) = page_headers \<and> req_timeout (page_request q) = 10"
  using assms adjacent_probes_range by (auto simp: find_adjacent_trace page_request_def)

text \<open>C5. The number of requests is bounded by the two scan ranges.\<close>
theorem find_adjacent_request_bound:
  "length (trace (snd (find_adjacent_valid_artworks srv c w))) \<le>
     length (trace w) + nat (c - 1) + nat (next_id_limit - c - 1)"
  using length_adjacent_probes [of srv c] by (simp add: find_adjacent_trace)

section \<open>Witnesses\<close>

text \<open>A host on which artworks 8 and 12 exist, 11 is a soft-404 page and every other
  identifier answers 404; the search from 10 probes 9, 8, 11, 12.\<close>
definition adj_example_server :: server where
  "adj_example_server =
     (\<lambda>r. if req_url r = build_pixiv_artwork_url 8 then Resp 200 ''art''
          else if req_url r = build_pixiv_artwork_url 12 then Resp 200 ''art''
          else if req_url r = build_pixiv_artwork_url 11 then Resp 200 ''<h1>Page not found</h1>''
          else Resp 404 [])"

lemma adj_example_result:
  "fst (find_adjacent_valid_artworks adj_example_server 10 init_world) = Inr (8, 12)"
  by code_simp

lemma adj_example_trace:
  "trace (snd (find_adjacent_valid_artworks adj_example_server 10 init_world)) =
     [Get (page_request 9), Get (page_request 8), Get (page_request 11), Get (page_request 12)]"
  by code_simp

theorem find_adjacent_brackets_witness:
  "fst (find_adjacent_valid_artworks adj_example_server 10 init_world) = Inr (8, 12) \<and>
   (8::int) < 10 \<and> (10::int) < 12"
  using find_adjacent_brackets [OF adj_example_result] adj_example_result by simp

theorem find_adjacent_nearest_witness:
  "fst (find_adjacent_valid_artworks adj_example_server 10 init_world) = Inr (8, 12) \<and>
   (\<exists>b. probe_page adj_example_server 8 = Present b) \<and>
   probe_page adj_example_server 9 = Absent \<and> probe_page adj_example_server 11 = Absent"
  using find_adjacent_nearest [OF adj_example_result] adj_example_result
  by (simp add: next_id_limit_def)

theorem find_adjacent_error_escapes_witness:
  "find_adjacent_valid_artworks (\<lambda>_. Resp 503 []) 5 init_world =
     (Inl (HTTPError 503), init_world\<lparr>trace := [Get (page_request 4)]\<rparr>)"
  using find_adjacent_error_escapes [of 5 "\<lambda>_. Resp 503 []" 503 "[]" init_world]
  by (simp add: init_world_def)

theorem find_adjacent_requests_witness:
  "Get (page_request 9) \<in> set (drop (length (trace init_world))
      (trace (snd (find_adjacent_valid_artworks adj_example_server 10 init_world)))) \<and>
   (\<exists>q. Get (page_request 9) = Get (page_request q) \<and>
        ((0 < q \<and> q < 10) \<or> (10 < q \<and> q < next_id_limit)) \<and>
        req_headers (page_request q) = page_headers)"
  using find_adjacent_requests [of "Get (page_request 9)" init_world adj_example_server 10]
    adj_example_trace by (simp add: init_world_def) blast

end
