(* ===== verification/TimeRange.thy ===== *)
theory TimeRange
  imports Prelude
begin

text \<open>
  \<open>PixivResourceFinder.extract_time_range\<close>, \<open>src/main.py\<close> lines 165--184: the capture
  times of the two neighbouring artworks, read from their image URIs by \<open>re.search\<close>, and
  the URL template of the target's first page, dated from the previous URI.
\<close>

section \<open>Definitions\<close>

text \<open>\<open>re.search(r'img/(\d{4})/(\d{2})/(\d{2})/(\d{2})/(\d{2})/(\d{2})/', uri)\<close>: every
  group has a fixed width, so a match at a position is unique and \<open>search\<close> takes the
  leftmost position where there is one.\<close>
fun date_fields :: "nat list \<Rightarrow> string \<Rightarrow> string list option" where
  "date_fields [] s = Some []"
| "date_fields (n # ns) s =
     (if n < length s \<and> list_all is_digit (take n s) \<and> s ! n = CHR ''/''
      then map_option (Cons (take n s)) (date_fields ns (drop (Suc n) s))
      else None)"

definition match_date_at :: "string \<Rightarrow> string list option" where
  "match_date_at s = (if take 4 s = ''img/'' then date_fields [4, 2, 2, 2, 2, 2] (drop 4 s) else None)"

fun re_search_date :: "string \<Rightarrow> string list option" where
  "re_search_date [] = match_date_at []"
| "re_search_date (c # cs) =
     (case match_date_at (c # cs) of Some g \<Rightarrow> Some g | None \<Rightarrow> re_search_date cs)"

definition uri_time :: "string list \<Rightarrow> string" where
  "uri_time g = g ! 3 @ '':'' @ g ! 4 @ '':'' @ g ! 5"

text \<open>\<open>extract_time_range\<close>: \<open>None\<close> is its \<open>ValueError\<close>.\<close>
definition extract_time_range :: "string \<Rightarrow> string \<Rightarrow> int \<Rightarrow> (string \<times> string \<times> string) option" where
  "extract_time_range prev_uri next_uri target_id =
     (case (re_search_date prev_uri, re_search_date next_uri) of
        (Some pm, Some nm) \<Rightarrow>
          Some (uri_time pm, uri_time nm,
                ''https://i.pximg.net/img-original/img/'' @ pm ! 0 @ ''/'' @ pm ! 1 @ ''/'' @ pm ! 2 @
                ''/{time}/'' @ py_str_int target_id @ ''_p0'')
      | _ \<Rightarrow> None)"

section \<open>Lemmas\<close>

text \<open>The path segment \<open>img/YYYY/MM/DD/hh/mm/ss/\<close> of an image URI, and the shape its
  fields must have for the pattern to match them.\<close>
definition date_path :: "string \<Rightarrow> string \<Rightarrow> string \<Rightarrow> string \<Rightarrow> string \<Rightarrow> string \<Rightarrow> string" where
  "date_path y mo d h mi s = ''img/'' @ y @ ''/'' @ mo @ ''/'' @ d @ ''/'' @ h @ ''/'' @ mi @ ''/'' @ s @ ''/''"

definition digit_field :: "nat \<Rightarrow> string \<Rightarrow> bool" where
  "digit_field n s \<longleftrightarrow> length s = n \<and> list_all is_digit s"

definition date_ok :: "string \<Rightarrow> string \<Rightarrow> string \<Rightarrow> string \<Rightarrow> string \<Rightarrow> string \<Rightarrow> bool" where
  "date_ok y mo d h mi s \<longleftrightarrow>
     digit_field 4 y \<and> digit_field 2 mo \<and> digit_field 2 d \<and> digit_field 2 h \<and> digit_field 2 mi \<and> digit_field 2 s"

lemma date_fields_field:
  "digit_field n x \<Longrightarrow> date_fields (n # ns) (x @ CHR ''/'' # r) = map_option (Cons x) (date_fields ns r)"
  by (clarsimp simp: digit_field_def)

lemma match_date_at_path:
  "date_ok y mo d h mi s \<Longrightarrow> match_date_at (date_path y mo d h mi s @ r) = Some [y, mo, d, h, mi, s]"
  unfolding date_path_def match_date_at_def
  by (simp del: date_fields.simps add: date_fields.simps(1) date_ok_def date_fields_field)

text \<open>No match can begin inside a prefix free of \<open>img/\<close> when \<open>img/\<close> follows it.\<close>
lemma take_4_not_img:
  assumes "x \<noteq> []" "\<not> sublist ''img/'' x"
  shows "take 4 (x @ ''img/'' @ r) \<noteq> ''img/''"
proof
  assume eq: "take 4 (x @ ''img/'' @ r) = ''img/''"
  obtain a x1 where x: "x = a # x1" using assms(1) by (cases x) auto
  consider "x1 = []" | b where "x1 = [b]" | b c where "x1 = [b, c]" | b c d x4 where "x1 = b # c # d # x4"
    by (metis list.exhaust)
  then show False
  proof cases
    case 4
    with eq x have "x = ''img/'' @ x4" by simp
    with assms(2) show False by simp
  qed (use eq x in simp_all)
qed

lemma re_search_date_skip:
  "\<not> sublist ''img/'' pre \<Longrightarrow> re_search_date (pre @ ''img/'' @ r) = re_search_date (''img/'' @ r)"
proof (induction pre)
  case Nil
  then show ?case by simp
next
  case (Cons c pre)
  have "match_date_at ((c # pre) @ ''img/'' @ r) = None"
    using take_4_not_img [of "c # pre" r] Cons.prems by (simp add: match_date_at_def)
  moreover have "\<not> sublist ''img/'' pre" using Cons.prems by (auto simp: sublist_Cons_right)
  ultimately show ?case using Cons.IH by simp
qed

lemma re_search_date_path:
  "\<not> py_contains ''img/'' pre \<Longrightarrow> date_ok y mo d h mi s \<Longrightarrow>
   re_search_date (pre @ date_path y mo d h mi s @ r) = Some [y, mo, d, h, mi, s]"
  using re_search_date_skip [of pre "drop 4 (date_path y mo d h mi s @ r)"] match_date_at_path [of y mo d h mi s r]
  by (simp add: py_contains_sublist date_path_def)

text \<open>The groups of a match are runs of digits.\<close>
lemma date_fields_digits:
  "date_fields ns s = Some g \<Longrightarrow> length g = length ns \<and> (\<forall>x \<in> set g. \<forall>c \<in> set x. is_digit c)"
proof (induction ns s arbitrary: g rule: date_fields.induct)
  case (2 n ns s)
  then show ?case by (auto simp: list_all_iff split: if_splits dest: in_set_takeD)
qed simp

lemma match_date_at_digits:
  assumes "match_date_at s = Some g"
  shows "length g = 6 \<and> (\<forall>x \<in> set g. \<forall>c \<in> set x. is_digit c)"
proof -
  have "date_fields [4, 2, 2, 2, 2, 2] (drop 4 s) = Some g"
    using assms by (simp del: date_fields.simps add: match_date_at_def split: if_splits)
  from date_fields_digits [OF this] show ?thesis by simp
qed

lemma re_search_date_digits:
  "re_search_date s = Some g \<Longrightarrow> length g = 6 \<and> (\<forall>x \<in> set g. \<forall>c \<in> set x. is_digit c)"
  by (induction s) (auto dest: match_date_at_digits split: option.splits)

section \<open>Properties\<close>

text \<open>C23. \<open>extract_time_range\<close> on two image URIs whose part before the date holds no
  \<open>img/\<close>: the times of day are the two URIs' \<open>hh:mm:ss\<close>, and the URL template takes
  its date from the previous URI only, whatever the date of the next one.\<close>
theorem extract_time_range_uris:
  assumes "\<not> py_contains ''img/'' pre1" "\<not> py_contains ''img/'' pre2"
    and "date_ok y1 mo1 d1 h1 mi1 s1" "date_ok y2 mo2 d2 h2 mi2 s2"
  shows "extract_time_range (pre1 @ date_path y1 mo1 d1 h1 mi1 s1 @ r1) (pre2 @ date_path y2 mo2 d2 h2 mi2 s2 @ r2) tid =
           Some (h1 @ '':'' @ mi1 @ '':'' @ s1, h2 @ '':'' @ mi2 @ '':'' @ s2,
                 ''https://i.pximg.net/img-original/img/'' @ y1 @ ''/'' @ mo1 @ ''/'' @ d1 @ ''/{time}/'' @
                 py_str_int tid @ ''_p0'')"
  using assms by (simp add: extract_time_range_def re_search_date_path uri_time_def)


section \<open>Witnesses\<close>

theorem extract_time_range_uris_witness:
  "\<not> py_contains ''img/'' ''https://i.pximg.net/img-original/'' \<and> date_ok ''2025'' ''05'' ''12'' ''23'' ''59'' ''58'' \<and>
   date_ok ''2025'' ''05'' ''13'' ''00'' ''00'' ''05'' \<and>
   extract_time_range (''https://i.pximg.net/img-original/'' @ date_path ''2025'' ''05'' ''12'' ''23'' ''59'' ''58'' @ ''1_p0.png'')
     (''https://i.pximg.net/img-original/'' @ date_path ''2025'' ''05'' ''13'' ''00'' ''00'' ''05'' @ ''3_p0.png'') 2 =
   Some (''23:59:58'', ''00:00:05'', ''https://i.pximg.net/img-original/img/2025/05/12/{time}/2_p0'')"
proof -
  have c: "\<not> py_contains ''img/'' ''https://i.pximg.net/img-original/''" by code_simp
  have d: "date_ok ''2025'' ''05'' ''12'' ''23'' ''59'' ''58''" "date_ok ''2025'' ''05'' ''13'' ''00'' ''00'' ''05''"
    by (simp_all add: date_ok_def digit_field_def is_digit_def)
  show ?thesis
    using extract_time_range_uris [OF c c d, of "''1_p0.png''" "''3_p0.png''" 2] c d
    by (simp add: py_str_int_def py_str_nat.simps digit_char_def)
qed

end
