(* ===== verification/TimeOfDay.thy ===== *)
theory TimeOfDay
  imports Prelude
begin

text \<open>
  The time values of \<open>src/find_resource.py\<close> and \<open>src/main.py\<close>: a \<open>datetime\<close> made by
  \<open>datetime.strptime(s, '%H:%M:%S')\<close> lies on 1900-01-01, so it is the number of seconds
  since that midnight (\<open>nat\<close>); adding \<open>timedelta(seconds=1)\<close> is \<open>Suc\<close>, comparison is
  \<open>\<le>\<close>, and \<open>strftime\<close> reads the time of day of the value.

  \<open>strptime\<close> compiles \<open>%H:%M:%S\<close> to the regular expression
  \<open>(2[0-3]|[0-1]\d|\d):([0-5]\d|\d):(6[0-1]|[0-5]\d|\d)\<close>, matches it at the start of the
  string (the first alternative that lets the match go on wins; a shorter alternative can
  never rescue a longer one here, since a digit would then stand where \<open>:\<close> or the end
  is needed), raises \<open>ValueError\<close> when characters remain, and the \<open>datetime\<close>
  constructor raises it again for seconds 60 and 61. \<open>None\<close> is that \<open>ValueError\<close>.
\<close>

section \<open>Definitions\<close>

definition char_in :: "nat \<Rightarrow> nat \<Rightarrow> char \<Rightarrow> bool" where
  "char_in lo hi c \<longleftrightarrow> lo \<le> of_char c \<and> of_char c \<le> hi"

text \<open>One regex alternative \<open>[P][Q]\<close>, or \<open>\d\<close>, at the start of the input: the value of
  the digits and the rest.\<close>
definition two_digits :: "(char \<Rightarrow> bool) \<Rightarrow> (char \<Rightarrow> bool) \<Rightarrow> string \<Rightarrow> (nat \<times> string) option" where
  "two_digits P Q s =
     (case s of
        c1 # c2 # r \<Rightarrow> if P c1 \<and> Q c2 then Some (10 * digit_val c1 + digit_val c2, r) else None
      | _ \<Rightarrow> None)"

definition one_digit :: "string \<Rightarrow> (nat \<times> string) option" where
  "one_digit s = (case s of c # r \<Rightarrow> if is_digit c then Some (digit_val c, r) else None | [] \<Rightarrow> None)"

definition orelse :: "'a option \<Rightarrow> 'a option \<Rightarrow> 'a option" where
  "orelse a b = (case a of None \<Rightarrow> b | Some x \<Rightarrow> Some x)"

definition parse_H :: "string \<Rightarrow> (nat \<times> string) option" where
  "parse_H s =
     orelse (two_digits (\<lambda>c. c = CHR ''2'') (char_in 48 51) s)
       (orelse (two_digits (char_in 48 49) is_digit s) (one_digit s))"

definition parse_M :: "string \<Rightarrow> (nat \<times> string) option" where
  "parse_M s = orelse (two_digits (char_in 48 53) is_digit s) (one_digit s)"

definition parse_S :: "string \<Rightarrow> (nat \<times> string) option" where
  "parse_S s =
     orelse (two_digits (\<lambda>c. c = CHR ''6'') (char_in 48 49) s)
       (orelse (two_digits (char_in 48 53) is_digit s) (one_digit s))"

definition after_colon :: "string \<Rightarrow> string option" where
  "after_colon r = (case r of c # r' \<Rightarrow> if c = CHR '':'' then Some r' else None | [] \<Rightarrow> None)"

definition strptime_hms :: "string \<Rightarrow> nat option" where
  "strptime_hms s =
     (case parse_H s of
        None \<Rightarrow> None
      | Some (h, r1) \<Rightarrow>
          (case after_colon r1 of
             None \<Rightarrow> None
           | Some r1' \<Rightarrow>
               (case parse_M r1' of
                  None \<Rightarrow> None
                | Some (m, r2) \<Rightarrow>
                    (case after_colon r2 of
                       None \<Rightarrow> None
                     | Some r2' \<Rightarrow>
                         (case parse_S r2' of
                            None \<Rightarrow> None
                          | Some (sec, r3) \<Rightarrow>
                              if r3 \<noteq> [] \<or> 59 < sec then None
                              else Some (h * 3600 + m * 60 + sec))))))"

text \<open>\<open>%H\<close>, \<open>%M\<close>, \<open>%S\<close>: two digits, zero-padded.\<close>
definition pad2 :: "nat \<Rightarrow> string" where
  "pad2 n = [digit_char (n div 10), digit_char (n mod 10)]"

definition strftime_hms :: "char \<Rightarrow> nat \<Rightarrow> string" where
  "strftime_hms sep t =
     (let d = t mod 86400 in
      pad2 (d div 3600) @ [sep] @ pad2 (d mod 3600 div 60) @ [sep] @ pad2 (d mod 60))"

section \<open>Lemmas\<close>

lemma char_in_digit_char [simp]:
  "d < 10 \<Longrightarrow> char_in lo hi (digit_char d) \<longleftrightarrow> lo \<le> 48 + d \<and> 48 + d \<le> hi"
  by (simp add: char_in_def)

lemma digit_char_eq_iff [simp]:
  "d < 10 \<Longrightarrow> digit_char d = CHR ''2'' \<longleftrightarrow> d = 2"
  "d < 10 \<Longrightarrow> digit_char d = CHR ''6'' \<longleftrightarrow> d = 6"
  "d < 10 \<Longrightarrow> digit_char d \<noteq> CHR '':''"
  by (drule less_10_cases, auto simp: digit_char_def)+

lemma two_digits_pad2:
  "n < 100 \<Longrightarrow> two_digits P Q (pad2 n @ r) =
     (if P (digit_char (n div 10)) \<and> Q (digit_char (n mod 10)) then Some (n, r) else None)"
  by (simp add: two_digits_def pad2_def)

lemma parse_H_pad2:
  assumes "h < 24" shows "parse_H (pad2 h @ r) = Some (h, r)"
proof -
  have "h div 10 < 2 \<or> (h div 10 = 2 \<and> h mod 10 \<le> 3)" using assms by presburger
  with assms show ?thesis by (auto simp: parse_H_def orelse_def two_digits_pad2)
qed

lemma parse_M_pad2: "m < 60 \<Longrightarrow> parse_M (pad2 m @ r) = Some (m, r)"
  by (auto simp: parse_M_def orelse_def two_digits_pad2)

lemma parse_S_pad2: "s < 60 \<Longrightarrow> parse_S (pad2 s @ r) = Some (s, r)"
  by (auto simp: parse_S_def orelse_def two_digits_pad2)

lemma parse_H_bound: "parse_H s = Some (h, r) \<Longrightarrow> h \<le> 23"
  by (auto simp: parse_H_def orelse_def two_digits_def one_digit_def digit_val_def char_in_def
      is_digit_def split: option.splits list.splits if_splits)

lemma parse_M_bound: "parse_M s = Some (m, r) \<Longrightarrow> m \<le> 59"
  by (auto simp: parse_M_def orelse_def two_digits_def one_digit_def digit_val_def char_in_def
      is_digit_def split: option.splits list.splits if_splits)

text \<open>Every time \<open>strptime(s, '%H:%M:%S')\<close> accepts is a second of one day.\<close>
lemma strptime_hms_bound: "strptime_hms s = Some t \<Longrightarrow> t < 86400"
  by (auto simp: strptime_hms_def split: option.splits if_splits
      dest!: parse_H_bound parse_M_bound)

lemma after_colon_Cons [simp]: "after_colon (CHR '':'' # r) = Some r"
  by (simp add: after_colon_def)

text \<open>Print then parse: \<open>strptime(t.strftime('%H:%M:%S'), '%H:%M:%S')\<close> gives back
  every time of day.\<close>
lemma strptime_strftime:
  assumes "t < 86400" shows "strptime_hms (strftime_hms CHR '':'' t) = Some t"
proof -
  have h: "t div 3600 < 24" and m: "t mod 3600 div 60 < 60" and s: "t mod 60 < 60"
    using assms by simp_all
  have "t mod 3600 mod 60 = t mod 60"
    by (simp add: mod_mod_cancel)
  moreover have "t div 3600 * 3600 + t mod 3600 = t" "t mod 3600 div 60 * 60 + t mod 3600 mod 60 = t mod 3600"
    by simp_all
  ultimately have "t div 3600 * 3600 + t mod 3600 div 60 * 60 + t mod 60 = t"
    by linarith
  with assms show ?thesis
    by (simp add: strftime_hms_def strptime_hms_def parse_H_pad2 [OF h] parse_M_pad2 [OF m]
        parse_S_pad2 [OF s, of "[]", simplified])
qed

lemma py_replace_char:
  "py_replace s [a] [b] = map (\<lambda>x. if x = a then b else x) s"
proof -
  have "py_replace_ne [a] [b] s = map (\<lambda>x. if x = a then b else x) s"
    by (induction s) auto
  then show ?thesis by (simp add: py_replace_def)
qed

lemma digit_char_not_slash [simp]: "d < 10 \<Longrightarrow> digit_char d \<noteq> CHR ''/''"
  by (drule less_10_cases) (auto simp: digit_char_def)

lemma pad2_no_slash: "n < 100 \<Longrightarrow> map (\<lambda>x. if x = CHR ''/'' then c else x) (pad2 n) = pad2 n"
  by (simp add: pad2_def)

lemma strftime_slash_colon:
  "py_replace (strftime_hms CHR ''/'' t) ''/'' '':'' = strftime_hms CHR '':'' t"
proof -
  have "t mod 86400 div 3600 < 100" "t mod 86400 mod 3600 div 60 < 100" "t mod 86400 mod 60 < 100"
    by simp_all
  then show ?thesis
    by (simp add: py_replace_char strftime_hms_def Let_def pad2_no_slash del: pad2_def)
qed

lemma digit_char_not_colon [simp]: "d < 10 \<Longrightarrow> digit_char d \<noteq> CHR '':''"
  by (drule less_10_cases) (auto simp: digit_char_def)

lemma pad2_no_colon: "n < 100 \<Longrightarrow> map (\<lambda>x. if x = CHR '':'' then c else x) (pad2 n) = pad2 n"
  by (simp add: pad2_def)

lemma strftime_colon_slash:
  "py_replace (strftime_hms CHR '':'' t) '':'' ''/'' = strftime_hms CHR ''/'' t"
proof -
  have "t mod 86400 div 3600 < 100" "t mod 86400 mod 3600 div 60 < 100" "t mod 86400 mod 60 < 100"
    by simp_all
  then show ?thesis
    by (simp add: py_replace_char strftime_hms_def Let_def pad2_no_colon del: pad2_def)
qed

text \<open>\<open>strftime\<close> writes only digits and the separator.\<close>
lemma pad2_digits: "n < 100 \<Longrightarrow> c \<in> set (pad2 n) \<Longrightarrow> is_digit c"
  by (auto simp: pad2_def)

lemma strftime_hms_chars: "c \<in> set (strftime_hms sep t) \<Longrightarrow> is_digit c \<or> c = sep"
proof -
  let ?d = "t mod 86400"
  have "?d div 3600 < 100" "?d mod 3600 div 60 < 100" "?d mod 60 < 100" by simp_all
  then show "c \<in> set (strftime_hms sep t) \<Longrightarrow> is_digit c \<or> c = sep"
    unfolding strftime_hms_def Let_def by (auto dest: pad2_digits)
qed

text \<open>A time of day printed with either separator parses back to itself once the slashes
  are replaced by colons.\<close>
lemma strptime_slash:
  "t < 86400 \<Longrightarrow> strptime_hms (py_replace (strftime_hms CHR ''/'' t) ''/'' '':'') = Some t"
  by (simp add: strftime_slash_colon strptime_strftime)

lemma strftime_colon_no_slash:
  "py_replace (strftime_hms CHR '':'' t) ''/'' '':'' = strftime_hms CHR '':'' t"
proof -
  have "t mod 86400 div 3600 < 100" "t mod 86400 mod 3600 div 60 < 100" "t mod 86400 mod 60 < 100"
    by simp_all
  then show ?thesis
    by (simp add: py_replace_char strftime_hms_def Let_def pad2_no_slash del: pad2_def)
qed

lemma strptime_colon:
  "t < 86400 \<Longrightarrow> strptime_hms (py_replace (strftime_hms CHR '':'' t) ''/'' '':'') = Some t"
  by (simp add: strftime_colon_no_slash strptime_strftime)

end
