(* ===== verification/WindowScan.thy ===== *)
theory WindowScan
  imports TimeOfDay
begin

text \<open>
  TimeWindowProbe: \<open>check_pixiv_image_existence\<close>, \<open>src/find_resource.py\<close> lines 5--76.
  The start and end strings are normalised (\<open>/\<close> to \<open>:\<close>) and parsed; every second of
  the window, ends included, is formatted into the URL template with \<open>str.format\<close>, the
  image name appended, and requested once; a 200 records the timestamp, anything else
  (another status, a broken transfer, no response) is swallowed and the scan goes on.
\<close>

section \<open>Definitions\<close>

text \<open>\<open>template.format(time=v)\<close>. \<open>{{\<close> and \<open>}}\<close> are literal braces, \<open>{time}\<close> is
  replaced; a lone \<open>}\<close>, an unclosed \<open>{\<close>, and a field naming anything else
  (\<open>{}\<close>, \<open>{0}\<close>, \<open>{x}\<close>) raise. Fields with a conversion, a format spec, an attribute
  or an index (\<open>!\<close>, \<open>:\<close>, \<open>.\<close>, \<open>[\<close>, a nested \<open>{\<close>) are not modelled and give
  \<open>FormatNotModelled\<close>. The leftmost problem decides, as Python parses left to right.\<close>
datatype format_result = Formatted string | FormatRaises | FormatNotModelled

definition fmt_prepend :: "string \<Rightarrow> format_result \<Rightarrow> format_result" where
  "fmt_prepend p r = (case r of Formatted s \<Rightarrow> Formatted (p @ s) | e \<Rightarrow> e)"

definition field_special :: "string \<Rightarrow> bool" where
  "field_special f \<longleftrightarrow> (\<exists>c \<in> set f. c \<in> set ''!:.[{'')"

function py_format_time :: "string \<Rightarrow> string \<Rightarrow> format_result" where
  "py_format_time v s =
     (case s of
        [] \<Rightarrow> Formatted []
      | c # r \<Rightarrow>
          if c = CHR ''{'' then
            (if r \<noteq> [] \<and> hd r = CHR ''{'' then fmt_prepend ''{'' (py_format_time v (tl r))
             else
               (let field = takeWhile (\<lambda>x. x \<noteq> CHR ''}'') r in
                if field = r then FormatRaises
                else if field = ''time'' then fmt_prepend v (py_format_time v (drop (Suc (length field)) r))
                else if field_special field then FormatNotModelled
                else FormatRaises))
          else if c = CHR ''}'' then
            (if r \<noteq> [] \<and> hd r = CHR ''}'' then fmt_prepend ''}'' (py_format_time v (tl r))
             else FormatRaises)
          else fmt_prepend [c] (py_format_time v r))"
  by pat_completeness auto
termination
  by (relation "measure (\<lambda>(v, s). length s)") (auto simp: length_tl)

definition scan_headers :: headers where
  "scan_headers =
     [(''Referer'', ''https://www.pixiv.net/''),
      (''User-Agent'', ''Mozilla/5.0 (Windows NT 10.0; Win64; x64) AppleWebKit/537.36 (KHTML, like Gecko) Chrome/91.0.4472.124 Safari/537.36'')]"

definition image_request :: "url \<Rightarrow> request" where
  "image_request u = \<lparr>req_url = u, req_headers = scan_headers, req_timeout = 10, req_stream = False\<rparr>"

text \<open>How the scan ends: the early \<open>return\<close> on an unparsable time, an exception of
  \<open>format\<close> (not caught: line 44 is outside the \<open>try\<close>), a template this model does not
  cover, or the full window with the timestamps found (what the summary prints).\<close>
datatype scan_outcome = TimeFormatError | TemplateError | TemplateNotModelled | ScanDone "string list"

function scan_seconds ::
  "server \<Rightarrow> string \<Rightarrow> string \<Rightarrow> nat \<Rightarrow> nat \<Rightarrow> string list \<Rightarrow> world \<Rightarrow> scan_outcome \<times> world" where
  "scan_seconds srv base_url_template image_id current_time end_time found_timestamps w =
     (if current_time \<le> end_time then
        (case py_format_time (strftime_hms CHR ''/'' current_time) base_url_template of
           FormatRaises \<Rightarrow> (TemplateError, w)
         | FormatNotModelled \<Rightarrow> (TemplateNotModelled, w)
         | Formatted u \<Rightarrow>
             (case http_get srv (image_request (u @ image_id)) w of
                (Resp status _, w1) \<Rightarrow>
                  scan_seconds srv base_url_template image_id (Suc current_time) end_time
                    (if status = 200 then found_timestamps @ [strftime_hms CHR '':'' current_time]
                     else found_timestamps) w1
              | (_, w1) \<Rightarrow>
                  scan_seconds srv base_url_template image_id (Suc current_time) end_time
                    found_timestamps w1))
      else (ScanDone found_timestamps, w))"
  by pat_completeness auto
termination
  by (relation "measure (\<lambda>(srv, t, i, c, e, f, w). Suc e - c)") auto

definition check_pixiv_image_existence ::
  "server \<Rightarrow> string \<Rightarrow> string \<Rightarrow> string \<Rightarrow> string \<Rightarrow> world \<Rightarrow> scan_outcome \<times> world" where
  "check_pixiv_image_existence srv base_url_template start_time_str end_time_str image_id w =
     (case strptime_hms (py_replace start_time_str ''/'' '':'') of
        None \<Rightarrow> (TimeFormatError, w)
      | Some start_time \<Rightarrow>
          (case strptime_hms (py_replace end_time_str ''/'' '':'') of
             None \<Rightarrow> (TimeFormatError, w)
           | Some end_time \<Rightarrow> scan_seconds srv base_url_template image_id start_time end_time [] w))"

text \<open>A response the scan records: status 200 with its body read completely.\<close>
fun answers_200 :: "http_result \<Rightarrow> bool" where
  "answers_200 (Resp s _) = (s = 200)"
| "answers_200 _ = False"

declare py_format_time.simps [simp del] scan_seconds.simps [simp del]

section \<open>Lemmas\<close>

lemma py_format_time_plain:
  "CHR ''{'' \<notin> set s \<Longrightarrow> CHR ''}'' \<notin> set s \<Longrightarrow> py_format_time v s = Formatted s"
proof (induction s)
  case Nil
  then show ?case by (simp add: py_format_time.simps)
next
  case (Cons c s)
  then show ?case by (subst py_format_time.simps) (auto simp: fmt_prepend_def)
qed

lemma py_format_time_template:
  assumes "CHR ''{'' \<notin> set pre" "CHR ''}'' \<notin> set pre" "CHR ''{'' \<notin> set post" "CHR ''}'' \<notin> set post"
  shows "py_format_time v (pre @ ''{time}'' @ post) = Formatted (pre @ v @ post)"
  using assms(1,2)
proof (induction pre)
  case Nil
  have "py_format_time v (''{time}'' @ post) = fmt_prepend v (py_format_time v post)"
    by (subst py_format_time.simps) simp
  then show ?case using assms(3,4) by (simp add: py_format_time_plain fmt_prepend_def)
next
  case (Cons c pre)
  then show ?case by (subst py_format_time.simps) (auto simp: fmt_prepend_def)
qed

lemma scan_seconds_formatted:
  assumes "\<forall>t. py_format_time (strftime_hms CHR ''/'' t) tmpl = Formatted (U t)"
  shows "scan_seconds srv tmpl iid cur en found w =
           (ScanDone (found @ map (strftime_hms CHR '':'')
                        (filter (\<lambda>t. answers_200 (srv (image_request (U t @ iid)))) [cur..<Suc en])),
            w\<lparr>trace := trace w @ map (\<lambda>t. Get (image_request (U t @ iid))) [cur..<Suc en]\<rparr>)"
proof (induction "Suc en - cur" arbitrary: cur found w)
  case 0
  then show ?case by (simp add: scan_seconds.simps [of srv tmpl iid cur en found w])
next
  case (Suc k)
  then have le: "cur \<le> en" and k: "k = Suc en - Suc cur" by simp_all
  have ids: "[cur..<Suc en] = cur # [Suc cur..<Suc en]"
    using le by (simp add: upt_rec)
  have fm: "py_format_time (strftime_hms CHR ''/'' cur) tmpl = Formatted (U cur)"
    using assms by blast
  let ?w1 = "w\<lparr>trace := trace w @ [Get (image_request (U cur @ iid))]\<rparr>"
  let ?found = "if answers_200 (srv (image_request (U cur @ iid)))
                then found @ [strftime_hms CHR '':'' cur] else found"
  have step: "scan_seconds srv tmpl iid cur en found w = scan_seconds srv tmpl iid (Suc cur) en ?found ?w1"
    using le fm
    by (simp add: scan_seconds.simps [of srv tmpl iid cur en found w] http_get_def
        split: http_result.splits)
  show ?case
    using Suc.hyps(1) [OF k, of ?found ?w1] by (simp add: step ids del: upt_Suc)
qed

definition plain_template :: "string \<Rightarrow> bool" where
  "plain_template s \<longleftrightarrow> CHR ''{'' \<notin> set s \<and> CHR ''}'' \<notin> set s"

lemma check_existence_template:
  assumes "plain_template pre" "plain_template post"
    and "strptime_hms (py_replace start_str ''/'' '':'') = Some st"
    and "strptime_hms (py_replace end_str ''/'' '':'') = Some en"
  shows "check_pixiv_image_existence srv (pre @ ''{time}'' @ post) start_str end_str iid w =
           (ScanDone (map (strftime_hms CHR '':'')
               (filter (\<lambda>t. answers_200 (srv (image_request (pre @ strftime_hms CHR ''/'' t @ post @ iid)))) [st..<Suc en])),
            w\<lparr>trace := trace w @ map (\<lambda>t. Get (image_request (pre @ strftime_hms CHR ''/'' t @ post @ iid))) [st..<Suc en]\<rparr>)"
proof -
  have "\<forall>t. py_format_time (strftime_hms CHR ''/'' t) (pre @ ''{time}'' @ post) =
              Formatted (pre @ strftime_hms CHR ''/'' t @ post)"
    using assms(1,2) by (intro allI py_format_time_template) (auto simp: plain_template_def)
  from scan_seconds_formatted [OF this] assms(3,4) show ?thesis
    by (simp add: check_pixiv_image_existence_def)
qed

section \<open>Properties of the window scan\<close>

text \<open>C12. For a template with one \<open>{time}\<close> field and valid start and end times, the scan
  requests every second of the window, ends included and in order, with the
  \<open>HH/MM/SS\<close> of that second in the URL, and reports, as \<open>HH:MM:SS\<close>, exactly the
  seconds whose URL answered 200, whatever the other seconds answered.\<close>
theorem check_existence_scan:
  assumes "plain_template pre" "plain_template post"
    and "strptime_hms (py_replace start_str ''/'' '':'') = Some st"
    and "strptime_hms (py_replace end_str ''/'' '':'') = Some en"
  shows "check_pixiv_image_existence srv (pre @ ''{time}'' @ post) start_str end_str iid w =
           (ScanDone (map (strftime_hms CHR '':'')
               (filter (\<lambda>t. answers_200 (srv (image_request (pre @ strftime_hms CHR ''/'' t @ post @ iid)))) [st..<Suc en])),
            w\<lparr>trace := trace w @ map (\<lambda>t. Get (image_request (pre @ strftime_hms CHR ''/'' t @ post @ iid))) [st..<Suc en]\<rparr>)"
  using assms by (rule check_existence_template)

text \<open>C13. Over a window of \<open>N\<close> seconds the scan issues exactly \<open>N\<close> requests, and the
  timestamps it reports are times of the window, strictly increasing: each parses back
  with \<open>strptime\<close> to its second.\<close>
theorem check_existence_found_in_window:
  assumes "plain_template pre" "plain_template post"
    and "strptime_hms (py_replace start_str ''/'' '':'') = Some st"
    and "strptime_hms (py_replace end_str ''/'' '':'') = Some en"
    and "check_pixiv_image_existence srv (pre @ ''{time}'' @ post) start_str end_str iid w = (r, w')"
  shows "length (trace w') = length (trace w) + (Suc en - st) \<and>
         (\<exists>ts found. r = ScanDone found \<and> map strptime_hms found = map Some ts \<and>
                   sorted_wrt (<) ts \<and> set ts \<subseteq> {st..en})"
proof -
  let ?ts = "filter (\<lambda>t. answers_200 (srv (image_request (pre @ strftime_hms CHR ''/'' t @ post @ iid)))) [st..<Suc en]"
  have en: "en < 86400" using assms(4) by (rule strptime_hms_bound)
  have r: "r = ScanDone (map (strftime_hms CHR '':'') ?ts)"
    and len: "length (trace w') = length (trace w) + (Suc en - st)"
    using check_existence_template [OF assms(1-4), of srv iid w] assms(5) by auto
  have "map strptime_hms (map (strftime_hms CHR '':'') ?ts) = map Some ?ts"
    using en by (auto simp: strptime_strftime)
  moreover have "sorted_wrt (<) ?ts"
    by (rule sorted_wrt_filter) (simp del: upt_Suc)
  moreover have "set ?ts \<subseteq> {st..en}" by auto
  ultimately show ?thesis using r len by blast
qed

text \<open>C14. A window whose end precedes its start is not an error: the scan issues no
  request and reports no timestamp.\<close>
theorem check_existence_reversed_window:
  assumes "strptime_hms (py_replace start_str ''/'' '':'') = Some st"
    and "strptime_hms (py_replace end_str ''/'' '':'') = Some en" and "en < st"
  shows "check_pixiv_image_existence srv tmpl start_str end_str iid w = (ScanDone [], w)"
  using assms by (simp add: check_pixiv_image_existence_def scan_seconds.simps)

text \<open>C15. Both time formats the docstring of \<open>check_pixiv_image_existence\<close> promises,
  \<open>HH/MM/SS\<close> and \<open>HH:MM:SS\<close>, are accepted for every time of day, and both give the
  scan of the same window, from the start second to the end second.\<close>
theorem check_existence_both_formats:
  assumes "st < 86400" "en < 86400"
  shows "check_pixiv_image_existence srv tmpl (strftime_hms CHR ''/'' st) (strftime_hms CHR ''/'' en) iid w =
           scan_seconds srv tmpl iid st en [] w \<and>
         check_pixiv_image_existence srv tmpl (strftime_hms CHR '':'' st) (strftime_hms CHR '':'' en) iid w =
           scan_seconds srv tmpl iid st en [] w"
  using assms by (simp add: check_pixiv_image_existence_def strptime_slash strptime_colon)

section \<open>Witnesses\<close>

text \<open>The window 12:00:00--12:00:02 of 2025-06-08 on a host where only the image at
  12:00:01 exists.\<close>
definition scan_example_pre :: string where
  "scan_example_pre = ''https://i.pximg.net/img-original/img/2025/06/08/''"

definition scan_example_server :: server where
  "scan_example_server =
     (\<lambda>r. if req_url r = ''https://i.pximg.net/img-original/img/2025/06/08/12/00/01/1_p0.png''
          then Resp 200 ''png'' else Resp 404 [])"

lemma scan_example_hyps:
  "plain_template scan_example_pre" "plain_template ''/''"
  "strptime_hms (py_replace ''12/00/00'' ''/'' '':'') = Some 43200"
  "strptime_hms (py_replace ''12/00/02'' ''/'' '':'') = Some 43202"
  by (simp_all add: plain_template_def scan_example_pre_def py_replace_def strptime_hms_def
      parse_H_def parse_M_def parse_S_def orelse_def two_digits_def one_digit_def after_colon_def
      char_in_def is_digit_def digit_val_def)

lemma scan_example_answers:
  "map (\<lambda>t. answers_200 (scan_example_server
      (image_request (scan_example_pre @ strftime_hms CHR ''/'' t @ ''/'' @ ''1_p0.png'')))) [43200..<43203] =
   [False, True, False]"
  by (simp add: upt_rec scan_example_server_def scan_example_pre_def image_request_def
      strftime_hms_def pad2_def digit_char_def)

theorem check_existence_scan_witness:
  "fst (check_pixiv_image_existence scan_example_server (scan_example_pre @ ''{time}'' @ ''/'')
          ''12/00/00'' ''12/00/02'' ''1_p0.png'' init_world) = ScanDone [''12:00:01''] \<and>
   length (trace (snd (check_pixiv_image_existence scan_example_server (scan_example_pre @ ''{time}'' @ ''/'')
          ''12/00/00'' ''12/00/02'' ''1_p0.png'' init_world))) = 3"
proof -
  note eq = check_existence_scan [OF scan_example_hyps, of scan_example_server "''1_p0.png''" init_world]
  have f: "filter (\<lambda>t. answers_200 (scan_example_server
      (image_request (scan_example_pre @ strftime_hms CHR ''/'' t @ ''/'' @ ''1_p0.png'')))) [43200..<43203] = [43201]"
    using scan_example_answers by (simp add: upt_rec)
  show ?thesis
    using eq f by (simp add: init_world_def strftime_hms_def pad2_def digit_char_def)
qed

theorem check_existence_found_in_window_witness:
  "length (trace (snd (check_pixiv_image_existence scan_example_server (scan_example_pre @ ''{time}'' @ ''/'')
          ''12/00/00'' ''12/00/02'' ''1_p0.png'' init_world))) = length (trace init_world) + 3"
proof -
  have "length (trace (snd (check_pixiv_image_existence scan_example_server (scan_example_pre @ ''{time}'' @ ''/'')
          ''12/00/00'' ''12/00/02'' ''1_p0.png'' init_world))) = length (trace init_world) + (Suc 43202 - 43200)"
    using check_existence_found_in_window [OF scan_example_hyps prod.collapse [symmetric]] by blast
  then show ?thesis by simp
qed

theorem check_existence_reversed_window_witness:
  "check_pixiv_image_existence scan_example_server (scan_example_pre @ ''{time}'' @ ''/'')
     ''12/00/02'' ''12/00/00'' ''1_p0.png'' init_world = (ScanDone [], init_world)"
  using check_existence_reversed_window [OF scan_example_hyps(4) scan_example_hyps(3)] by simp

theorem check_existence_both_formats_witness:
  "check_pixiv_image_existence (\<lambda>_. NetError) ''x{time}'' (strftime_hms CHR ''/'' 0) (strftime_hms CHR ''/'' 2)
     ''.png'' init_world = scan_seconds (\<lambda>_. NetError) ''x{time}'' ''.png'' 0 2 [] init_world \<and>
   check_pixiv_image_existence (\<lambda>_. NetError) ''x{time}'' (strftime_hms CHR '':'' 0) (strftime_hms CHR '':'' 2)
     ''.png'' init_world = scan_seconds (\<lambda>_. NetError) ''x{time}'' ''.png'' 0 2 [] init_world"
  using check_existence_both_formats [of 0 2 "\<lambda>_. NetError" "''x{time}''" "''.png''" init_world] by simp

end
