(* ===== verification/GalleryUrl.thy ===== *)
theory GalleryUrl
  imports Prelude
begin

text \<open>
  The URL pattern of \<open>download_pixiv_gallery\<close> (\<open>src/resource_downloader.py\<close>, lines
  17--24): \<open>re.compile(r'(https?://.*/)(\d+)_p\d+(\..+)').match(start_url)\<close>, with
  Python's backtracking order made explicit, and the file names the download loop
  builds from the three groups (line 42). \<open>.\<close> matches every character but the
  newline; \<open>\d\<close> is an ASCII digit; \<open>match\<close> anchors at the start only.
\<close>

section \<open>Definitions\<close>

definition newline :: char where
  "newline = CHR 0x0A"

text \<open>\<open>(\d+)_p\d+(\..+)\<close> at the start of \<open>t\<close>: both \<open>\d+\<close> take every digit (a
  shorter run leaves a digit where \<open>_\<close> or \<open>.\<close> must follow), \<open>.+\<close> takes the rest of
  the line. The result is the two groups \<open>(illust_id, extension)\<close>.\<close>
definition match_tail :: "string \<Rightarrow> (string \<times> string) option" where
  "match_tail t =
     (let illust_id = takeWhile is_digit t in
      if illust_id = [] then None
      else (case dropWhile is_digit t of
              c1 # c2 # r \<Rightarrow>
                (if c1 \<noteq> CHR ''_'' \<or> c2 \<noteq> CHR ''p'' \<or> takeWhile is_digit r = [] then None
                 else (case dropWhile is_digit r of
                         c3 # e \<Rightarrow>
                           (let ext = takeWhile (\<lambda>c. c \<noteq> newline) e in
                            if c3 \<noteq> CHR ''.'' \<or> ext = [] then None
                            else Some (illust_id, CHR ''.'' # ext))
                       | [] \<Rightarrow> None))
            | _ \<Rightarrow> None))"

text \<open>\<open>.*/\<close> followed by the tail: \<open>.*\<close> is greedy, so the split at a later slash is tried
  before the split at this character; the result is \<open>(group 1 after the scheme, illust_id,
  extension)\<close>.\<close>
fun greedy_slash :: "string \<Rightarrow> (string \<times> string \<times> string) option" where
  "greedy_slash [] = None"
| "greedy_slash (c # cs) =
     (if c = newline then None
      else (case greedy_slash cs of
              Some (pre, illust_id, ext) \<Rightarrow> Some (c # pre, illust_id, ext)
            | None \<Rightarrow>
                (if c = CHR ''/'' then
                   (case match_tail cs of
                      Some (illust_id, ext) \<Rightarrow> Some ([c], illust_id, ext)
                    | None \<Rightarrow> None)
                 else None)))"

text \<open>\<open>https?://\<close>: \<open>s?\<close> first takes the \<open>s\<close>; giving it back cannot help, since
  \<open>://\<close> would then have to start at that \<open>s\<close>.\<close>
definition match_scheme :: "string \<Rightarrow> (string \<times> string) option" where
  "match_scheme u =
     (if take 8 u = ''https://'' then Some (''https://'', drop 8 u)
      else if take 7 u = ''http://'' then Some (''http://'', drop 7 u)
      else None)"

text \<open>\<open>match.groups()\<close>: \<open>(base_url, illust_id, extension)\<close>, or \<open>None\<close> for no match.\<close>
definition match_gallery_url :: "string \<Rightarrow> (string \<times> string \<times> string) option" where
  "match_gallery_url u =
     (case match_scheme u of
        None \<Rightarrow> None
      | Some (scheme, rest) \<Rightarrow>
          (case greedy_slash rest of
             None \<Rightarrow> None
           | Some (pre, illust_id, ext) \<Rightarrow> Some (scheme @ pre, illust_id, ext)))"

text \<open>\<open>f"{illust_id}_p{page_num}{extension}"\<close> (line 42).\<close>
definition gallery_filename :: "string \<Rightarrow> nat \<Rightarrow> string \<Rightarrow> string" where
  "gallery_filename illust_id page_num extension =
     illust_id @ ''_p'' @ py_str_nat page_num @ extension"

section \<open>Lemmas\<close>

lemma is_digit_special [simp]:
  "\<not> is_digit CHR ''_''" "\<not> is_digit CHR ''.''" "\<not> is_digit CHR ''/''" "\<not> is_digit CHR ''p''"
  "\<not> is_digit newline"
  by (simp_all add: is_digit_def newline_def)

lemma newline_special [simp]:
  "CHR ''/'' \<noteq> newline" "CHR ''_'' \<noteq> newline" "CHR ''.'' \<noteq> newline" "CHR ''p'' \<noteq> newline"
  by (simp_all add: newline_def)

lemma is_digit_not_newline: "is_digit c \<Longrightarrow> c \<noteq> newline"
  by (auto simp: is_digit_def newline_def)

lemma is_digit_not_slash: "is_digit c \<Longrightarrow> c \<noteq> CHR ''/''"
  by (auto simp: is_digit_def)

lemma match_tail_filename:
  assumes "illust_id \<noteq> []" "\<forall>c \<in> set illust_id. is_digit c"
    and "e \<noteq> []" "newline \<notin> set e"
  shows "match_tail (gallery_filename illust_id n (CHR ''.'' # e)) = Some (illust_id, CHR ''.'' # e)"
proof -
  have pg: "\<forall>c \<in> set (py_str_nat n). is_digit c"
    using py_str_nat_digits by blast
  have t: "takeWhile (\<lambda>c. c \<noteq> newline) e = e"
    using assms(4) by (simp add: takeWhile_eq_all_conv) blast
  show ?thesis
    using assms pg by (simp add: match_tail_def gallery_filename_def takeWhile_append2 dropWhile_append2
        takeWhile_append dropWhile_append Let_def t)
qed

lemma greedy_slash_no_slash: "CHR ''/'' \<notin> set t \<Longrightarrow> greedy_slash t = None"
  by (induction t) auto

lemma greedy_slash_last:
  assumes "newline \<notin> set m" "CHR ''/'' \<notin> set t" "match_tail t = Some (illust_id, ext)"
  shows "greedy_slash (m @ CHR ''/'' # t) = Some (m @ ''/'', illust_id, ext)"
  using assms(1)
proof (induction m)
  case Nil
  then show ?case using assms(2,3) by (simp add: greedy_slash_no_slash)
next
  case (Cons c m)
  then show ?case by (auto simp: eq_commute [of newline])
qed

lemma gallery_filename_no_slash:
  assumes "\<forall>c \<in> set illust_id. is_digit c" "CHR ''/'' \<notin> set ext"
  shows "CHR ''/'' \<notin> set (gallery_filename illust_id n ext)"
  using assms py_str_nat_digits [of _ n] is_digit_not_slash
  by (auto simp: gallery_filename_def)

text \<open>The URL of a page of a gallery, printed as the download loop prints it, parses back.\<close>
lemma match_gallery_url_print:
  assumes "scheme = ''http://'' \<or> scheme = ''https://''" "newline \<notin> set m"
    and "illust_id \<noteq> []" "\<forall>c \<in> set illust_id. is_digit c"
    and "e \<noteq> []" "newline \<notin> set e" "CHR ''/'' \<notin> set e"
  shows "match_gallery_url (scheme @ m @ ''/'' @ gallery_filename illust_id n (CHR ''.'' # e)) =
           Some (scheme @ m @ ''/'', illust_id, CHR ''.'' # e)"
proof -
  have t: "match_tail (gallery_filename illust_id n (CHR ''.'' # e)) = Some (illust_id, CHR ''.'' # e)"
    using assms(3-6) by (rule match_tail_filename)
  have "CHR ''/'' \<notin> set (gallery_filename illust_id n (CHR ''.'' # e))"
    using assms(4,7) by (simp add: gallery_filename_no_slash)
  then have "greedy_slash (m @ CHR ''/'' # gallery_filename illust_id n (CHR ''.'' # e)) =
               Some (m @ ''/'', illust_id, CHR ''.'' # e)"
    using greedy_slash_last [OF assms(2) _ t] by blast
  then show ?thesis
    using assms(1) by (auto simp: match_gallery_url_def match_scheme_def)
qed

text \<open>C11. Print then parse: the URL of any page of a gallery, built as the download loop
  builds it from a base URL without newline, a decimal artwork identifier and an
  extension \<open>.e\<close> without slash or newline, is accepted by the pattern and gives back
  the base URL, the identifier and the extension.\<close>
theorem match_gallery_url_filename:
  assumes "scheme = ''http://'' \<or> scheme = ''https://''" "newline \<notin> set m"
    and "illust_id \<noteq> []" "\<forall>c \<in> set illust_id. is_digit c"
    and "e \<noteq> []" "newline \<notin> set e" "CHR ''/'' \<notin> set e"
  shows "match_gallery_url (scheme @ m @ ''/'' @ gallery_filename illust_id n (CHR ''.'' # e)) =
           Some (scheme @ m @ ''/'', illust_id, CHR ''.'' # e)"
  using assms by (rule match_gallery_url_print)

text \<open>Parse then print, in part: a URL the pattern accepts contains \<open>_p\<close>.\<close>
lemma match_tail_sublist: "match_tail t = Some x \<Longrightarrow> sublist ''_p'' t"
proof -
  assume m: "match_tail t = Some x"
  then obtain r where "dropWhile is_digit t = CHR ''_'' # CHR ''p'' # r"
    unfolding match_tail_def Let_def by (auto split: if_splits list.splits)
  then have "t = takeWhile is_digit t @ ''_p'' @ r"
    by (metis append_Cons append_Nil takeWhile_dropWhile_id)
  then show ?thesis by (metis sublist_appendI)
qed

lemma greedy_slash_sublist: "greedy_slash t = Some x \<Longrightarrow> sublist ''_p'' t"
proof (induction t arbitrary: x)
  case Nil
  then show ?case by simp
next
  case (Cons c cs)
  then show ?case
    by (auto simp: sublist_Cons_right split: if_splits option.splits dest!: match_tail_sublist)
qed

lemma match_gallery_url_sublist: "match_gallery_url u = Some x \<Longrightarrow> sublist ''_p'' u"
proof -
  assume m: "match_gallery_url u = Some x"
  then obtain scheme rest y where s: "match_scheme u = Some (scheme, rest)" and g: "greedy_slash rest = Some y"
    by (auto simp: match_gallery_url_def split: option.splits)
  from s have "suffix rest u"
    by (auto simp: match_scheme_def split: if_splits intro: suffix_drop)
  with greedy_slash_sublist [OF g] show ?thesis
    by (meson sublist_order.dual_order.trans suffix_imp_sublist)
qed

theorem match_gallery_url_filename_witness:
  "match_gallery_url (''https://'' @ ''i.pximg.net/img'' @ ''/'' @ gallery_filename ''123'' 4 (CHR ''.'' # ''png'')) =
     Some (''https://'' @ ''i.pximg.net/img'' @ ''/'', ''123'', CHR ''.'' # ''png'')"
proof (rule match_gallery_url_filename)
  show "newline \<notin> set ''i.pximg.net/img''" "\<forall>c \<in> set ''123''. is_digit c"
    "newline \<notin> set ''png''" "CHR ''/'' \<notin> set ''png''"
    by (simp_all add: newline_def is_digit_def)
qed simp_all

end
