(* ===== verification/Gallery.thy ===== *)
theory Gallery
  imports GalleryUrl
begin

text \<open>
  GallerySequentialDownloader: \<open>download_pixiv_gallery\<close>, \<open>src/resource_downloader.py\<close>
  lines 6--79. The \<open>while True\<close> loop has no bound, so it is a
  \<open>partial_function (option)\<close>: \<open>None\<close> is a run that never leaves the loop.
\<close>

section \<open>Definitions\<close>

definition gallery_headers :: headers where
  "gallery_headers =
     [(''Referer'', ''https://www.pixiv.net/''),
      (''User-Agent'', ''Mozilla/5.0 (Windows NT 10.0; Win64; x64) AppleWebKit/537.36 (KHTML, like Gecko) Chrome/108.0.0.0 Safari/537.36'')]"

definition gallery_request :: "url \<Rightarrow> request" where
  "gallery_request u =
     \<lparr>req_url = u, req_headers = gallery_headers, req_timeout = 20, req_stream = True\<rparr>"

text \<open>\<open>os.path.join(a, b)\<close> on POSIX.\<close>
definition os_path_join :: "path \<Rightarrow> string \<Rightarrow> path" where
  "os_path_join a b =
     (if b \<noteq> [] \<and> hd b = CHR ''/'' then b
      else if a = [] \<or> last a = CHR ''/'' then a @ b
      else a @ CHR ''/'' # b)"

text \<open>Why the loop stopped: the three \<open>break\<close>s, and the \<open>OSError\<close> of \<open>open\<close>, which the
  \<open>except requests.exceptions.RequestException\<close> clause does not catch.\<close>
datatype loop_exit = SeriesEnd | StatusFail nat | NetworkFail | OpenFailed

text \<open>How \<open>download_pixiv_gallery\<close> ends: the early return on a URL the pattern rejects, the
  \<open>FileExistsError\<close> of \<open>os.makedirs\<close>, or the loop's exit.\<close>
datatype gallery_outcome = Malformed | MakedirsFailed | Exited loop_exit

partial_function (option) download_loop ::
  "server \<Rightarrow> string \<Rightarrow> string \<Rightarrow> string \<Rightarrow> path \<Rightarrow> nat \<Rightarrow> world \<Rightarrow> (loop_exit \<times> world) option"
where
  "download_loop srv base_url illust_id extension download_dir page_num w =
     (let filename = gallery_filename illust_id page_num extension;
          current_url = base_url @ filename;
          local_filepath = os_path_join download_dir filename
      in case http_get srv (gallery_request current_url) w of
           (Resp status body, w1) \<Rightarrow>
             if status = 200 then
               (case write_file local_filepath body w1 of
                  None \<Rightarrow> Some (OpenFailed, w1)
                | Some w2 \<Rightarrow>
                    download_loop srv base_url illust_id extension download_dir (Suc page_num)
                      (sleep_ms 500 w2))
             else if status = 404 then Some (SeriesEnd, w1)
             else Some (StatusFail status, w1)
         | (Broken status part, w1) \<Rightarrow>
             if status = 200 then
               (case write_file local_filepath part w1 of
                  None \<Rightarrow> Some (OpenFailed, w1)
                | Some w2 \<Rightarrow> Some (NetworkFail, w2))
             else if status = 404 then Some (SeriesEnd, w1)
             else Some (StatusFail status, w1)
         | (NetError, w1) \<Rightarrow> Some (NetworkFail, w1))"

definition download_pixiv_gallery ::
  "server \<Rightarrow> url \<Rightarrow> path \<Rightarrow> world \<Rightarrow> (gallery_outcome \<times> world) option" where
  "download_pixiv_gallery srv start_url download_dir w =
     (case match_gallery_url start_url of
        None \<Rightarrow> Some (Malformed, w)
      | Some (base_url, illust_id, extension) \<Rightarrow>
          (case makedirs download_dir w of
             None \<Rightarrow> Some (MakedirsFailed, w)
           | Some w1 \<Rightarrow>
               map_option (\<lambda>(x, w2). (Exited x, w2))
                 (download_loop srv base_url illust_id extension download_dir 0 w1)))"

declare download_loop.simps [code]

text \<open>The request and the local path of page \<open>n\<close> of a gallery.\<close>
abbreviation page_req :: "string \<Rightarrow> string \<Rightarrow> string \<Rightarrow> nat \<Rightarrow> request" where
  "page_req base iid ext n \<equiv> gallery_request (base @ gallery_filename iid n ext)"

abbreviation page_path :: "path \<Rightarrow> string \<Rightarrow> string \<Rightarrow> nat \<Rightarrow> path" where
  "page_path d iid ext n \<equiv> os_path_join d (gallery_filename iid n ext)"

text \<open>The world after a run of pages that all answered 200 and were all saved.\<close>
fun pages_world ::
  "(nat \<Rightarrow> request) \<Rightarrow> (nat \<Rightarrow> path) \<Rightarrow> (nat \<Rightarrow> string) \<Rightarrow> nat list \<Rightarrow> world \<Rightarrow> world" where
  "pages_world rq fp bd [] w = w"
| "pages_world rq fp bd (i # ps) w =
     pages_world rq fp bd ps
       (w\<lparr>files := (files w)(fp i \<mapsto> bd i),
          trace := trace w @ [Get (rq i), WriteFile (fp i) (bd i), Sleep 500]\<rparr>)"

text \<open>A page the loop saves and moves past: status 200, complete body, path writable.\<close>
definition page_saved :: "server \<Rightarrow> world \<Rightarrow> string \<Rightarrow> string \<Rightarrow> string \<Rightarrow> path \<Rightarrow> nat \<Rightarrow> bool" where
  "page_saved srv w base iid ext d n \<longleftrightarrow>
     (\<exists>b. srv (page_req base iid ext n) = Resp 200 b) \<and> writable w (page_path d iid ext n)"

section \<open>Lemmas\<close>

lemma download_loop_unfold:
  "download_loop srv base iid ext d n w =
     (let w1 = w\<lparr>trace := trace w @ [Get (page_req base iid ext n)]\<rparr>;
          p = page_path d iid ext n
      in case srv (page_req base iid ext n) of
           Resp status body \<Rightarrow>
             if status = 200 then
               (if writable w p then
                  download_loop srv base iid ext d (Suc n)
                    (w1\<lparr>files := (files w)(p \<mapsto> body), trace := trace w1 @ [WriteFile p body, Sleep 500]\<rparr>)
                else Some (OpenFailed, w1))
             else if status = 404 then Some (SeriesEnd, w1)
             else Some (StatusFail status, w1)
         | Broken status part \<Rightarrow>
             if status = 200 then
               (if writable w p then
                  Some (NetworkFail, w1\<lparr>files := (files w)(p \<mapsto> part), trace := trace w1 @ [WriteFile p part]\<rparr>)
                else Some (OpenFailed, w1))
             else if status = 404 then Some (SeriesEnd, w1)
             else Some (StatusFail status, w1)
         | NetError \<Rightarrow> Some (NetworkFail, w1))"
  by (subst download_loop.simps)
    (simp add: Let_def world_simps split: http_result.splits)

lemma pages_world_trace:
  "trace (pages_world rq fp bd ps w) =
     trace w @ concat (map (\<lambda>i. [Get (rq i), WriteFile (fp i) (bd i), Sleep 500]) ps)"
  by (induction ps arbitrary: w) auto

lemma pages_world_writable [simp]: "writable (pages_world rq fp bd ps w) = writable w"
  by (induction ps arbitrary: w) auto

lemma pages_world_dirs [simp]: "dirs (pages_world rq fp bd ps w) = dirs w"
  by (induction ps arbitrary: w) auto

lemma pages_world_files_other:
  "p \<notin> fp ` set ps \<Longrightarrow> files (pages_world rq fp bd ps w) p = files w p"
  by (induction ps arbitrary: w) auto

lemma pages_world_files_saved:
  "inj_on fp (set ps) \<Longrightarrow> i \<in> set ps \<Longrightarrow> files (pages_world rq fp bd ps w) (fp i) = Some (bd i)"
proof (induction ps arbitrary: w)
  case Nil
  then show ?case by simp
next
  case (Cons j ps)
  show ?case
  proof (cases "i \<in> set ps")
    case True
    with Cons show ?thesis by simp
  next
    case False
    with Cons.prems have "i = j" and "fp j \<notin> fp ` set ps"
      by (auto simp: inj_on_def)
    then show ?thesis by (simp add: pages_world_files_other)
  qed
qed

lemma download_loop_saved_pages:
  assumes "\<forall>i<k. srv (page_req base iid ext (n + i)) = Resp 200 (bd (n + i)) \<and>
                  writable w (page_path d iid ext (n + i))"
  shows "download_loop srv base iid ext d n w =
           download_loop srv base iid ext d (n + k)
             (pages_world (page_req base iid ext) (page_path d iid ext) bd [n..<n + k] w)"
  using assms
proof (induction k arbitrary: n w)
  case 0
  then show ?case by simp
next
  case (Suc k)
  have ok: "srv (page_req base iid ext n) = Resp 200 (bd n)" "writable w (page_path d iid ext n)"
    using Suc.prems [rule_format, of 0] by simp_all
  let ?w = "w\<lparr>files := (files w)(page_path d iid ext n \<mapsto> bd n),
               trace := trace w @ [Get (page_req base iid ext n), WriteFile (page_path d iid ext n) (bd n), Sleep 500]\<rparr>"
  have "download_loop srv base iid ext d n w = download_loop srv base iid ext d (Suc n) ?w"
    using ok by (subst download_loop_unfold) (simp add: Let_def)
  also have "\<dots> = download_loop srv base iid ext d (Suc n + k)
                     (pages_world (page_req base iid ext) (page_path d iid ext) bd [Suc n..<Suc n + k] ?w)"
    using Suc.prems by (intro Suc.IH) (auto simp del: upt_Suc)
  also have "[n..<n + Suc k] = n # [Suc n..<Suc n + k]"
    by (simp add: upt_rec)
  ultimately show ?case by simp
qed

lemma os_path_join_inj:
  assumes "os_path_join d a = os_path_join d b" "(a \<noteq> [] \<and> hd a = CHR ''/'') = (b \<noteq> [] \<and> hd b = CHR ''/'')"
  shows "a = b"
  using assms by (auto simp: os_path_join_def split: if_splits)

lemma gallery_filename_inj:
  "gallery_filename iid m ext = gallery_filename iid n ext \<Longrightarrow> m = n"
  by (simp add: gallery_filename_def py_str_nat_inj)

lemma page_path_inj: "inj_on (page_path d iid ext) A"
proof (rule inj_onI)
  fix m n
  assume "page_path d iid ext m = page_path d iid ext n"
  moreover have "(gallery_filename iid m ext \<noteq> [] \<and> hd (gallery_filename iid m ext) = CHR ''/'') =
                 (gallery_filename iid n ext \<noteq> [] \<and> hd (gallery_filename iid n ext) = CHR ''/'')"
    by (cases iid) (simp_all add: gallery_filename_def)
  ultimately show "m = n"
    by (blast dest: os_path_join_inj gallery_filename_inj)
qed

text \<open>If the loop returns at all, some page at or after the first one was not saved: the
  partial-correctness half of termination, by fixpoint induction.\<close>
lemma download_loop_returns_stop:
  assumes "download_loop srv base iid ext d n w = Some r"
  shows "\<exists>k \<ge> n. \<not> page_saved srv w base iid ext d k"
proof (rule download_loop.raw_induct
    [where P = "\<lambda>srv base iid ext d n w r. \<exists>k \<ge> n. \<not> page_saved srv w base iid ext d k", OF _ assms])
  fix f :: "server \<Rightarrow> string \<Rightarrow> string \<Rightarrow> string \<Rightarrow> path \<Rightarrow> nat \<Rightarrow> world \<Rightarrow> (loop_exit \<times> world) option"
  fix srv base iid ext d n w r
  assume IH: "\<And>srv base iid ext d n w r. f srv base iid ext d n w = Some r \<Longrightarrow>
                 \<exists>k \<ge> n. \<not> page_saved srv w base iid ext d k"
  assume step: "(let filename = gallery_filename iid n ext;
          current_url = base @ filename;
          local_filepath = os_path_join d filename
      in case http_get srv (gallery_request current_url) w of
           (Resp status body, w1) \<Rightarrow>
             if status = 200 then
               (case write_file local_filepath body w1 of
                  None \<Rightarrow> Some (OpenFailed, w1)
                | Some w2 \<Rightarrow> f srv base iid ext d (Suc n) (sleep_ms 500 w2))
             else if status = 404 then Some (SeriesEnd, w1)
             else Some (StatusFail status, w1)
         | (Broken status part, w1) \<Rightarrow>
             if status = 200 then
               (case write_file local_filepath part w1 of
                  None \<Rightarrow> Some (OpenFailed, w1)
                | Some w2 \<Rightarrow> Some (NetworkFail, w2))
             else if status = 404 then Some (SeriesEnd, w1)
             else Some (StatusFail status, w1)
         | (NetError, w1) \<Rightarrow> Some (NetworkFail, w1)) = Some r"
  show "\<exists>k \<ge> n. \<not> page_saved srv w base iid ext d k"
  proof (cases "page_saved srv w base iid ext d n")
    case False
    then show ?thesis by blast
  next
    case True
    then obtain b where b: "srv (page_req base iid ext n) = Resp 200 b"
      and wr: "writable w (page_path d iid ext n)"
      by (auto simp: page_saved_def)
    let ?w2 = "sleep_ms 500 (w\<lparr>files := (files w)(page_path d iid ext n \<mapsto> b),
                  trace := trace w @ [Get (page_req base iid ext n), WriteFile (page_path d iid ext n) b]\<rparr>)"
    from step b wr have "f srv base iid ext d (Suc n) ?w2 = Some r"
      by (simp add: Let_def world_simps)
    then obtain k where "k \<ge> Suc n" "\<not> page_saved srv ?w2 base iid ext d k"
      using IH by blast
    then show ?thesis
      by (intro exI [of _ k]) (simp add: page_saved_def world_simps)
  qed
qed

lemma download_loop_stops_here:
  "\<not> page_saved srv w base iid ext d n \<Longrightarrow> \<exists>r. download_loop srv base iid ext d n w = Some r"
  by (subst download_loop_unfold)
    (auto simp: page_saved_def Let_def split: http_result.splits)

text \<open>The body a page answered with (the part received, for a broken transfer).\<close>
definition resp_body :: "http_result \<Rightarrow> string" where
  "resp_body r = (case r of Resp _ b \<Rightarrow> b | Broken _ b \<Rightarrow> b | NetError \<Rightarrow> [])"

lemma first_unsaved:
  assumes "\<exists>k \<ge> n. \<not> page_saved srv w base iid ext d k"
  obtains m where "\<not> page_saved srv w base iid ext d (n + m)"
    and "\<forall>i<m. page_saved srv w base iid ext d (n + i)"
proof -
  from assms obtain k where k: "n \<le> k \<and> \<not> page_saved srv w base iid ext d k \<and>
      (\<forall>j<k. \<not> (n \<le> j \<and> \<not> page_saved srv w base iid ext d j))"
    using exists_least_iff [of "\<lambda>k. n \<le> k \<and> \<not> page_saved srv w base iid ext d k"] by blast
  show thesis
  proof (rule that [of "k - n"])
    show "\<not> page_saved srv w base iid ext d (n + (k - n))" using k by simp
    show "\<forall>i<k - n. page_saved srv w base iid ext d (n + i)" using k by auto
  qed
qed

lemma saved_pages_bodies:
  "\<forall>i<m. page_saved srv w base iid ext d (n + i) \<Longrightarrow>
   \<forall>i<m. srv (page_req base iid ext (n + i)) = Resp 200 (resp_body (srv (page_req base iid ext (n + i)))) \<and>
          writable w (page_path d iid ext (n + i))"
  by (auto simp: page_saved_def resp_body_def)

text \<open>The \<open>break\<close> a page that did not answer 200 leads to.\<close>
definition exit_of :: "http_result \<Rightarrow> loop_exit" where
  "exit_of r =
     (case r of
        Resp s _ \<Rightarrow> if s = 404 then SeriesEnd else StatusFail s
      | Broken s _ \<Rightarrow> if s = 404 then SeriesEnd else StatusFail s
      | NetError \<Rightarrow> NetworkFail)"

lemma download_loop_stop_not200:
  assumes "\<forall>b. srv (page_req base iid ext n) \<noteq> Resp 200 b"
    and "\<forall>b. srv (page_req base iid ext n) \<noteq> Broken 200 b"
  shows "download_loop srv base iid ext d n w =
           Some (exit_of (srv (page_req base iid ext n)),
                 w\<lparr>trace := trace w @ [Get (page_req base iid ext n)]\<rparr>)"
  using assms by (subst download_loop_unfold)
    (auto simp: Let_def exit_of_def split: http_result.splits)

lemma download_gallery_run:
  assumes "match_gallery_url u = Some (base, iid, ext)" "\<not> makedirs_blocked w d"
    and "\<forall>i<k. srv (page_req base iid ext i) = Resp 200 (bd i) \<and> writable w (page_path d iid ext i)"
    and "\<forall>b. srv (page_req base iid ext k) \<noteq> Resp 200 b"
    and "\<forall>b. srv (page_req base iid ext k) \<noteq> Broken 200 b"
  shows "download_pixiv_gallery srv u d w =
           Some (Exited (exit_of (srv (page_req base iid ext k))),
             let W = pages_world (page_req base iid ext) (page_path d iid ext) bd [0..<k]
                       (w\<lparr>dirs := dirs w \<union> set (dir_prefixes d), trace := trace w @ [MakeDir d]\<rparr>)
             in W\<lparr>trace := trace W @ [Get (page_req base iid ext k)]\<rparr>)"
proof -
  let ?w1 = "w\<lparr>dirs := dirs w \<union> set (dir_prefixes d), trace := trace w @ [MakeDir d]\<rparr>"
  have "download_loop srv base iid ext d 0 ?w1 =
          download_loop srv base iid ext d k
            (pages_world (page_req base iid ext) (page_path d iid ext) bd [0..<k] ?w1)"
    using download_loop_saved_pages [where n = 0 and w = ?w1 and k = k and bd = bd] assms(3) by simp
  then show ?thesis
    using assms(1,2,4,5)
    by (simp add: download_pixiv_gallery_def makedirs_def download_loop_stop_not200 Let_def)
qed

text \<open>The shape of every run of the loop that returns: the pages from \<open>n\<close> on that are
  saved, then the request of the first page that is not, followed by the partial write of
  a broken transfer or by nothing.\<close>
lemma download_loop_trace:
  assumes "download_loop srv base iid ext d n w = Some (x, w')"
  shows "\<exists>m tl. trace w' = trace w @
           concat (map (\<lambda>i. [Get (page_req base iid ext i),
                             WriteFile (page_path d iid ext i) (resp_body (srv (page_req base iid ext i))),
                             Sleep 500]) [n..<n + m]) @
           Get (page_req base iid ext (n + m)) # tl \<and>
         (tl = [] \<or> tl = [WriteFile (page_path d iid ext (n + m)) (resp_body (srv (page_req base iid ext (n + m))))])"
proof -
  obtain m where stop: "\<not> page_saved srv w base iid ext d (n + m)"
    and saved: "\<forall>i<m. page_saved srv w base iid ext d (n + i)"
    using download_loop_returns_stop [OF assms] by (rule first_unsaved)
  let ?bd = "\<lambda>i. resp_body (srv (page_req base iid ext i))"
  let ?W = "pages_world (page_req base iid ext) (page_path d iid ext) ?bd [n..<n + m] w"
  have "download_loop srv base iid ext d (n + m) ?W = Some (x, w')"
    using download_loop_saved_pages [OF saved_pages_bodies [OF saved]] assms by simp
  moreover have "\<not> page_saved srv ?W base iid ext d (n + m)"
    using stop by (simp add: page_saved_def)
  ultimately obtain tl where "trace w' = trace ?W @ Get (page_req base iid ext (n + m)) # tl"
    and "tl = [] \<or> tl = [WriteFile (page_path d iid ext (n + m)) (?bd (n + m))]"
    by (subst (asm) download_loop_unfold)
      (auto simp: Let_def page_saved_def resp_body_def split: http_result.splits if_splits)
  then show ?thesis
    by (intro exI [of _ m] exI [of _ tl]) (simp add: pages_world_trace)
qed

text \<open>The loop returns exactly when some page from the first one on is not saved.\<close>
lemma download_loop_returns_iff:
  "download_loop srv base iid ext d n w \<noteq> None \<longleftrightarrow> (\<exists>k \<ge> n. \<not> page_saved srv w base iid ext d k)"
proof
  assume "download_loop srv base iid ext d n w \<noteq> None"
  then show "\<exists>k \<ge> n. \<not> page_saved srv w base iid ext d k"
    using download_loop_returns_stop by blast
next
  assume "\<exists>k \<ge> n. \<not> page_saved srv w base iid ext d k"
  then obtain m where stop: "\<not> page_saved srv w base iid ext d (n + m)"
    and saved: "\<forall>i<m. page_saved srv w base iid ext d (n + i)"
    by (rule first_unsaved)
  let ?bd = "\<lambda>i. resp_body (srv (page_req base iid ext i))"
  let ?W = "pages_world (page_req base iid ext) (page_path d iid ext) ?bd [n..<n + m] w"
  have "download_loop srv base iid ext d n w = download_loop srv base iid ext d (n + m) ?W"
    using saved_pages_bodies [OF saved] by (rule download_loop_saved_pages)
  moreover have "\<not> page_saved srv ?W base iid ext d (n + m)"
    using stop by (simp add: page_saved_def)
  ultimately show "download_loop srv base iid ext d n w \<noteq> None"
    using download_loop_stops_here by fastforce
qed

text \<open>Whether a page is saved depends on the world only through the \<open>open()\<close> permission.\<close>
lemma page_saved_writable:
  "writable w' = writable w \<Longrightarrow> page_saved srv w' base iid ext d k = page_saved srv w base iid ext d k"
  by (simp add: page_saved_def)

text \<open>The downloader returns unless the URL parses, the directory can be made and every page
  is saved.\<close>
lemma download_pixiv_gallery_returns_iff:
  "download_pixiv_gallery srv u d w \<noteq> None \<longleftrightarrow>
     (case match_gallery_url u of
        None \<Rightarrow> True
      | Some (bu, iid, ext) \<Rightarrow> makedirs_blocked w d \<or> (\<exists>k. \<not> page_saved srv w bu iid ext d k))"
proof (cases "match_gallery_url u")
  case (Some m)
  obtain bu iid ext where m: "m = (bu, iid, ext)" by (cases m)
  show ?thesis
  proof (cases "\<not> makedirs_blocked w d")
    case True
    let ?w1 = "w\<lparr>dirs := dirs w \<union> set (dir_prefixes d), trace := trace w @ [MakeDir d]\<rparr>"
    have "download_pixiv_gallery srv u d w \<noteq> None \<longleftrightarrow> download_loop srv bu iid ext d 0 ?w1 \<noteq> None"
      using Some m True by (simp add: download_pixiv_gallery_def makedirs_def)
    also have "\<dots> \<longleftrightarrow> (\<exists>k. \<not> page_saved srv w bu iid ext d k)"
      unfolding download_loop_returns_iff using page_saved_writable [of ?w1 w srv bu iid ext d] by simp
    finally show ?thesis using Some m True by simp
  qed (use Some m in \<open>simp add: download_pixiv_gallery_def makedirs_def\<close>)
qed (simp add: download_pixiv_gallery_def)

section \<open>Properties of the gallery downloader\<close>

text \<open>C7. The download loop returns exactly when some page, from the first one on, is not
  saved (it does not answer 200 with a complete body, or its file cannot be opened);
  when every page is saved it never returns.\<close>
theorem download_loop_terminates:
  "download_loop srv base iid ext d n w \<noteq> None \<longleftrightarrow> (\<exists>k \<ge> n. \<not> page_saved srv w base iid ext d k)"
  by (rule download_loop_returns_iff)

text \<open>C8. A gallery whose pages \<open>0 .. k-1\<close> answer 200 and whose page \<open>k\<close> answers
  anything else: the downloader creates the directory, then for each page requests it,
  writes its body to \<open>download_dir/<id>_p<i><ext>\<close> and sleeps 500 ms, requests page
  \<open>k\<close> and stops with the exit that answer calls for (404: end of series; another
  status: failure; no response: network failure). Exactly the \<open>k\<close> pages are written,
  every other file is left as it was.\<close>
theorem download_gallery_pages:
  assumes "match_gallery_url u = Some (base, iid, ext)" "\<not> makedirs_blocked w d"
    and "\<forall>i<k. srv (page_req base iid ext i) = Resp 200 (bd i) \<and> writable w (page_path d iid ext i)"
    and "\<forall>b. srv (page_req base iid ext k) \<noteq> Resp 200 b"
    and "\<forall>b. srv (page_req base iid ext k) \<noteq> Broken 200 b"
  shows "\<exists>w'. download_pixiv_gallery srv u d w = Some (Exited (exit_of (srv (page_req base iid ext k))), w') \<and>
           trace w' = trace w @ MakeDir d #
             concat (map (\<lambda>i. [Get (page_req base iid ext i), WriteFile (page_path d iid ext i) (bd i), Sleep 500]) [0..<k]) @
             [Get (page_req base iid ext k)] \<and>
           (\<forall>i<k. files w' (page_path d iid ext i) = Some (bd i)) \<and>
           (\<forall>p. p \<notin> page_path d iid ext ` {..<k} \<longrightarrow> files w' p = files w p)"
proof -
  let ?W = "pages_world (page_req base iid ext) (page_path d iid ext) bd [0..<k]
              (w\<lparr>dirs := dirs w \<union> set (dir_prefixes d), trace := trace w @ [MakeDir d]\<rparr>)"
  have saved: "files ?W (page_path d iid ext i) = Some (bd i)" if "i < k" for i
    using pages_world_files_saved [OF page_path_inj] that by simp
  have other: "files ?W p = files w p" if "p \<notin> page_path d iid ext ` {..<k}" for p
    using pages_world_files_other [of p] that by (simp add: atLeast0LessThan)
  show ?thesis
    using download_gallery_run [OF assms] saved other by (simp add: Let_def pages_world_trace)
qed

text \<open>C9. A transfer that breaks after a 200 status leaves the part received on disk: the
  file of that page is created with the partial body before the \<open>RequestException\<close>
  ends the loop.\<close>
theorem download_loop_broken_partial:
  assumes "srv (page_req base iid ext n) = Broken 200 part" "writable w (page_path d iid ext n)"
  shows "download_loop srv base iid ext d n w =
           Some (NetworkFail,
             w\<lparr>files := (files w)(page_path d iid ext n \<mapsto> part),
               trace := trace w @ [Get (page_req base iid ext n), WriteFile (page_path d iid ext n) part]\<rparr>)"
  using assms by (subst download_loop_unfold) (simp add: Let_def)

text \<open>C10. A start URL without \<open>_p\<close> is rejected before anything is done: no directory,
  no request, no file.\<close>
theorem download_malformed_untouched:
  assumes "\<not> py_contains ''_p'' u"
  shows "download_pixiv_gallery srv u d w = Some (Malformed, w)"
proof -
  have "match_gallery_url u = None"
    using assms match_gallery_url_sublist by (cases "match_gallery_url u") (auto simp: py_contains_sublist)
  then show ?thesis by (simp add: download_pixiv_gallery_def)
qed

text \<open>C16. Politeness and order of a download run: the loop requests consecutive pages
  \<open>n, n+1, ..., n+m\<close>, each once and in that order, and sleeps 500 ms exactly once per
  page it moves past, so between any two requests there is a pause.\<close>
theorem download_loop_requests_in_order:
  assumes "download_loop srv base iid ext d n w = Some (x, w')"
  shows "\<exists>m. requested (drop (length (trace w)) (trace w')) =
               map (\<lambda>i. base @ gallery_filename iid i ext) [n..<Suc (n + m)] \<and>
             length (filter (\<lambda>e. e = Sleep 500) (drop (length (trace w)) (trace w'))) = m"
proof -
  obtain m tl where tr: "trace w' = trace w @
           concat (map (\<lambda>i. [Get (page_req base iid ext i),
                             WriteFile (page_path d iid ext i) (resp_body (srv (page_req base iid ext i))),
                             Sleep 500]) [n..<n + m]) @
           Get (page_req base iid ext (n + m)) # tl"
    and tl: "tl = [] \<or> tl = [WriteFile (page_path d iid ext (n + m)) (resp_body (srv (page_req base iid ext (n + m))))]"
    using download_loop_trace [OF assms] by blast
  have "length (filter (\<lambda>e. e = Sleep 500)
          (concat (map (\<lambda>i. [Get (page_req base iid ext i),
                             WriteFile (page_path d iid ext i) (resp_body (srv (page_req base iid ext i))),
                             Sleep 500]) [n..<n + m]))) = m"
    by (induction m) simp_all
  with tl show ?thesis
    by (intro exI [of _ m]) (auto simp: tr gallery_request_def comp_def)
qed

text \<open>C31. \<open>os.makedirs\<close> walks the ancestors of the download directory: when the
  directory or any ancestor of it is an existing file, the downloader of a well-formed URL
  stops with the \<open>OSError\<close> of \<open>makedirs\<close> before any request, directory or file.\<close>
theorem download_blocked_directory:
  assumes "match_gallery_url u = Some (base, iid, ext)"
    and "p \<in> set (dir_prefixes d)" "files w p \<noteq> None"
  shows "download_pixiv_gallery srv u d w = Some (MakedirsFailed, w)"
proof -
  have "makedirs_blocked w d" using assms(2,3) by (auto simp: makedirs_blocked_def list_ex_iff)
  then show ?thesis using assms(1) by (simp add: download_pixiv_gallery_def makedirs_def)
qed

section \<open>Witnesses\<close>

text \<open>The spec's scenario: pages 0--2 answer 200, page 3 answers 404.\<close>
definition gallery_example_server :: server where
  "gallery_example_server =
     (\<lambda>r. if req_url r = ''https://h/d/7_p0.png'' then Resp 200 ''A''
          else if req_url r = ''https://h/d/7_p1.png'' then Resp 200 ''B''
          else if req_url r = ''https://h/d/7_p2.png'' then Resp 200 ''C''
          else Resp 404 [])"

definition gallery_example_body :: "nat \<Rightarrow> string" where
  "gallery_example_body i = (if i = 0 then ''A'' else if i = 1 then ''B'' else ''C'')"

lemma gallery_example_match:
  "match_gallery_url ''https://h/d/7_p0.png'' = Some (''https://h/d/'', ''7'', ''.png'')"
  by code_simp

lemma gallery_example_pages:
  "\<forall>i<3. gallery_example_server (page_req ''https://h/d/'' ''7'' ''.png'' i) = Resp 200 (gallery_example_body i) \<and>
          writable init_world (page_path ''download'' ''7'' ''.png'' i)"
proof -
  have "gallery_example_server (page_req ''https://h/d/'' ''7'' ''.png'' i) = Resp 200 (gallery_example_body i)"
    if "i \<in> {0, 1, 2}" for i
    using that by (auto; code_simp)
  then show ?thesis by (auto simp: init_world_def numeral_3_eq_3 less_Suc_eq)
qed

lemma gallery_example_stop:
  "gallery_example_server (page_req ''https://h/d/'' ''7'' ''.png'' 3) = Resp 404 []"
  by code_simp

theorem download_gallery_pages_witness:
  "\<exists>w'. download_pixiv_gallery gallery_example_server ''https://h/d/7_p0.png'' ''download'' init_world =
           Some (Exited SeriesEnd, w') \<and>
         files w' (page_path ''download'' ''7'' ''.png'' 0) = Some ''A'' \<and>
         files w' (page_path ''download'' ''7'' ''.png'' 2) = Some ''C'' \<and>
         files w' (page_path ''download'' ''7'' ''.png'' 3) = None"
proof -
  have d: "\<not> makedirs_blocked init_world ''download''" by (simp add: init_world_def)
  have s4: "\<forall>b. gallery_example_server (page_req ''https://h/d/'' ''7'' ''.png'' 3) \<noteq> Resp 200 b"
    and s5: "\<forall>b. gallery_example_server (page_req ''https://h/d/'' ''7'' ''.png'' 3) \<noteq> Broken 200 b"
    by (simp_all only: gallery_example_stop) simp_all
  from download_gallery_pages [OF gallery_example_match d gallery_example_pages s4 s5]
  obtain w' where
    r: "download_pixiv_gallery gallery_example_server ''https://h/d/7_p0.png'' ''download'' init_world =
          Some (Exited (exit_of (gallery_example_server (page_req ''https://h/d/'' ''7'' ''.png'' 3))), w')"
    and f: "\<forall>i<3. files w' (page_path ''download'' ''7'' ''.png'' i) = Some (gallery_example_body i)"
    and o: "\<forall>p. p \<notin> page_path ''download'' ''7'' ''.png'' ` {..<3} \<longrightarrow> files w' p = files init_world p"
    by blast
  have "page_path ''download'' ''7'' ''.png'' 3 \<notin> page_path ''download'' ''7'' ''.png'' ` {..<3}"
    using inj_on_image_mem_iff [OF page_path_inj, of 3 UNIV "{..<3}"] by simp
  moreover have "exit_of (gallery_example_server (page_req ''https://h/d/'' ''7'' ''.png'' 3)) = SeriesEnd"
    by (simp only: gallery_example_stop) (simp add: exit_of_def)
  ultimately show ?thesis
    using r f o by (auto simp: gallery_example_body_def init_world_def)
qed

theorem download_loop_requests_in_order_witness:
  "\<exists>x w'. download_loop gallery_example_server ''https://h/d/'' ''7'' ''.png'' ''download'' 0 init_world = Some (x, w') \<and>
     (\<exists>m. requested (drop (length (trace init_world)) (trace w')) =
            map (\<lambda>i. ''https://h/d/'' @ gallery_filename ''7'' i ''.png'') [0..<Suc (0 + m)] \<and>
          length (filter (\<lambda>e. e = Sleep 500) (drop (length (trace init_world)) (trace w'))) = m)"
proof -
  let ?loop = "download_loop gallery_example_server ''https://h/d/'' ''7'' ''.png'' ''download''"
  have s4: "\<forall>b. gallery_example_server (page_req ''https://h/d/'' ''7'' ''.png'' 3) \<noteq> Resp 200 b"
    and s5: "\<forall>b. gallery_example_server (page_req ''https://h/d/'' ''7'' ''.png'' 3) \<noteq> Broken 200 b"
    by (simp_all only: gallery_example_stop) simp_all
  have "?loop 0 init_world =
          ?loop 3 (pages_world (page_req ''https://h/d/'' ''7'' ''.png'') (page_path ''download'' ''7'' ''.png'')
                     gallery_example_body [0..<3] init_world)"
    using gallery_example_pages
    by (intro download_loop_saved_pages [where n = 0 and k = 3, simplified]) simp
  also have "\<dots> \<noteq> None"
    using download_loop_stop_not200 [where srv = gallery_example_server and base = "''https://h/d/''"
        and iid = "''7''" and ext = "''.png''" and n = 3, OF s4 s5] by simp
  finally obtain x w' where r: "?loop 0 init_world = Some (x, w')" by fastforce
  show ?thesis using r download_loop_requests_in_order [OF r] by blast
qed

theorem download_loop_broken_partial_witness:
  "download_loop (\<lambda>_. Broken 200 ''AB'') ''https://h/'' ''7'' ''.png'' ''dl'' 0 init_world =
     Some (NetworkFail,
       init_world\<lparr>files := [page_path ''dl'' ''7'' ''.png'' 0 \<mapsto> ''AB''],
         trace := [Get (page_req ''https://h/'' ''7'' ''.png'' 0), WriteFile (page_path ''dl'' ''7'' ''.png'' 0) ''AB'']\<rparr>)"
  using download_loop_broken_partial [where srv = "\<lambda>_. Broken 200 ''AB''" and base = "''https://h/''"
      and iid = "''7''" and ext = "''.png''" and n = 0 and part = "''AB''" and w = init_world and d = "''dl''"]
  by (simp add: init_world_def)

theorem download_malformed_untouched_witness:
  "\<not> py_contains ''_p'' ''https://h/7.png'' \<and>
   download_pixiv_gallery (\<lambda>_. NetError) ''https://h/7.png'' ''dl'' init_world = Some (Malformed, init_world)"
proof -
  have h: "\<not> py_contains ''_p'' ''https://h/7.png''" by code_simp
  show ?thesis using h download_malformed_untouched [OF h] by simp
qed

text \<open>Downloading into \<open>dl/pics\<close> when \<open>dl\<close> is a file.\<close>
theorem download_blocked_directory_witness:
  "match_gallery_url ''https://h/d/7_p0.png'' = Some (''https://h/d/'', ''7'', ''.png'') \<and>
   ''dl'' \<in> set (dir_prefixes ''dl/pics'') \<and> (files (init_world\<lparr>files := [''dl'' \<mapsto> ''x'']\<rparr>) ''dl'' \<noteq> None) \<and>
   download_pixiv_gallery gallery_example_server ''https://h/d/7_p0.png'' ''dl/pics''
     (init_world\<lparr>files := [''dl'' \<mapsto> ''x'']\<rparr>) = Some (MakedirsFailed, init_world\<lparr>files := [''dl'' \<mapsto> ''x'']\<rparr>)"
proof -
  have p: "''dl'' \<in> set (dir_prefixes ''dl/pics'')" by (simp add: dir_prefixes_def upt_rec)
  have f: "files (init_world\<lparr>files := [''dl'' \<mapsto> ''x'']\<rparr>) ''dl'' \<noteq> None" by simp
  show ?thesis
    using download_blocked_directory [OF gallery_example_match p f, of gallery_example_server] gallery_example_match p f
    by simp
qed

end
