(* ===== verification/Resolver.thy ===== *)
theory Resolver
  imports Complex_Main TimeRange WindowScan Gallery
begin

text \<open>
  ExtensionResolver and the pipeline of the desktop tool: \<open>search_worker\<close>,
  \<open>src/main.py\<close> lines 210--314 (the time range comes from \<open>TimeRange\<close>). The worker reads the capture times of
  the two neighbouring artworks' image URIs, scans every second between them for the
  target's first page, one candidate extension after the other, stopping at the first
  200, and hands the URL found to \<open>download_pixiv_gallery\<close>. Progress-bar updates are
  trace events; log lines and message boxes are not modelled, but which message box the
  worker ends with is its outcome.
\<close>

section \<open>Definitions\<close>

definition resolver_headers :: headers where
  "resolver_headers =
     [(''Referer'', ''https://www.pixiv.net/''),
      (''User-Agent'', ''Mozilla/5.0 (Windows NT 10.0; Win64; x64) AppleWebKit/537.36 (KHTML, like Gecko) Chrome/91.0.4472.124 Safari/537.36'')]"

definition resolver_request :: "url \<Rightarrow> request" where
  "resolver_request u = \<lparr>req_url = u, req_headers = resolver_headers, req_timeout = 10, req_stream = False\<rparr>"

text \<open>\<open>f"{base_url.replace('{time}', time_for_url)}.{ext}"\<close>.\<close>
definition test_url :: "string \<Rightarrow> string \<Rightarrow> nat \<Rightarrow> url" where
  "test_url base_url ext t = py_replace base_url ''{time}'' (strftime_hms CHR ''/'' t) @ ''.'' @ ext"

text \<open>The inner \<open>while\<close> loop for one extension: the URL found, if any, and the counter.\<close>
function probe_extension ::
  "server \<Rightarrow> string \<Rightarrow> string \<Rightarrow> nat \<Rightarrow> nat \<Rightarrow> int \<Rightarrow> int \<Rightarrow> world \<Rightarrow> url option \<times> int \<times> world" where
  "probe_extension srv base_url ext current_time end_time current_check total_checks w =
     (if current_time \<le> end_time then
        (let current_check' = current_check + 1;
             u = test_url base_url ext current_time;
             w1 = w\<lparr>trace := trace w @ [Progress current_check' total_checks]\<rparr>
         in case http_get srv (resolver_request u) w1 of
              (Resp status _, w2) \<Rightarrow>
                if status = 200
                then (Some u, current_check', w2\<lparr>trace := trace w2 @ [Progress current_check' total_checks]\<rparr>)
                else probe_extension srv base_url ext (Suc current_time) end_time current_check' total_checks w2
            | (_, w2) \<Rightarrow>
                probe_extension srv base_url ext (Suc current_time) end_time current_check' total_checks w2)
      else (None, current_check, w))"
  by pat_completeness auto
termination
  by (relation "measure (\<lambda>(srv, b, e, c, en, k, t, w). Suc en - c)") auto

text \<open>The \<open>for\<close> loop over the extensions, in the order the check boxes give them.\<close>
fun probe_extensions ::
  "server \<Rightarrow> string \<Rightarrow> string list \<Rightarrow> nat \<Rightarrow> nat \<Rightarrow> int \<Rightarrow> int \<Rightarrow> world \<Rightarrow>
   (string \<times> url) option \<times> int \<times> world" where
  "probe_extensions srv base_url [] st en current_check total_checks w = (None, current_check, w)"
| "probe_extensions srv base_url (ext # exts) st en current_check total_checks w =
     (case probe_extension srv base_url ext st en current_check total_checks w of
        (Some u, c, w') \<Rightarrow> (Some (ext, u), c, w')
      | (None, c, w') \<Rightarrow> probe_extensions srv base_url exts st en c total_checks w')"

definition selected_extensions :: "bool \<Rightarrow> bool \<Rightarrow> bool \<Rightarrow> string list" where
  "selected_extensions jpg png gif =
     (if jpg then [''jpg''] else []) @ (if png then [''png''] else []) @ (if gif then [''gif''] else [])"

text \<open>How the worker ends: the error box of its \<open>except Exception\<close>, the warning that
  nothing was found, or the success box naming the extension.\<close>
datatype worker_outcome = SearchFailed | NothingFound | ReportedSuccess string

text \<open>The \<open>except Exception\<close> clause: the progress bar is reset and an error box shown.\<close>
definition search_failed :: "world \<Rightarrow> (worker_outcome \<times> world) option" where
  "search_failed w = Some (SearchFailed, w\<lparr>trace := trace w @ [ProgressReset]\<rparr>)"

text \<open>The end of the worker after the probe loops: download what was found, or warn that
  nothing was. The outcome of \<open>download_pixiv_gallery\<close> is not looked at; only an
  exception escaping from it (the \<open>OSError\<close>s of \<open>open\<close> and \<open>os.makedirs\<close>) reaches the
  \<open>except\<close> clause. A download that never ends keeps the worker from ending.\<close>
definition report_result ::
  "server \<Rightarrow> int \<Rightarrow> (string \<times> url) option \<Rightarrow> world \<Rightarrow> (worker_outcome \<times> world) option" where
  "report_result srv total_checks found w =
     (case found of
        None \<Rightarrow> Some (NothingFound, w\<lparr>trace := trace w @ [ProgressReset]\<rparr>)
      | Some (ext, found_resource_url) \<Rightarrow>
          (let w3 = w\<lparr>trace := trace w @ [Progress total_checks total_checks]\<rparr> in
           case makedirs ''download'' w3 of
             None \<Rightarrow> search_failed w3
           | Some w4 \<Rightarrow>
               (case download_pixiv_gallery srv found_resource_url ''download'' w4 of
                  None \<Rightarrow> None
                | Some (Exited OpenFailed, w5) \<Rightarrow> search_failed w5
                | Some (MakedirsFailed, w5) \<Rightarrow> search_failed w5
                | Some (_, w5) \<Rightarrow> Some (ReportedSuccess ext, w5\<lparr>trace := trace w5 @ [ProgressReset]\<rparr>))))"

text \<open>\<open>search_worker(target_id)\<close>, with the two URI fields and the three check boxes as
  arguments. \<open>None\<close>: the worker never returns (the gallery download does not end).\<close>
definition search_worker ::
  "server \<Rightarrow> int \<Rightarrow> string \<Rightarrow> string \<Rightarrow> bool \<Rightarrow> bool \<Rightarrow> bool \<Rightarrow> world \<Rightarrow> (worker_outcome \<times> world) option" where
  "search_worker srv target_id prev_uri next_uri jpg png gif w =
     (let w0 = w\<lparr>trace := trace w @ [ProgressReset]\<rparr> in
      case extract_time_range prev_uri next_uri target_id of
        None \<Rightarrow> search_failed w0
      | Some (prev_time, next_time, base_url) \<Rightarrow>
          (case (strptime_hms prev_time, strptime_hms next_time) of
             (Some start_time, Some end_time) \<Rightarrow>
               (let extensions = selected_extensions jpg png gif;
                    time_range_seconds = int end_time - int start_time + 1;
                    total_checks = int (length extensions) * time_range_seconds;
                    w1 = w0\<lparr>trace := trace w0 @ [Progress 0 total_checks]\<rparr>
                in case probe_extensions srv base_url extensions start_time end_time 0 total_checks w1 of
                     (found, _, w2) \<Rightarrow> report_result srv total_checks found w2)
           | _ \<Rightarrow> search_failed w0))"

text \<open>The value \<open>update_progress(current, total, ...)\<close> puts on the progress bar.\<close>
definition progress_value :: "int \<Rightarrow> int \<Rightarrow> real" where
  "progress_value current tot = (if tot > 0 then (real_of_int current / real_of_int tot) * 100 else 0)"

declare probe_extension.simps [simp del]

section \<open>Lemmas\<close>

text \<open>Whether the probe of second \<open>t\<close> for an extension succeeds.\<close>
abbreviation hit :: "server \<Rightarrow> string \<Rightarrow> string \<Rightarrow> nat \<Rightarrow> bool" where
  "hit srv base_url ext t \<equiv> answers_200 (srv (resolver_request (test_url base_url ext t)))"

text \<open>The seconds one extension's loop probes: up to and including the first hit.\<close>
definition probed_times :: "server \<Rightarrow> string \<Rightarrow> string \<Rightarrow> nat list \<Rightarrow> nat list" where
  "probed_times srv base_url ext ts =
     takeWhile (\<lambda>t. \<not> hit srv base_url ext t) ts @ take 1 (dropWhile (\<lambda>t. \<not> hit srv base_url ext t) ts)"

lemma probe_extension_step:
  assumes "cur \<le> en"
  shows "probe_extension srv b e cur en c tot w =
           (if hit srv b e cur
            then (Some (test_url b e cur), c + 1,
                  w\<lparr>trace := trace w @ [Progress (c + 1) tot, Get (resolver_request (test_url b e cur)),
                                        Progress (c + 1) tot]\<rparr>)
            else probe_extension srv b e (Suc cur) en (c + 1) tot
                   (w\<lparr>trace := trace w @ [Progress (c + 1) tot, Get (resolver_request (test_url b e cur))]\<rparr>))"
  using assms
  by (subst probe_extension.simps) (auto simp: Let_def http_get_def elim: answers_200.elims split: http_result.splits)

lemma probe_extension_done: "en < cur \<Longrightarrow> probe_extension srv b e cur en c tot w = (None, c, w)"
  by (subst probe_extension.simps) simp

lemma probe_extension_result:
  "fst (probe_extension srv b e cur en c tot w) =
     map_option (test_url b e) (find (hit srv b e) [cur..<Suc en])"
proof (induction "Suc en - cur" arbitrary: cur c w)
  case 0
  then show ?case by (simp add: probe_extension_done)
next
  case (Suc k)
  then have le: "cur \<le> en" and k: "k = Suc en - Suc cur" by simp_all
  have ids: "[cur..<Suc en] = cur # [Suc cur..<Suc en]" using le by (simp add: upt_rec)
  show ?case
    using Suc.hyps(1) [OF k] by (simp add: probe_extension_step [OF le] ids del: upt_Suc)
qed

lemma probe_extension_counter:
  "fst (snd (probe_extension srv b e cur en c tot w)) =
     c + int (length (probed_times srv b e [cur..<Suc en]))"
proof (induction "Suc en - cur" arbitrary: cur c w)
  case 0
  then show ?case by (simp add: probe_extension_done probed_times_def)
next
  case (Suc k)
  then have le: "cur \<le> en" and k: "k = Suc en - Suc cur" by simp_all
  have ids: "[cur..<Suc en] = cur # [Suc cur..<Suc en]" using le by (simp add: upt_rec)
  show ?case
    using Suc.hyps(1) [OF k] by (simp add: probe_extension_step [OF le] ids probed_times_def del: upt_Suc)
qed

lemma probe_extension_trace:
  "\<exists>es. snd (snd (probe_extension srv b e cur en c tot w)) = w\<lparr>trace := trace w @ es\<rparr>"
proof (induction "Suc en - cur" arbitrary: cur c w)
  case 0
  then show ?case by (intro exI [of _ "[]"]) (simp add: probe_extension_done)
next
  case (Suc k)
  then have le: "cur \<le> en" and k: "k = Suc en - Suc cur" by simp_all
  let ?w = "w\<lparr>trace := trace w @ [Progress (c + 1) tot, Get (resolver_request (test_url b e cur))]\<rparr>"
  obtain es where "snd (snd (probe_extension srv b e (Suc cur) en (c + 1) tot ?w)) = ?w\<lparr>trace := trace ?w @ es\<rparr>"
    using Suc.hyps(1) [OF k] by blast
  then show ?case
    by (auto simp: probe_extension_step [OF le])
qed

text \<open>Every progress value the loop reports lies strictly above the counter it started
  from and at most at that counter plus the number of seconds probed; every request is
  the test URL of a second of the window.\<close>
lemma probe_extension_events:
  assumes "ev \<in> set (drop (length (trace w)) (trace (snd (snd (probe_extension srv b e cur en c tot w)))))"
  shows "(\<exists>k. ev = Progress k tot \<and> c < k \<and> k \<le> c + int (length (probed_times srv b e [cur..<Suc en])))
       \<or> (\<exists>t. ev = Get (resolver_request (test_url b e t)) \<and> cur \<le> t \<and> t \<le> en)"
  using assms
proof (induction "Suc en - cur" arbitrary: cur c w)
  case 0
  then show ?case by (simp add: probe_extension_done)
next
  case (Suc k)
  then have le: "cur \<le> en" and k: "k = Suc en - Suc cur" by simp_all
  have ids: "[cur..<Suc en] = cur # [Suc cur..<Suc en]" using le by (simp add: upt_rec)
  show ?case
  proof (cases "hit srv b e cur")
    case True
    with Suc.prems le show ?thesis
      by (auto simp: probe_extension_step ids probed_times_def simp del: upt_Suc)
  next
    case False
    let ?w = "w\<lparr>trace := trace w @ [Progress (c + 1) tot, Get (resolver_request (test_url b e cur))]\<rparr>"
    obtain es where es: "trace (snd (snd (probe_extension srv b e (Suc cur) en (c + 1) tot ?w))) = trace ?w @ es"
      using probe_extension_trace [of srv b e "Suc cur" en "c + 1" tot ?w] by (auto simp del: upt_Suc)
    from Suc.prems False le have "ev \<in> set [Progress (c + 1) tot, Get (resolver_request (test_url b e cur))] \<or>
        ev \<in> set (drop (length (trace ?w)) (trace (snd (snd (probe_extension srv b e (Suc cur) en (c + 1) tot ?w)))))"
      by (simp add: probe_extension_step es)
    then show ?thesis
    proof
      assume "ev \<in> set [Progress (c + 1) tot, Get (resolver_request (test_url b e cur))]"
      with le show ?thesis by (auto simp: ids probed_times_def simp del: upt_Suc)
    next
      assume "ev \<in> set (drop (length (trace ?w)) (trace (snd (snd (probe_extension srv b e (Suc cur) en (c + 1) tot ?w)))))"
      from Suc.hyps(1) [OF k this] False show ?thesis
        by (auto simp: ids probed_times_def simp del: upt_Suc)
    qed
  qed
qed

text \<open>The (extension, second) pairs the two nested loops visit, in visiting order.\<close>
definition candidate_pairs :: "string list \<Rightarrow> nat \<Rightarrow> nat \<Rightarrow> (string \<times> nat) list" where
  "candidate_pairs exts st en = concat (map (\<lambda>e. map (Pair e) [st..<Suc en]) exts)"

text \<open>The contract of ExtensionResolver: the first candidate extension, in the caller's
  order, for which some second of the window answers 200, with the URL of the earliest such
  second.\<close>
definition resolve_spec :: "server \<Rightarrow> string \<Rightarrow> string list \<Rightarrow> nat \<Rightarrow> nat \<Rightarrow> (string \<times> url) option" where
  "resolve_spec srv b exts st en =
     (case find (\<lambda>e. list_ex (hit srv b e) [st..<Suc en]) exts of
        None \<Rightarrow> None
      | Some e \<Rightarrow> map_option (\<lambda>t. (e, test_url b e t)) (find (hit srv b e) [st..<Suc en]))"

lemma find_append_list:
  "find P (xs @ ys) = (case find P xs of None \<Rightarrow> find P ys | Some x \<Rightarrow> Some x)"
  by (induction xs) simp_all

lemma find_map_Pair: "find P (map (Pair e) ts) = map_option (Pair e) (find (\<lambda>t. P (e, t)) ts)"
  by (induction ts) simp_all

lemma length_probed_times: "length (probed_times srv b e ts) \<le> length ts"
  by (induction ts) (simp_all add: probed_times_def)

lemma probe_extension_parts:
  obtains r c' w' es where "probe_extension srv b e st en c tot w = (r, c', w')"
    and "r = map_option (test_url b e) (find (hit srv b e) [st..<Suc en])"
    and "c \<le> c'" "c' \<le> c + int (Suc en - st)"
    and "w' = w\<lparr>trace := trace w @ es\<rparr>"
    and "\<And>ev. ev \<in> set es \<Longrightarrow> (\<exists>k. ev = Progress k tot \<and> c < k \<and> k \<le> c') \<or>
                    (\<exists>t. ev = Get (resolver_request (test_url b e t)) \<and> st \<le> t \<and> t \<le> en)"
proof -
  obtain r c' w' where pe: "probe_extension srv b e st en c tot w = (r, c', w')"
    by (cases "probe_extension srv b e st en c tot w") blast
  obtain es where es: "w' = w\<lparr>trace := trace w @ es\<rparr>"
    using probe_extension_trace [of srv b e st en c tot w] pe by auto
  have c': "c' = c + int (length (probed_times srv b e [st..<Suc en]))"
    using probe_extension_counter [of srv b e st en c tot w] pe by simp
  have "length (probed_times srv b e [st..<Suc en]) \<le> Suc en - st"
    using length_probed_times [of srv b e "[st..<Suc en]"] by (simp del: upt_Suc)
  then have "c' \<le> c + int (Suc en - st)" using c' by linarith
  moreover have "r = map_option (test_url b e) (find (hit srv b e) [st..<Suc en])"
    using probe_extension_result [of srv b e st en c tot w] pe by simp
  moreover have "(\<exists>k. ev = Progress k tot \<and> c < k \<and> k \<le> c') \<or>
                    (\<exists>t. ev = Get (resolver_request (test_url b e t)) \<and> st \<le> t \<and> t \<le> en)"
    if "ev \<in> set es" for ev
    using probe_extension_events [of ev w srv b e st en c tot] pe es c' that by simp
  ultimately show thesis
    using that [OF pe] es c' by simp
qed

text \<open>The two nested loops with their \<open>break\<close>s find the first pair, in the order of the
  extensions and then of the seconds, whose test URL answers 200.\<close>
lemma probe_extensions_parts:
  obtains r c' w' es where "probe_extensions srv b exts st en c tot w = (r, c', w')"
    and "r = map_option (\<lambda>(e, t). (e, test_url b e t)) (find (\<lambda>(e, t). hit srv b e t) (candidate_pairs exts st en))"
    and "c \<le> c'" "c' \<le> c + int (length exts * (Suc en - st))"
    and "w' = w\<lparr>trace := trace w @ es\<rparr>"
    and "\<And>ev. ev \<in> set es \<Longrightarrow> (\<exists>k. ev = Progress k tot \<and> c < k \<and> k \<le> c') \<or>
                    (\<exists>e t. ev = Get (resolver_request (test_url b e t)) \<and> e \<in> set exts \<and> st \<le> t \<and> t \<le> en)"
proof (induction exts arbitrary: c w thesis)
  case Nil
  then show ?case using Nil.prems [of None c w "[]"] by (simp add: candidate_pairs_def)
next
  case (Cons e exts)
  obtain r1 c1 w1 es1 where pe: "probe_extension srv b e st en c tot w = (r1, c1, w1)"
    and r1: "r1 = map_option (test_url b e) (find (hit srv b e) [st..<Suc en])"
    and c1: "c \<le> c1" "c1 \<le> c + int (Suc en - st)"
    and es1: "w1 = w\<lparr>trace := trace w @ es1\<rparr>"
    and ev1: "\<And>ev. ev \<in> set es1 \<Longrightarrow> (\<exists>k. ev = Progress k tot \<and> c < k \<and> k \<le> c1) \<or>
                    (\<exists>t. ev = Get (resolver_request (test_url b e t)) \<and> st \<le> t \<and> t \<le> en)"
    by (rule probe_extension_parts [where srv = srv and b = b and e = e and st = st and en = en
          and c = c and tot = tot and w = w]) blast
  have pairs: "candidate_pairs (e # exts) st en = map (Pair e) [st..<Suc en] @ candidate_pairs exts st en"
    by (simp add: candidate_pairs_def)
  show ?case
  proof (cases r1)
    case (Some u)
    show ?thesis
    proof (rule Cons.prems)
      show "probe_extensions srv b (e # exts) st en c tot w = (map_option (Pair e) r1, c1, w1)"
        using pe Some by simp
      show "map_option (Pair e) r1 = map_option (\<lambda>(e, t). (e, test_url b e t))
              (find (\<lambda>(e, t). hit srv b e t) (candidate_pairs (e # exts) st en))"
        using Some r1 by (auto simp: pairs find_append_list find_map_Pair)
      show "c \<le> c1" by (fact c1(1))
      show "c1 \<le> c + int (length (e # exts) * (Suc en - st))"
      proof -
        have "0 \<le> int (length exts) * int (Suc en - st)" by simp
        then show ?thesis
          using c1(2) by (simp only: length_Cons mult_Suc of_nat_add of_nat_mult)
      qed
      show "w1 = w\<lparr>trace := trace w @ es1\<rparr>" by (fact es1)
    qed (use ev1 in auto)
  next
    case None
    obtain r2 c2 w2 es2 where pe2: "probe_extensions srv b exts st en c1 tot w1 = (r2, c2, w2)"
      and r2: "r2 = map_option (\<lambda>(e, t). (e, test_url b e t)) (find (\<lambda>(e, t). hit srv b e t) (candidate_pairs exts st en))"
      and c2: "c1 \<le> c2" "c2 \<le> c1 + int (length exts * (Suc en - st))"
      and es2: "w2 = w1\<lparr>trace := trace w1 @ es2\<rparr>"
      and ev2: "\<And>ev. ev \<in> set es2 \<Longrightarrow> (\<exists>k. ev = Progress k tot \<and> c1 < k \<and> k \<le> c2) \<or>
                    (\<exists>e t. ev = Get (resolver_request (test_url b e t)) \<and> e \<in> set exts \<and> st \<le> t \<and> t \<le> en)"
      by (rule Cons.IH [where c = c1 and w = w1]) blast
    show ?thesis
    proof (rule Cons.prems)
      show "probe_extensions srv b (e # exts) st en c tot w = (r2, c2, w2)"
        using pe None pe2 by simp
      show "r2 = map_option (\<lambda>(e, t). (e, test_url b e t))
              (find (\<lambda>(e, t). hit srv b e t) (candidate_pairs (e # exts) st en))"
        using None r1 r2 by (simp add: pairs find_append_list find_map_Pair)
      show "c \<le> c2" using c1 c2 by simp
      show "c2 \<le> c + int (length (e # exts) * (Suc en - st))" using c1 c2 by simp
      show "w2 = w\<lparr>trace := trace w @ (es1 @ es2)\<rparr>" using es1 es2 by simp
    next
      fix ev
      assume "ev \<in> set (es1 @ es2)"
      then show "(\<exists>k. ev = Progress k tot \<and> c < k \<and> k \<le> c2) \<or>
                 (\<exists>e' t. ev = Get (resolver_request (test_url b e' t)) \<and> e' \<in> set (e # exts) \<and> st \<le> t \<and> t \<le> en)"
        using ev1 ev2 c1 c2 by fastforce
    qed
  qed
qed

text \<open>The worker once the time range has been read: the probe loops run from a counter of
  0 after the reset and the initial progress update, and the result goes to
  \<open>report_result\<close>.\<close>
lemma search_worker_probe:
  assumes "extract_time_range p q tid = Some (pt, nt, base)"
    and "strptime_hms pt = Some st" "strptime_hms nt = Some en"
  obtains r c2 w2 es where
    "r = map_option (\<lambda>(e, t). (e, test_url base e t))
           (find (\<lambda>(e, t). hit srv base e t) (candidate_pairs (selected_extensions jpg png gif) st en))"
    and "0 \<le> c2" "c2 \<le> int (length (selected_extensions jpg png gif) * (Suc en - st))"
    and "w2 = w\<lparr>trace := trace w @ [ProgressReset,
           Progress 0 (int (length (selected_extensions jpg png gif)) * (int en - int st + 1))] @ es\<rparr>"
    and "\<And>ev. ev \<in> set es \<Longrightarrow>
           (\<exists>k. ev = Progress k (int (length (selected_extensions jpg png gif)) * (int en - int st + 1)) \<and>
                0 < k \<and> k \<le> c2) \<or>
           (\<exists>e t. ev = Get (resolver_request (test_url base e t)) \<and> e \<in> set (selected_extensions jpg png gif) \<and>
                  st \<le> t \<and> t \<le> en)"
    and "search_worker srv tid p q jpg png gif w =
           report_result srv (int (length (selected_extensions jpg png gif)) * (int en - int st + 1)) r w2"
proof -
  let ?exts = "selected_extensions jpg png gif"
  let ?tot = "int (length ?exts) * (int en - int st + 1)"
  let ?w1 = "w\<lparr>trace := trace w @ [ProgressReset, Progress 0 ?tot]\<rparr>"
  obtain r c2 w2 es where pe: "probe_extensions srv base ?exts st en 0 ?tot ?w1 = (r, c2, w2)"
    and r: "r = map_option (\<lambda>(e, t). (e, test_url base e t))
                 (find (\<lambda>(e, t). hit srv base e t) (candidate_pairs ?exts st en))"
    and c: "0 \<le> c2" "c2 \<le> 0 + int (length ?exts * (Suc en - st))"
    and es: "w2 = ?w1\<lparr>trace := trace ?w1 @ es\<rparr>"
    and ev: "\<And>ev. ev \<in> set es \<Longrightarrow> (\<exists>k. ev = Progress k ?tot \<and> 0 < k \<and> k \<le> c2) \<or>
                    (\<exists>e t. ev = Get (resolver_request (test_url base e t)) \<and> e \<in> set ?exts \<and> st \<le> t \<and> t \<le> en)"
    by (rule probe_extensions_parts [where srv = srv and b = base and exts = ?exts and st = st and en = en
          and c = 0 and tot = ?tot and w = ?w1]) blast
  have "search_worker srv tid p q jpg png gif w = report_result srv ?tot r w2"
    using assms pe by (simp add: search_worker_def Let_def)
  with r c es ev show thesis
    by (intro that [of r c2 w2 es]) simp_all
qed

lemma report_result_None:
  "report_result srv tot None w = Some (NothingFound, w\<lparr>trace := trace w @ [ProgressReset]\<rparr>)"
  by (simp add: report_result_def)

lemma report_result_found_outcome:
  "report_result srv tot (Some (e, u)) w = Some (out, w') \<Longrightarrow> out = SearchFailed \<or> out = ReportedSuccess e"
  by (auto simp: report_result_def search_failed_def Let_def
           split: option.splits gallery_outcome.splits loop_exit.splits)

text \<open>A run of the gallery downloader appends only requests, writes, sleeps and the
  directory creation to the trace: no progress-bar event.\<close>
lemma download_gallery_events:
  assumes "download_pixiv_gallery srv u d w = Some (x, w')"
  shows "\<exists>es. trace w' = trace w @ es \<and> (\<forall>k t. Progress k t \<notin> set es) \<and> ProgressReset \<notin> set es"
proof (cases "match_gallery_url u")
  case None
  then show ?thesis using assms by (simp add: download_pixiv_gallery_def)
next
  case (Some m)
  obtain base iid ext where m: "m = (base, iid, ext)" by (cases m)
  show ?thesis
  proof (cases "makedirs d w")
    case None
    then show ?thesis using assms Some m by (simp add: download_pixiv_gallery_def)
  next
    case (Some w1)
    then have w1: "trace w1 = trace w @ [MakeDir d]"
      by (auto simp: makedirs_def split: if_splits)
    from assms \<open>match_gallery_url u = Some m\<close> m Some obtain y
      where "download_loop srv base iid ext d 0 w1 = Some (y, w')"
      by (auto simp: download_pixiv_gallery_def)
    from download_loop_trace [OF this] obtain k tl where
      "trace w' = trace w1 @ concat (map (\<lambda>i. [Get (page_req base iid ext i),
           WriteFile (page_path d iid ext i) (resp_body (srv (page_req base iid ext i))), Sleep 500]) [0..<0 + k]) @
         Get (page_req base iid ext (0 + k)) # tl"
      and "tl = [] \<or> tl = [WriteFile (page_path d iid ext (0 + k)) (resp_body (srv (page_req base iid ext (0 + k))))]"
      by blast
    then show ?thesis using w1 by auto
  qed
qed

text \<open>What \<open>report_result\<close> appends: the only progress update is \<open>(total, total)\<close>.\<close>
lemma report_result_events:
  assumes "report_result srv tot f w = Some (out, w')"
  shows "\<exists>es. trace w' = trace w @ es \<and> (\<forall>k t. Progress k t \<in> set es \<longrightarrow> f \<noteq> None \<and> k = tot \<and> t = tot)"
proof (cases f)
  case None
  then show ?thesis using assms by (auto simp: report_result_def)
next
  case (Some f')
  obtain e u where f': "f' = (e, u)" by (cases f')
  let ?w3 = "w\<lparr>trace := trace w @ [Progress tot tot]\<rparr>"
  show ?thesis
  proof (cases "makedirs ''download'' ?w3")
    case None
    then show ?thesis using assms Some f' by (auto simp: report_result_def search_failed_def)
  next
    case (Some w4)
    then have w4: "trace w4 = trace w @ [Progress tot tot, MakeDir ''download'']"
      by (auto simp: makedirs_def split: if_splits)
    from assms \<open>f = Some f'\<close> f' Some obtain x w5
      where dl: "download_pixiv_gallery srv u ''download'' w4 = Some (x, w5)"
        and "w' = w5\<lparr>trace := trace w5 @ [ProgressReset]\<rparr>"
      by (auto simp: report_result_def search_failed_def split: option.splits gallery_outcome.splits loop_exit.splits)
    with download_gallery_events [OF dl] w4 \<open>f = Some f'\<close> show ?thesis by auto
  qed
qed

text \<open>The progress bar shows a value between 0 and 100 whenever the count shown is
  non-negative and, for a positive total, at most the total.\<close>
lemma progress_value_range:
  assumes "0 \<le> k" "0 < t \<Longrightarrow> k \<le> t"
  shows "0 \<le> progress_value k t \<and> progress_value k t \<le> 100"
  using assms by (auto simp: progress_value_def divide_le_eq)

text \<open>Every progress update of a worker run: a non-negative count, at most the total
  when the total is positive.\<close>
lemma search_worker_progress_events:
  assumes "search_worker srv tid p q jpg png gif w = Some (out, w')"
    and "Progress k t \<in> set (drop (length (trace w)) (trace w'))"
  shows "0 \<le> k \<and> (0 < t \<longrightarrow> k \<le> t)"
proof (cases "extract_time_range p q tid")
  case None
  then show ?thesis using assms by (auto simp: search_worker_def search_failed_def)
next
  case (Some x)
  obtain pt nt base where x: "x = (pt, nt, base)" by (cases x)
  show ?thesis
  proof (cases "strptime_hms pt \<noteq> None \<and> strptime_hms nt \<noteq> None")
    case False
    then show ?thesis using assms Some x
      by (auto simp: search_worker_def search_failed_def Let_def split: option.splits)
  next
    case True
    then obtain st en where st: "strptime_hms pt = Some st" and en: "strptime_hms nt = Some en" by auto
    let ?tot = "int (length (selected_extensions jpg png gif)) * (int en - int st + 1)"
    obtain r c2 w2 es where
      r: "r = map_option (\<lambda>(e, t). (e, test_url base e t))
           (find (\<lambda>(e, t). hit srv base e t) (candidate_pairs (selected_extensions jpg png gif) st en))"
      and c2: "0 \<le> c2" "c2 \<le> int (length (selected_extensions jpg png gif) * (Suc en - st))"
      and w2: "w2 = w\<lparr>trace := trace w @ [ProgressReset, Progress 0 ?tot] @ es\<rparr>"
      and ev: "\<And>ev. ev \<in> set es \<Longrightarrow>
           (\<exists>k. ev = Progress k ?tot \<and> 0 < k \<and> k \<le> c2) \<or>
           (\<exists>e t. ev = Get (resolver_request (test_url base e t)) \<and> e \<in> set (selected_extensions jpg png gif) \<and>
                  st \<le> t \<and> t \<le> en)"
      and sw: "search_worker srv tid p q jpg png gif w = report_result srv ?tot r w2"
      using Some [unfolded x] st en
      by (rule search_worker_probe [where srv = srv and jpg = jpg and png = png and gif = gif and w = w]) blast
    obtain es' where es': "trace w' = trace w2 @ es'"
      and ev': "\<forall>k t. Progress k t \<in> set es' \<longrightarrow> r \<noteq> None \<and> k = ?tot \<and> t = ?tot"
      using report_result_events [of srv ?tot r w2 out w'] assms(1) sw by auto
    have found: "0 < ?tot" if "r \<noteq> None"
    proof -
      from that r have "candidate_pairs (selected_extensions jpg png gif) st en \<noteq> []" by auto
      then have "selected_extensions jpg png gif \<noteq> [] \<and> st \<le> en"
        by (auto simp: candidate_pairs_def split: if_splits)
      then show ?thesis by simp
    qed
    have within: "c2 \<le> max 0 ?tot"
    proof (cases "st \<le> en")
      case True
      then have "int (Suc en - st) = int en - int st + 1" by (simp add: of_nat_diff)
      then have "int (length (selected_extensions jpg png gif) * (Suc en - st)) = ?tot"
        by (simp only: of_nat_mult)
      then show ?thesis using c2 by linarith
    next
      case False
      then show ?thesis using c2 by simp
    qed
    from assms(2) have "Progress k t = Progress 0 ?tot \<or> Progress k t \<in> set es \<or> Progress k t \<in> set es'"
      using w2 es' by simp
    then show ?thesis
    proof (elim disjE)
      assume "Progress k t \<in> set es"
      from ev [OF this] within show ?thesis by auto
    next
      assume "Progress k t \<in> set es'"
      with ev' found show ?thesis by auto
    qed simp
  qed
qed

lemma find_candidate_pairs:
  "map_option (\<lambda>(e, t). (e, test_url b e t)) (find (\<lambda>(e, t). hit srv b e t) (candidate_pairs exts st en)) =
   resolve_spec srv b exts st en"
proof (induction exts)
  case Nil
  then show ?case by (simp add: candidate_pairs_def resolve_spec_def)
next
  case (Cons e exts)
  show ?case
  proof (cases "find (hit srv b e) [st..<Suc en]")
    case None
    then have "\<not> list_ex (hit srv b e) [st..<Suc en]"
      by (simp add: find_None_iff list_ex_iff)
    with None Cons.IH show ?thesis
      by (simp add: candidate_pairs_def resolve_spec_def find_append_list find_map_Pair del: upt_Suc)
  next
    case (Some t)
    then have "list_ex (hit srv b e) [st..<Suc en]"
      using find_None_iff [of "hit srv b e" "[st..<Suc en]"] by (auto simp: list_ex_iff simp del: upt_Suc)
    with Some show ?thesis
      by (simp add: candidate_pairs_def resolve_spec_def find_append_list find_map_Pair del: upt_Suc)
  qed
qed

text \<open>The test URL of a template \<open>pre{time}post\<close> whose other characters hold no brace.\<close>
lemma test_url_split:
  "CHR ''{'' \<notin> set pre \<Longrightarrow> CHR ''{'' \<notin> set post \<Longrightarrow>
   test_url (pre @ ''{time}'' @ post) e t = pre @ strftime_hms CHR ''/'' t @ post @ ''.'' @ e"
  using py_replace_single [of "''{time}''" pre post] by (simp add: test_url_def)

lemma candidate_pairs_Nil: "candidate_pairs exts st en = [] \<longleftrightarrow> exts = [] \<or> en < st"
  by (auto simp: candidate_pairs_def)

text \<open>With no (extension, second) pair to probe (no box ticked, or a reversed window), the
  worker sends no request and ends with the not-found warning.\<close>
lemma search_worker_no_candidates:
  assumes "extract_time_range p q tid = Some (pt, nt, base)"
    and "strptime_hms pt = Some st" "strptime_hms nt = Some en"
    and "selected_extensions jpg png gif = [] \<or> en < st"
  shows "search_worker srv tid p q jpg png gif w =
           Some (NothingFound, w\<lparr>trace := trace w @
             [ProgressReset, Progress 0 (int (length (selected_extensions jpg png gif)) * (int en - int st + 1)),
              ProgressReset]\<rparr>)"
proof -
  obtain r c2 w2 es where
    r: "r = map_option (\<lambda>(e, t). (e, test_url base e t))
           (find (\<lambda>(e, t). hit srv base e t) (candidate_pairs (selected_extensions jpg png gif) st en))"
    and c2: "0 \<le> c2" "c2 \<le> int (length (selected_extensions jpg png gif) * (Suc en - st))"
    and w2: "w2 = w\<lparr>trace := trace w @ [ProgressReset,
           Progress 0 (int (length (selected_extensions jpg png gif)) * (int en - int st + 1))] @ es\<rparr>"
    and ev: "\<And>ev. ev \<in> set es \<Longrightarrow>
           (\<exists>k. ev = Progress k (int (length (selected_extensions jpg png gif)) * (int en - int st + 1)) \<and>
                0 < k \<and> k \<le> c2) \<or>
           (\<exists>e t. ev = Get (resolver_request (test_url base e t)) \<and> e \<in> set (selected_extensions jpg png gif) \<and>
                  st \<le> t \<and> t \<le> en)"
    and sw: "search_worker srv tid p q jpg png gif w =
           report_result srv (int (length (selected_extensions jpg png gif)) * (int en - int st + 1)) r w2"
    using assms(1-3) by (rule search_worker_probe [where srv = srv and jpg = jpg and png = png and gif = gif and w = w]) blast
  have "es = []"
  proof (rule ccontr)
    assume "es \<noteq> []"
    then obtain ev where "ev \<in> set es" by (cases es) auto
    from ev [OF this] c2 assms(4) show False by auto
  qed
  moreover have "candidate_pairs (selected_extensions jpg png gif) st en = []"
    using assms(4) candidate_pairs_Nil by blast
  then have "r = None" using r by simp
  ultimately show ?thesis using sw w2 by (simp add: report_result_None)
qed

lemma find_filter: "find P xs = (case filter P xs of [] \<Rightarrow> None | x # _ \<Rightarrow> Some x)"
  by (induction xs) simp_all

text \<open>The resolver sends the window scan's request: same headers, same timeout.\<close>
lemma resolver_request_image_request: "resolver_request = image_request"
  by (intro ext) (simp add: resolver_request_def image_request_def resolver_headers_def scan_headers_def)

section \<open>Properties of the resolver\<close>

text \<open>After a hit, the worker returns unless the download directory can be made, the URL
  found parses and every page of the gallery is saved.\<close>
lemma report_result_returns:
  "report_result srv tot (Some (e, u)) w \<noteq> None \<longleftrightarrow>
     files w ''download'' \<noteq> None \<or>
     (case match_gallery_url u of
        None \<Rightarrow> True
      | Some (bu, iid, ext) \<Rightarrow> \<exists>k. \<not> page_saved srv w bu iid ext ''download'' k)"
proof (cases "files w ''download'' = None")
  case True
  let ?w4 = "w\<lparr>trace := trace w @ [Progress tot tot],
               dirs := insert ''download'' (dirs w), trace := (trace w @ [Progress tot tot]) @ [MakeDir ''download'']\<rparr>"
  have "(report_result srv tot (Some (e, u)) w = None) = (download_pixiv_gallery srv u ''download'' ?w4 = None)"
    using True by (auto simp: report_result_def makedirs_def Let_def search_failed_def
                        split: option.splits gallery_outcome.splits loop_exit.splits)
  then have "report_result srv tot (Some (e, u)) w \<noteq> None \<longleftrightarrow> download_pixiv_gallery srv u ''download'' ?w4 \<noteq> None"
    by simp
  also have "\<dots> \<longleftrightarrow> (case match_gallery_url u of
        None \<Rightarrow> True
      | Some (bu, iid, ext) \<Rightarrow> \<exists>k. \<not> page_saved srv w bu iid ext ''download'' k)"
    unfolding download_pixiv_gallery_returns_iff using True
    by (simp add: page_saved_def split: option.splits prod.splits)
  finally show ?thesis using True by simp
qed (simp add: report_result_def makedirs_def Let_def search_failed_def)

text \<open>C17. With the time range read, the worker ends warning that nothing was found exactly
  when no (extension, second) pair of the window, extensions in check-box order, answers
  200 to its test URL.\<close>
theorem search_worker_nothing_found_iff:
  assumes "extract_time_range p q tid = Some (pt, nt, base)"
    and "strptime_hms pt = Some st" "strptime_hms nt = Some en"
  shows "(\<exists>w'. search_worker srv tid p q jpg png gif w = Some (NothingFound, w')) \<longleftrightarrow>
         find (\<lambda>(e, t). hit srv base e t) (candidate_pairs (selected_extensions jpg png gif) st en) = None"
proof -
  obtain r c2 w2 es where
    r: "r = map_option (\<lambda>(e, t). (e, test_url base e t))
           (find (\<lambda>(e, t). hit srv base e t) (candidate_pairs (selected_extensions jpg png gif) st en))"
    and sw: "search_worker srv tid p q jpg png gif w =
           report_result srv (int (length (selected_extensions jpg png gif)) * (int en - int st + 1)) r w2"
    using assms by (rule search_worker_probe [where srv = srv and jpg = jpg and png = png and gif = gif and w = w])
  show ?thesis
  proof (cases r)
    case None
    then show ?thesis using r sw by (simp add: report_result_None)
  next
    case (Some f)
    then show ?thesis using r sw report_result_found_outcome [of srv _ "fst f" "snd f" w2 NothingFound]
      by auto
  qed
qed

text \<open>C18. When the worker reports success, the extension it names is that of the first
  (extension, second) pair, extensions in check-box order and seconds ascending, whose test
  URL answers 200: an earlier extension found anywhere in the window wins over a later one.\<close>
theorem search_worker_reports_first_hit:
  assumes "extract_time_range p q tid = Some (pt, nt, base)"
    and "strptime_hms pt = Some st" "strptime_hms nt = Some en"
    and "search_worker srv tid p q jpg png gif w = Some (ReportedSuccess e, w')"
  shows "\<exists>t. find (\<lambda>(e, t). hit srv base e t) (candidate_pairs (selected_extensions jpg png gif) st en) = Some (e, t)"
proof -
  obtain r c2 w2 es where
    r: "r = map_option (\<lambda>(e, t). (e, test_url base e t))
           (find (\<lambda>(e, t). hit srv base e t) (candidate_pairs (selected_extensions jpg png gif) st en))"
    and sw: "search_worker srv tid p q jpg png gif w =
           report_result srv (int (length (selected_extensions jpg png gif)) * (int en - int st + 1)) r w2"
    using assms(1-3) by (rule search_worker_probe [where srv = srv and jpg = jpg and png = png and gif = gif and w = w])
  show ?thesis
  proof (cases r)
    case None
    then show ?thesis using r sw assms(4) by (simp add: report_result_None)
  next
    case (Some f)
    then show ?thesis using r sw assms(4) report_result_found_outcome [of srv _ "fst f" "snd f" w2 "ReportedSuccess e" w']
      by auto
  qed
qed

text \<open>C19. The progress bar stays in range: every value a run of the worker puts on it
  lies between 0 and 100 percent, whatever the window and the answers of the host.\<close>
theorem search_worker_progress_in_range:
  assumes "search_worker srv tid p q jpg png gif w = Some (out, w')"
    and "Progress k t \<in> set (drop (length (trace w)) (trace w'))"
  shows "0 \<le> progress_value k t \<and> progress_value k t \<le> 100"
  using search_worker_progress_events [OF assms] by (intro progress_value_range) simp_all

text \<open>C20. ExtensionResolver refines its contract: the two nested probe loops, with their
  \<open>break\<close>s, return exactly the first extension in the caller's order for which some
  second of the window answers 200, with the URL of the earliest such second.\<close>
theorem probe_extensions_refines_resolve:
  "fst (probe_extensions srv b exts st en c tot w) = resolve_spec srv b exts st en"
proof -
  obtain r c' w' es where "probe_extensions srv b exts st en c tot w = (r, c', w')"
    and "r = map_option (\<lambda>(e, t). (e, test_url b e t)) (find (\<lambda>(e, t). hit srv b e t) (candidate_pairs exts st en))"
    by (rule probe_extensions_parts [where srv = srv and b = b and exts = exts and st = st and en = en
          and c = c and tot = tot and w = w]) blast
  then show ?thesis by (simp add: find_candidate_pairs)
qed

text \<open>C21. A reversed window (the next artwork's time of day before the previous one's, as
  when the two uploads straddle midnight) is not rejected: the worker sends no request at
  all and ends with the not-found warning, after a progress update whose total is not
  positive.\<close>
theorem search_worker_reversed_window:
  assumes "extract_time_range p q tid = Some (pt, nt, base)"
    and "strptime_hms pt = Some st" "strptime_hms nt = Some en" "en < st"
  shows "search_worker srv tid p q jpg png gif w =
           Some (NothingFound, w\<lparr>trace := trace w @
             [ProgressReset, Progress 0 (int (length (selected_extensions jpg png gif)) * (int en - int st + 1)),
              ProgressReset]\<rparr>)
         \<and> int (length (selected_extensions jpg png gif)) * (int en - int st + 1) \<le> 0"
  using search_worker_no_candidates [OF assms(1-3)] assms(4) by (simp add: mult_nonneg_nonpos)

text \<open>C22. The worker reports success without having downloaded anything: when the URL
  found is one the downloader's pattern rejects (as for a negative artwork ID, whose
  \<open>-\<close> the \<open>\d+\<close> group cannot match), the download returns at once and the success
  box names the extension, while no file has been written.\<close>
theorem search_worker_success_without_download:
  assumes "extract_time_range p q tid = Some (pt, nt, base)"
    and "strptime_hms pt = Some st" "strptime_hms nt = Some en"
    and "find (\<lambda>(e, t). hit srv base e t) (candidate_pairs (selected_extensions jpg png gif) st en) = Some (e, t)"
    and "files w ''download'' = None"
    and "match_gallery_url (test_url base e t) = None"
  shows "\<exists>w'. search_worker srv tid p q jpg png gif w = Some (ReportedSuccess e, w') \<and> files w' = files w"
proof -
  obtain r c2 w2 es where
    r: "r = map_option (\<lambda>(e, t). (e, test_url base e t))
           (find (\<lambda>(e, t). hit srv base e t) (candidate_pairs (selected_extensions jpg png gif) st en))"
    and w2: "w2 = w\<lparr>trace := trace w @ [ProgressReset,
           Progress 0 (int (length (selected_extensions jpg png gif)) * (int en - int st + 1))] @ es\<rparr>"
    and sw: "search_worker srv tid p q jpg png gif w =
           report_result srv (int (length (selected_extensions jpg png gif)) * (int en - int st + 1)) r w2"
    using assms(1-3) by (rule search_worker_probe [where srv = srv and jpg = jpg and png = png and gif = gif and w = w]) blast
  show ?thesis
    using sw r w2 assms(4-6)
    by (simp add: report_result_def makedirs_def download_pixiv_gallery_def Let_def)
qed

text \<open>C28. ExtensionResolver's short-circuit loop for one extension agrees with the
  exhaustive TimeWindowProbe over the same window, template and file name: it finds a URL
  exactly when the scan reports a timestamp, and the URL it finds is that of the first
  timestamp reported.\<close>
theorem probe_extension_scan_equiv:
  assumes "plain_template pre" "plain_template post"
    and "strptime_hms (py_replace start_str ''/'' '':'') = Some st"
    and "strptime_hms (py_replace end_str ''/'' '':'') = Some en"
    and "check_pixiv_image_existence srv (pre @ ''{time}'' @ post) start_str end_str (''.'' @ e) w = (ScanDone found, w')"
  shows "fst (probe_extension srv (pre @ ''{time}'' @ post) e st en c tot v) =
           (case found of [] \<Rightarrow> None | ts # _ \<Rightarrow> Some (pre @ py_replace ts '':'' ''/'' @ post @ ''.'' @ e))"
proof -
  let ?P = "\<lambda>t. answers_200 (srv (image_request (pre @ strftime_hms CHR ''/'' t @ post @ ''.'' @ e)))"
  have nb: "CHR ''{'' \<notin> set pre" "CHR ''{'' \<notin> set post"
    using assms(1,2) by (simp_all add: plain_template_def)
  have found: "found = map (strftime_hms CHR '':'') (filter ?P [st..<Suc en])"
    using check_existence_template [OF assms(1-4), of srv "''.'' @ e" w] assms(5) by simp
  have "fst (probe_extension srv (pre @ ''{time}'' @ post) e st en c tot v) =
          map_option (\<lambda>t. pre @ strftime_hms CHR ''/'' t @ post @ ''.'' @ e) (find ?P [st..<Suc en])"
  proof -
    have tu: "test_url (pre @ ''{time}'' @ post) e = (\<lambda>t. pre @ strftime_hms CHR ''/'' t @ post @ ''.'' @ e)"
      using test_url_split [OF nb] by (intro ext) simp
    show ?thesis
      using probe_extension_result [of srv "pre @ ''{time}'' @ post" e st en c tot v] tu
      by (simp add: resolver_request_image_request)
  qed
  then show ?thesis
    by (simp add: found find_filter strftime_colon_slash split: list.splits)
qed

text \<open>C29. Termination of the worker thread: with the time range read, \<open>search_worker\<close>
  returns exactly when no (extension, second) pair hits, or the \<open>download\<close> path is taken
  by a file, or the URL found is one the downloader's pattern rejects, or some page of the
  gallery is not saved. On a host that answers 200 for every page of the gallery found the
  thread never ends, so the button stays usable while it runs forever.\<close>
theorem search_worker_returns_iff:
  assumes "extract_time_range p q tid = Some (pt, nt, base)"
    and "strptime_hms pt = Some st" "strptime_hms nt = Some en"
  shows "search_worker srv tid p q jpg png gif w \<noteq> None \<longleftrightarrow>
    (case find (\<lambda>(e, t). hit srv base e t) (candidate_pairs (selected_extensions jpg png gif) st en) of
       None \<Rightarrow> True
     | Some (e, t) \<Rightarrow> files w ''download'' \<noteq> None \<or>
         (case match_gallery_url (test_url base e t) of
            None \<Rightarrow> True
          | Some (bu, iid, ext) \<Rightarrow> \<exists>k. \<not> page_saved srv w bu iid ext ''download'' k))"
proof -
  obtain r c2 w2 es where
    r: "r = map_option (\<lambda>(e, t). (e, test_url base e t))
           (find (\<lambda>(e, t). hit srv base e t) (candidate_pairs (selected_extensions jpg png gif) st en))"
    and w2: "w2 = w\<lparr>trace := trace w @ [ProgressReset,
           Progress 0 (int (length (selected_extensions jpg png gif)) * (int en - int st + 1))] @ es\<rparr>"
    and sw: "search_worker srv tid p q jpg png gif w =
           report_result srv (int (length (selected_extensions jpg png gif)) * (int en - int st + 1)) r w2"
    using assms by (rule search_worker_probe [where srv = srv and jpg = jpg and png = png and gif = gif and w = w]) blast
  show ?thesis
  proof (cases "find (\<lambda>(e, t). hit srv base e t) (candidate_pairs (selected_extensions jpg png gif) st en)")
    case None
    then show ?thesis using sw r by (simp add: report_result_None)
  next
    case (Some a)
    obtain e t where a: "a = (e, t)" by (cases a)
    have "writable w2 = writable w" "files w2 = files w" using w2 by simp_all
    then show ?thesis
      using sw r Some a report_result_returns [of srv _ e "test_url base e t" w2]
      by (simp add: page_saved_def split: option.splits prod.splits)
  qed
qed

text \<open>A digit is neither a brace nor a newline.\<close>
lemma is_digit_not_brace: "is_digit c \<Longrightarrow> c \<noteq> CHR ''{''"
  by (auto simp: is_digit_def)

text \<open>C30. The worker and the downloader agree on the shape of a URL: for a non-negative
  target ID, every URL the probe loops try is accepted by the downloader's pattern, which
  reads back the target ID and the ticked extension, and page 0 of the gallery the
  downloader then walks is that very URL.\<close>
theorem found_url_parses:
  assumes "extract_time_range p q tid = Some (pt, nt, base)" "0 \<le> tid"
    and "e \<in> set (selected_extensions jpg png gif)"
  shows "\<exists>dir. match_gallery_url (test_url base e t) = Some (dir, py_str_int tid, ''.'' @ e) \<and>
               dir @ gallery_filename (py_str_int tid) 0 (''.'' @ e) = test_url base e t"
proof -
  obtain pm where pm: "re_search_date p = Some pm"
    and b: "base = ''https://i.pximg.net/img-original/img/'' @ pm ! 0 @ ''/'' @ pm ! 1 @ ''/'' @ pm ! 2 @
                   ''/{time}/'' @ py_str_int tid @ ''_p0''"
    using assms(1) by (auto simp: extract_time_range_def split: option.splits)
  have dg: "\<forall>c \<in> set (pm ! i). is_digit c" if "i < 6" for i
    using re_search_date_digits [OF pm] that by auto
  let ?pre = "''https://i.pximg.net/img-original/img/'' @ pm ! 0 @ ''/'' @ pm ! 1 @ ''/'' @ pm ! 2 @ ''/''"
  let ?iid = "py_str_int tid"
  have iid: "?iid = py_str_nat (nat tid)" using assms(2) by (simp add: py_str_int_def)
  then have iid_d: "\<forall>c \<in> set ?iid. is_digit c" "?iid \<noteq> []" using py_str_nat_digits by auto
  have "CHR ''{'' \<notin> set ?pre" "CHR ''{'' \<notin> set (''/'' @ ?iid @ ''_p0'')"
    using dg [of 0] dg [of 1] dg [of 2] iid_d(1) is_digit_not_brace by auto blast+
  then have tu: "test_url base e t = ?pre @ strftime_hms CHR ''/'' t @ ''/'' @ ?iid @ ''_p0'' @ ''.'' @ e"
    using test_url_split [of ?pre "''/'' @ ?iid @ ''_p0''" e t] b by simp
  let ?m = "''i.pximg.net/img-original/img/'' @ pm ! 0 @ ''/'' @ pm ! 1 @ ''/'' @ pm ! 2 @ ''/'' @
              strftime_hms CHR ''/'' t"
  have url: "test_url base e t = ''https://'' @ ?m @ ''/'' @ gallery_filename ?iid 0 (CHR ''.'' # e)"
    using tu by (simp add: gallery_filename_def py_str_nat.simps digit_char_def)
  have "newline \<notin> set (strftime_hms CHR ''/'' t)"
    using strftime_hms_chars [of newline "CHR ''/''" t] newline_special(1) by fastforce
  then have nl: "newline \<notin> set ?m"
    using dg [of 0] dg [of 1] dg [of 2] is_digit_not_newline by (auto simp: newline_def)
  have e: "e \<noteq> []" "newline \<notin> set e" "CHR ''/'' \<notin> set e"
    using assms(3) by (auto simp: selected_extensions_def newline_def split: if_splits)
  have "match_gallery_url (test_url base e t) = Some (''https://'' @ ?m @ ''/'', ?iid, CHR ''.'' # e)"
    unfolding url by (rule match_gallery_url_print) (use nl iid_d e in simp_all)
  then show ?thesis using url by auto
qed

section \<open>Witnesses\<close>

text \<open>A window of three seconds searched for artwork 7 with the \<open>jpg\<close> and \<open>png\<close> boxes
  ticked; only the \<open>png\<close> captured at 00:00:01 exists, and its gallery has one page.\<close>

definition resolver_example_server :: server where
  "resolver_example_server =
     (\<lambda>r. if req_url r = ''https://i.pximg.net/img-original/img/2025/05/12/00/00/01/7_p0.png'' then Resp 200 ''P''
          else Resp 404 [])"

lemma resolver_example_extract:
  "extract_time_range ''img/2025/05/12/00/00/00/'' ''img/2025/05/12/00/00/02/'' 7 =
     Some (''00:00:00'', ''00:00:02'', ''https://i.pximg.net/img-original/img/2025/05/12/{time}/7_p0'')"
  by code_simp

lemma resolver_example_times:
  "strptime_hms ''00:00:00'' = Some 0" "strptime_hms ''00:00:02'' = Some 2"
  by code_simp+

lemma resolver_example_test_url:
  "test_url ''https://i.pximg.net/img-original/img/2025/05/12/{time}/7_p0'' e t =
     ''https://i.pximg.net/img-original/img/2025/05/12/'' @ strftime_hms CHR ''/'' t @ ''/7_p0'' @ ''.'' @ e"
  using test_url_split [of "''https://i.pximg.net/img-original/img/2025/05/12/''" "''/7_p0''" e t] by simp

lemma resolver_example_find:
  "find (\<lambda>(e, t). hit resolver_example_server ''https://i.pximg.net/img-original/img/2025/05/12/{time}/7_p0'' e t)
     (candidate_pairs (selected_extensions True True False) 0 2) = Some (''png'', 1)"
  by (simp add: candidate_pairs_def selected_extensions_def resolver_example_test_url strftime_hms_def pad2_def
      digit_char_def resolver_example_server_def resolver_request_def upt_rec)

lemma resolver_example_gallery:
  assumes "files v ''download'' = None" "writable v = (\<lambda>_. True)"
  shows "\<exists>v'. download_pixiv_gallery resolver_example_server
            ''https://i.pximg.net/img-original/img/2025/05/12/00/00/01/7_p0.png'' ''download'' v = Some (Exited SeriesEnd, v')"
proof -
  have m: "match_gallery_url ''https://i.pximg.net/img-original/img/2025/05/12/00/00/01/7_p0.png'' =
             Some (''https://i.pximg.net/img-original/img/2025/05/12/00/00/01/'', ''7'', ''.png'')"
    by code_simp
  have names: "gallery_filename ''7'' 0 ''.png'' = ''7_p0.png''" "gallery_filename ''7'' (Suc 0) ''.png'' = ''7_p1.png''"
    by (simp_all add: gallery_filename_def py_str_nat.simps digit_char_def)
  have d: "\<not> makedirs_blocked v ''download''" using assms(1) by simp
  show ?thesis
    using download_gallery_run [OF m d, of 1 resolver_example_server "\<lambda>_. ''P''"] assms(2)
    by (simp add: names resolver_example_server_def gallery_request_def exit_of_def)
qed

lemma resolver_example_run:
  "\<exists>w'. search_worker resolver_example_server 7 ''img/2025/05/12/00/00/00/'' ''img/2025/05/12/00/00/02/''
           True True False init_world = Some (ReportedSuccess ''png'', w') \<and> Progress 0 6 \<in> set (trace w')"
proof -
  let ?b = "''https://i.pximg.net/img-original/img/2025/05/12/{time}/7_p0''"
  obtain r c2 w2 es where
    r: "r = map_option (\<lambda>(e, t). (e, test_url ?b e t))
           (find (\<lambda>(e, t). hit resolver_example_server ?b e t) (candidate_pairs (selected_extensions True True False) 0 2))"
    and w2: "w2 = init_world\<lparr>trace := trace init_world @ [ProgressReset,
           Progress 0 (int (length (selected_extensions True True False)) * (int 2 - int 0 + 1))] @ es\<rparr>"
    and sw: "search_worker resolver_example_server 7 ''img/2025/05/12/00/00/00/'' ''img/2025/05/12/00/00/02/''
               True True False init_world =
           report_result resolver_example_server (int (length (selected_extensions True True False)) * (int 2 - int 0 + 1)) r w2"
    using resolver_example_extract resolver_example_times
    by (rule search_worker_probe [where srv = resolver_example_server and jpg = True and png = True and gif = False
          and w = init_world]) blast
  have "r = Some (''png'', ''https://i.pximg.net/img-original/img/2025/05/12/00/00/01/7_p0.png'')"
    using r resolver_example_find by (simp add: resolver_example_test_url strftime_hms_def pad2_def digit_char_def)
  moreover have "selected_extensions True True False = [''jpg'', ''png'']"
    by (simp add: selected_extensions_def)
  moreover obtain v' where dl:
    "download_pixiv_gallery resolver_example_server
       ''https://i.pximg.net/img-original/img/2025/05/12/00/00/01/7_p0.png'' ''download''
       (init_world\<lparr>dirs := {''download''}, trace := [ProgressReset, Progress 0 6] @ es @ [Progress 6 6, MakeDir ''download'']\<rparr>) =
     Some (Exited SeriesEnd, v')"
    using resolver_example_gallery [of "init_world\<lparr>dirs := {''download''},
        trace := [ProgressReset, Progress 0 6] @ es @ [Progress 6 6, MakeDir ''download'']\<rparr>"]
    by (auto simp: init_world_def)
  moreover have "Progress 0 6 \<in> set (trace v')"
    using download_gallery_events [OF dl] by auto
  ultimately show ?thesis
    using sw w2 by (auto simp: report_result_def makedirs_def init_world_def Let_def)
qed

text \<open>The same window searched for artwork \<open>-1\<close>: its \<open>png\<close> answers 200 at 00:00:01.\<close>
definition resolver_negative_server :: server where
  "resolver_negative_server =
     (\<lambda>r. if req_url r = ''https://i.pximg.net/img-original/img/2025/05/12/00/00/01/-1_p0.png'' then Resp 200 ''P''
          else Resp 404 [])"

lemma resolver_negative_extract:
  "extract_time_range ''img/2025/05/12/00/00/00/'' ''img/2025/05/12/00/00/02/'' (-1) =
     Some (''00:00:00'', ''00:00:02'', ''https://i.pximg.net/img-original/img/2025/05/12/{time}/-1_p0'')"
  by code_simp

lemma resolver_negative_find:
  "find (\<lambda>(e, t). hit resolver_negative_server ''https://i.pximg.net/img-original/img/2025/05/12/{time}/-1_p0'' e t)
     (candidate_pairs (selected_extensions True True False) 0 2) = Some (''png'', 1)"
proof -
  have tu: "test_url ''https://i.pximg.net/img-original/img/2025/05/12/{time}/-1_p0'' e t =
     ''https://i.pximg.net/img-original/img/2025/05/12/'' @ strftime_hms CHR ''/'' t @ ''/-1_p0'' @ ''.'' @ e" for e t
    using test_url_split [of "''https://i.pximg.net/img-original/img/2025/05/12/''" "''/-1_p0''" e t] by simp
  show ?thesis
    by (simp add: candidate_pairs_def selected_extensions_def tu strftime_hms_def pad2_def
        digit_char_def resolver_negative_server_def resolver_request_def upt_rec)
qed

theorem search_worker_nothing_found_iff_witness:
  "extract_time_range ''img/2025/05/12/00/00/00/'' ''img/2025/05/12/00/00/02/'' 7 =
     Some (''00:00:00'', ''00:00:02'', ''https://i.pximg.net/img-original/img/2025/05/12/{time}/7_p0'') \<and>
   strptime_hms ''00:00:00'' = Some 0 \<and> strptime_hms ''00:00:02'' = Some 2 \<and>
   \<not> (\<exists>w'. search_worker resolver_example_server 7 ''img/2025/05/12/00/00/00/'' ''img/2025/05/12/00/00/02/''
            True True False init_world = Some (NothingFound, w'))"
  using search_worker_nothing_found_iff [OF resolver_example_extract resolver_example_times,
      of resolver_example_server True True False init_world]
    resolver_example_find resolver_example_extract resolver_example_times
  by simp

theorem search_worker_reports_first_hit_witness:
  "\<exists>w'. extract_time_range ''img/2025/05/12/00/00/00/'' ''img/2025/05/12/00/00/02/'' 7 =
          Some (''00:00:00'', ''00:00:02'', ''https://i.pximg.net/img-original/img/2025/05/12/{time}/7_p0'') \<and>
        strptime_hms ''00:00:00'' = Some 0 \<and> strptime_hms ''00:00:02'' = Some 2 \<and>
        search_worker resolver_example_server 7 ''img/2025/05/12/00/00/00/'' ''img/2025/05/12/00/00/02/''
          True True False init_world = Some (ReportedSuccess ''png'', w') \<and>
        (\<exists>t. find (\<lambda>(e, t). hit resolver_example_server ''https://i.pximg.net/img-original/img/2025/05/12/{time}/7_p0'' e t)
               (candidate_pairs (selected_extensions True True False) 0 2) = Some (''png'', t))"
proof -
  obtain w' where run: "search_worker resolver_example_server 7 ''img/2025/05/12/00/00/00/'' ''img/2025/05/12/00/00/02/''
          True True False init_world = Some (ReportedSuccess ''png'', w')"
    using resolver_example_run by blast
  show ?thesis
    using search_worker_reports_first_hit [OF resolver_example_extract resolver_example_times run]
      run resolver_example_extract resolver_example_times by blast
qed

theorem search_worker_progress_in_range_witness:
  "\<exists>w'. search_worker resolver_example_server 7 ''img/2025/05/12/00/00/00/'' ''img/2025/05/12/00/00/02/''
          True True False init_world = Some (ReportedSuccess ''png'', w') \<and>
        Progress 0 6 \<in> set (drop (length (trace init_world)) (trace w')) \<and>
        0 \<le> progress_value 0 6 \<and> progress_value 0 6 \<le> 100"
proof -
  obtain w' where run: "search_worker resolver_example_server 7 ''img/2025/05/12/00/00/00/'' ''img/2025/05/12/00/00/02/''
          True True False init_world = Some (ReportedSuccess ''png'', w')"
    and p: "Progress 0 6 \<in> set (trace w')"
    using resolver_example_run by blast
  have p': "Progress 0 6 \<in> set (drop (length (trace init_world)) (trace w'))"
    using p by (simp add: init_world_def)
  show ?thesis
    using search_worker_progress_in_range [OF run p'] run p' by blast
qed

theorem search_worker_reversed_window_witness:
  "extract_time_range ''img/2025/05/12/00/00/02/'' ''img/2025/05/12/00/00/00/'' 7 =
     Some (''00:00:02'', ''00:00:00'', ''https://i.pximg.net/img-original/img/2025/05/12/{time}/7_p0'') \<and>
   strptime_hms ''00:00:02'' = Some 2 \<and> strptime_hms ''00:00:00'' = Some 0 \<and> (0::nat) < 2 \<and>
   search_worker resolver_example_server 7 ''img/2025/05/12/00/00/02/'' ''img/2025/05/12/00/00/00/''
     True True False init_world =
     Some (NothingFound, init_world\<lparr>trace := [ProgressReset, Progress 0 (-2), ProgressReset]\<rparr>)"
proof -
  have e: "extract_time_range ''img/2025/05/12/00/00/02/'' ''img/2025/05/12/00/00/00/'' 7 =
     Some (''00:00:02'', ''00:00:00'', ''https://i.pximg.net/img-original/img/2025/05/12/{time}/7_p0'')"
    by code_simp
  show ?thesis
    using search_worker_reversed_window [OF e resolver_example_times(2) resolver_example_times(1),
        of resolver_example_server True True False init_world]
      e resolver_example_times
    by (simp add: selected_extensions_def init_world_def)
qed

theorem search_worker_success_without_download_witness:
  "extract_time_range ''img/2025/05/12/00/00/00/'' ''img/2025/05/12/00/00/02/'' (-1) =
     Some (''00:00:00'', ''00:00:02'', ''https://i.pximg.net/img-original/img/2025/05/12/{time}/-1_p0'') \<and>
   match_gallery_url (test_url ''https://i.pximg.net/img-original/img/2025/05/12/{time}/-1_p0'' ''png'' 1) = None \<and>
   (\<exists>w'. search_worker resolver_negative_server (-1) ''img/2025/05/12/00/00/00/'' ''img/2025/05/12/00/00/02/''
          True True False init_world = Some (ReportedSuccess ''png'', w') \<and> files w' = files init_world)"
proof -
  have tu: "test_url ''https://i.pximg.net/img-original/img/2025/05/12/{time}/-1_p0'' ''png'' 1 =
              ''https://i.pximg.net/img-original/img/2025/05/12/00/00/01/-1_p0.png''"
    using test_url_split [of "''https://i.pximg.net/img-original/img/2025/05/12/''" "''/-1_p0''" "''png''" 1]
    by (simp add: strftime_hms_def pad2_def digit_char_def)
  have m: "match_gallery_url ''https://i.pximg.net/img-original/img/2025/05/12/00/00/01/-1_p0.png'' = None"
    by code_simp
  have f: "files init_world ''download'' = None" by (simp add: init_world_def)
  show ?thesis
    using search_worker_success_without_download [OF resolver_negative_extract resolver_example_times
        resolver_negative_find f, unfolded tu, OF m]
      resolver_negative_extract tu m by simp
qed

theorem probe_extension_scan_equiv_witness:
  "\<exists>w'. check_pixiv_image_existence resolver_example_server
          (''https://i.pximg.net/img-original/img/2025/05/12/'' @ ''{time}'' @ ''/7_p0'') ''00:00:00'' ''00:00:02''
          (''.'' @ ''png'') init_world = (ScanDone [''00:00:01''], w') \<and>
        fst (probe_extension resolver_example_server
          (''https://i.pximg.net/img-original/img/2025/05/12/'' @ ''{time}'' @ ''/7_p0'') ''png'' 0 2 0 6 init_world) =
        Some (''https://i.pximg.net/img-original/img/2025/05/12/'' @ py_replace ''00:00:01'' '':'' ''/'' @ ''/7_p0'' @
              ''.'' @ ''png'')"
proof -
  let ?pre = "''https://i.pximg.net/img-original/img/2025/05/12/''"
  have pt: "plain_template ?pre" "plain_template ''/7_p0''" by (simp_all add: plain_template_def)
  have st: "strptime_hms (py_replace ''00:00:00'' ''/'' '':'') = Some 0"
    and en: "strptime_hms (py_replace ''00:00:02'' ''/'' '':'') = Some 2"
    by code_simp+
  have "map (strftime_hms CHR '':'')
          (filter (\<lambda>t. answers_200 (resolver_example_server
             (image_request (?pre @ strftime_hms CHR ''/'' t @ ''/7_p0'' @ ''.'' @ ''png'')))) [0..<Suc 2]) =
        [''00:00:01'']"
    by (simp add: strftime_hms_def pad2_def digit_char_def resolver_example_server_def image_request_def upt_rec)
  then obtain w' where c: "check_pixiv_image_existence resolver_example_server (?pre @ ''{time}'' @ ''/7_p0'')
          ''00:00:00'' ''00:00:02'' (''.'' @ ''png'') init_world = (ScanDone [''00:00:01''], w')"
    using check_existence_template [OF pt st en, of resolver_example_server "''.'' @ ''png''" init_world] by simp
  show ?thesis
    using probe_extension_scan_equiv [OF pt st en c, of 0 6 init_world] c by auto
qed

text \<open>A host that answers 200 to every request: the first candidate, the \<open>jpg\<close> of
  00:00:00, is found, and the gallery download never reaches a missing page.\<close>
theorem search_worker_returns_iff_witness:
  "extract_time_range ''img/2025/05/12/00/00/00/'' ''img/2025/05/12/00/00/02/'' 7 =
     Some (''00:00:00'', ''00:00:02'', ''https://i.pximg.net/img-original/img/2025/05/12/{time}/7_p0'') \<and>
   strptime_hms ''00:00:00'' = Some 0 \<and> strptime_hms ''00:00:02'' = Some 2 \<and>
   search_worker (\<lambda>_. Resp 200 ''P'') 7 ''img/2025/05/12/00/00/00/'' ''img/2025/05/12/00/00/02/''
     True True False init_world = None"
proof -
  let ?b = "''https://i.pximg.net/img-original/img/2025/05/12/{time}/7_p0''"
  have f: "find (\<lambda>(e, t). hit (\<lambda>_. Resp 200 ''P'') ?b e t) (candidate_pairs (selected_extensions True True False) 0 2) =
             Some (''jpg'', 0)"
    by (simp add: candidate_pairs_def selected_extensions_def upt_rec)
  have tu: "test_url ?b ''jpg'' 0 = ''https://i.pximg.net/img-original/img/2025/05/12/00/00/00/7_p0.jpg''"
    by (simp add: resolver_example_test_url strftime_hms_def pad2_def digit_char_def)
  have m: "match_gallery_url ''https://i.pximg.net/img-original/img/2025/05/12/00/00/00/7_p0.jpg'' =
             Some (''https://i.pximg.net/img-original/img/2025/05/12/00/00/00/'', ''7'', ''.jpg'')"
    by code_simp
  show ?thesis
    using search_worker_returns_iff [OF resolver_example_extract resolver_example_times,
        of "\<lambda>_. Resp 200 ''P''" True True False init_world]
      f tu m resolver_example_extract resolver_example_times
    by (simp add: page_saved_def init_world_def) (metis not_None_eq surj_pair)
qed

theorem found_url_parses_witness:
  "extract_time_range ''img/2025/05/12/00/00/00/'' ''img/2025/05/12/00/00/02/'' 7 =
     Some (''00:00:00'', ''00:00:02'', ''https://i.pximg.net/img-original/img/2025/05/12/{time}/7_p0'') \<and>
   0 \<le> (7::int) \<and> ''png'' \<in> set (selected_extensions True True False) \<and>
   match_gallery_url (test_url ''https://i.pximg.net/img-original/img/2025/05/12/{time}/7_p0'' ''png'' 1) =
     Some (''https://i.pximg.net/img-original/img/2025/05/12/00/00/01/'', ''7'', ''.png'')"
proof -
  obtain dir where d: "match_gallery_url (test_url ''https://i.pximg.net/img-original/img/2025/05/12/{time}/7_p0'' ''png'' 1) =
        Some (dir, py_str_int 7, ''.'' @ ''png'')"
    and u: "dir @ gallery_filename (py_str_int 7) 0 (''.'' @ ''png'') =
        test_url ''https://i.pximg.net/img-original/img/2025/05/12/{time}/7_p0'' ''png'' 1"
    using found_url_parses [OF resolver_example_extract, of "''png''" True True False 1]
    by (auto simp: selected_extensions_def)
  have s7: "py_str_int 7 = ''7''" by (simp add: py_str_int_def py_str_nat.simps digit_char_def)
  have "dir @ ''7_p0.png'' = ''https://i.pximg.net/img-original/img/2025/05/12/00/00/01/7_p0.png''"
    using u by (simp add: s7 gallery_filename_def py_str_nat.simps digit_char_def resolver_example_test_url
        strftime_hms_def pad2_def)
  then have "dir = ''https://i.pximg.net/img-original/img/2025/05/12/00/00/01/''" by simp
  then show ?thesis
    using d resolver_example_extract s7 by (simp add: selected_extensions_def)
qed

end
