(* ===== verification/DesktopApp.thy ===== *)
theory DesktopApp
  imports AdjacentSearch Resolver
begin

text \<open>
  The desktop front end, \<open>src/main.py\<close> class \<open>PixivResourceFinder\<close>: its form state
  (\<open>__init__\<close>, lines 18--33), the progress bar (\<open>update_progress\<close>, \<open>reset_progress\<close>,
  lines 118--138) and the two button handlers \<open>find_adjacent_artworks\<close> (lines 144--163)
  and \<open>start_search\<close> (lines 188--208). \<open>start_search\<close> only starts a thread; the thread
  running \<open>search_worker\<close> is a separate step, taken later, that reads the form as it is
  then. Reachable states of the application are an inductive relation over these steps
  and the user's edits. Widget layout, the log pane and label texts are not modelled.
\<close>

section \<open>Python's \<open>int(str)\<close>\<close>

text \<open>The characters \<open>str.strip\<close> and \<open>int\<close> skip: tab to carriage return, the four
  separators \<open>\x1c\<close>--\<open>\x1f\<close> and space.\<close>
definition py_space :: "char \<Rightarrow> bool" where
  "py_space c \<longleftrightarrow> (let n = (of_char c :: nat) in (9 \<le> n \<and> n \<le> 13) \<or> (28 \<le> n \<and> n \<le> 32))"

definition py_strip :: "string \<Rightarrow> string" where
  "py_strip s = rev (dropWhile py_space (rev (dropWhile py_space s)))"

text \<open>Decimal digits, single underscores allowed between two digits.\<close>
fun digit_groups :: "string \<Rightarrow> bool" where
  "digit_groups [] = False"
| "digit_groups (c # cs) =
     (is_digit c \<and> (case cs of [] \<Rightarrow> True | d # ds \<Rightarrow> if d = CHR ''_'' then digit_groups ds else digit_groups cs))"

text \<open>\<open>int(s)\<close>; \<open>None\<close> is its \<open>ValueError\<close>.\<close>
definition py_int :: "string \<Rightarrow> int option" where
  "py_int s =
     (let t = py_strip s in
      case t of
        [] \<Rightarrow> None
      | c # r \<Rightarrow>
          if c = CHR ''-'' then (if digit_groups r then Some (- int (digits_value (filter is_digit r))) else None)
          else if c = CHR ''+'' then (if digit_groups r then Some (int (digits_value (filter is_digit r))) else None)
          else if digit_groups t then Some (int (digits_value (filter is_digit t))) else None)"

text \<open>\<open>str.upper()\<close> on ASCII.\<close>
definition py_upper :: "string \<Rightarrow> string" where
  "py_upper s = map (\<lambda>c. if 97 \<le> (of_char c :: nat) \<and> (of_char c :: nat) \<le> 122 then char_of ((of_char c :: nat) - 32) else c) s"

section \<open>The form and its handlers\<close>

datatype message_box = ErrorBox string | WarningBox string | InfoBox string

text \<open>The state of the window: the \<open>StringVar\<close>s and \<open>BooleanVar\<close>s of the form, the
  progress bar's value, the message boxes shown so far, the worker threads started and not
  yet run (their \<open>target_id\<close>s), and the outside world.\<close>
record app =
  artwork_id :: string
  prev_artwork_url :: string
  next_artwork_url :: string
  prev_uri :: string
  next_uri :: string
  file_jpg :: bool
  file_png :: bool
  file_gif :: bool
  progress :: real
  boxes :: "message_box list"
  workers :: "int list"
  app_world :: world

definition init_app :: app where
  "init_app =
     \<lparr>artwork_id = [], prev_artwork_url = [], next_artwork_url = [], prev_uri = [], next_uri = [],
      file_jpg = True, file_png = True, file_gif = False, progress = 0, boxes = [], workers = [],
      app_world = init_world\<rparr>"

definition update_progress :: "app \<Rightarrow> int \<Rightarrow> int \<Rightarrow> app" where
  "update_progress a current tot = a\<lparr>progress := progress_value current tot\<rparr>"

definition reset_progress :: "app \<Rightarrow> app" where
  "reset_progress a = a\<lparr>progress := 0\<rparr>"

text \<open>A progress event of the worker, as the window applies it.\<close>
fun apply_progress :: "app \<Rightarrow> event \<Rightarrow> app" where
  "apply_progress a (Progress current tot) = update_progress a current tot"
| "apply_progress a ProgressReset = reset_progress a"
| "apply_progress a _ = a"

text \<open>\<open>find_adjacent_artworks\<close>: \<open>False\<close> when an exception escapes the handler (the
  \<open>HTTPError\<close> of the page probe is not caught; Tk reports it and the window goes on).\<close>
definition find_adjacent_artworks :: "server \<Rightarrow> app \<Rightarrow> bool \<times> app" where
  "find_adjacent_artworks srv a =
     (case py_int (artwork_id a) of
        None \<Rightarrow> (True, a\<lparr>boxes := boxes a @ [ErrorBox ''Please enter a valid artwork ID'']\<rparr>)
      | Some center_id \<Rightarrow>
          (case find_adjacent_valid_artworks srv center_id (app_world a) of
             (Inl _, w) \<Rightarrow> (False, a\<lparr>app_world := w\<rparr>)
           | (Inr (prev_id, next_id), w) \<Rightarrow>
               (True, a\<lparr>prev_artwork_url := build_pixiv_artwork_url prev_id,
                        next_artwork_url := build_pixiv_artwork_url next_id, app_world := w\<rparr>)))"

text \<open>\<open>start_search\<close>: the three checks, then a daemon thread for the worker.\<close>
definition start_search :: "app \<Rightarrow> app" where
  "start_search a =
     (if prev_uri a = [] \<or> next_uri a = []
      then a\<lparr>boxes := boxes a @ [ErrorBox ''Please enter both previous and next artwork URIs'']\<rparr>
      else if \<not> (file_jpg a \<or> file_png a \<or> file_gif a)
      then a\<lparr>boxes := boxes a @ [ErrorBox ''Please select at least one file type'']\<rparr>
      else case py_int (artwork_id a) of
             None \<Rightarrow> a\<lparr>boxes := boxes a @ [ErrorBox ''Invalid artwork ID'']\<rparr>
           | Some target_id \<Rightarrow> a\<lparr>workers := workers a @ [target_id]\<rparr>)"

text \<open>The box the worker ends with (the text of the exception in the error box is not
  modelled).\<close>
definition worker_box :: "worker_outcome \<Rightarrow> message_box" where
  "worker_box out =
     (case out of
        ReportedSuccess ext \<Rightarrow>
          InfoBox (''Found and successfully downloaded '' @ py_upper ext @ '' format resource to download/ directory'')
      | NothingFound \<Rightarrow> WarningBox ''No resources found in the specified time range with selected formats''
      | SearchFailed \<Rightarrow> ErrorBox ''Error occurred during search'')"

text \<open>The oldest started thread runs \<open>search_worker\<close> to its end on the form as it is now;
  \<open>None\<close> when the worker never returns.\<close>
definition run_worker :: "server \<Rightarrow> app \<Rightarrow> app option" where
  "run_worker srv a =
     (case workers a of
        [] \<Rightarrow> Some a
      | target_id # rest \<Rightarrow>
          (case search_worker srv target_id (prev_uri a) (next_uri a) (file_jpg a) (file_png a) (file_gif a)
                  (app_world a) of
             None \<Rightarrow> None
           | Some (out, w) \<Rightarrow>
               Some ((foldl apply_progress a (drop (length (trace (app_world a))) (trace w)))
                       \<lparr>workers := rest, boxes := boxes a @ [worker_box out], app_world := w\<rparr>)))"

text \<open>What the user can do to the form: type into the five entries (\<open>textvariable\<close>s of
  \<open>setup_gui\<close>) and tick or untick the three check buttons.\<close>
definition edit_form ::
  "app \<Rightarrow> string \<Rightarrow> string \<Rightarrow> string \<Rightarrow> string \<Rightarrow> string \<Rightarrow> bool \<Rightarrow> bool \<Rightarrow> bool \<Rightarrow> app" where
  "edit_form a i pu nu p q jpg png gif =
     a\<lparr>artwork_id := i, prev_artwork_url := pu, next_artwork_url := nu, prev_uri := p, next_uri := q,
       file_jpg := jpg, file_png := png, file_gif := gif\<rparr>"

text \<open>The events \<open>setup_gui\<close> wires to the window: the \<open><Return>\<close> binding of the ID entry,
  the two buttons, typing into each entry, a click on each check button, and the end of
  the oldest worker thread.\<close>
datatype gui_event =
    IdEntryReturn
  | FindAdjacentButton
  | StartSearchButton
  | TypeArtworkId string
  | TypePrevArtworkUrl string
  | TypeNextArtworkUrl string
  | TypePrevUri string
  | TypeNextUri string
  | ClickJpg
  | ClickPng
  | ClickGif
  | WorkerFinishes

text \<open>What each event does. \<open>None\<close>: the event cannot happen (the oldest worker never
  finishes).\<close>
fun gui_step :: "server \<Rightarrow> app \<Rightarrow> gui_event \<Rightarrow> app option" where
  "gui_step srv a IdEntryReturn = Some (snd (find_adjacent_artworks srv a))"
| "gui_step srv a FindAdjacentButton = Some (snd (find_adjacent_artworks srv a))"
| "gui_step srv a StartSearchButton = Some (start_search a)"
| "gui_step srv a (TypeArtworkId s) = Some (a\<lparr>artwork_id := s\<rparr>)"
| "gui_step srv a (TypePrevArtworkUrl s) = Some (a\<lparr>prev_artwork_url := s\<rparr>)"
| "gui_step srv a (TypeNextArtworkUrl s) = Some (a\<lparr>next_artwork_url := s\<rparr>)"
| "gui_step srv a (TypePrevUri s) = Some (a\<lparr>prev_uri := s\<rparr>)"
| "gui_step srv a (TypeNextUri s) = Some (a\<lparr>next_uri := s\<rparr>)"
| "gui_step srv a ClickJpg = Some (a\<lparr>file_jpg := \<not> file_jpg a\<rparr>)"
| "gui_step srv a ClickPng = Some (a\<lparr>file_png := \<not> file_png a\<rparr>)"
| "gui_step srv a ClickGif = Some (a\<lparr>file_gif := \<not> file_gif a\<rparr>)"
| "gui_step srv a WorkerFinishes = run_worker srv a"

text \<open>\<open>root.mainloop()\<close>: the events in the order they happen.\<close>
fun gui_run :: "server \<Rightarrow> app \<Rightarrow> gui_event list \<Rightarrow> app option" where
  "gui_run srv a [] = Some a"
| "gui_run srv a (ev # evs) = (case gui_step srv a ev of None \<Rightarrow> None | Some a' \<Rightarrow> gui_run srv a' evs)"

text \<open>The states the window can reach from the one \<open>__init__\<close> builds, as the main loop
  runs the handlers of the events \<open>setup_gui\<close> wires, in any order.\<close>
inductive app_reach :: "server \<Rightarrow> app \<Rightarrow> bool" for srv where
  start: "app_reach srv init_app"
| step: "app_reach srv a \<Longrightarrow> gui_step srv a ev = Some a' \<Longrightarrow> app_reach srv a'"

section \<open>Lemmas\<close>

text \<open>A worker run moves the bar only through \<open>update_progress\<close> and \<open>reset_progress\<close>;
  events whose counts are in range keep it in range.\<close>
definition bar_ok :: "app \<Rightarrow> bool" where
  "bar_ok a \<longleftrightarrow> 0 \<le> progress a \<and> progress a \<le> 100"

lemma apply_progress_bar_ok:
  assumes "bar_ok a" "\<And>k t. ev = Progress k t \<Longrightarrow> 0 \<le> k \<and> (0 < t \<longrightarrow> k \<le> t)"
  shows "bar_ok (apply_progress a ev)"
proof (cases ev)
  case (Progress k t)
  with assms(2) [of k t] show ?thesis
    using progress_value_range [of k t] by (simp add: bar_ok_def update_progress_def)
qed (use assms(1) in \<open>simp_all add: bar_ok_def reset_progress_def\<close>)

lemma foldl_apply_progress_ok:
  "bar_ok a \<Longrightarrow> (\<And>k t. Progress k t \<in> set es \<Longrightarrow> 0 \<le> k \<and> (0 < t \<longrightarrow> k \<le> t)) \<Longrightarrow>
   bar_ok (foldl apply_progress a es)"
proof (induction es arbitrary: a)
  case (Cons ev es)
  have "bar_ok (apply_progress a ev)"
    using Cons.prems by (intro apply_progress_bar_ok) auto
  moreover have "\<And>k t. Progress k t \<in> set es \<Longrightarrow> 0 \<le> k \<and> (0 < t \<longrightarrow> k \<le> t)"
    using Cons.prems(2) by (metis list.set_intros(2))
  ultimately show ?case using Cons.IH by simp
qed simp

lemma apply_progress_fields [simp]:
  "app_world (apply_progress a ev) = app_world a"
  "workers (apply_progress a ev) = workers a"
  "boxes (apply_progress a ev) = boxes a"
  by (cases ev; simp add: update_progress_def reset_progress_def)+

lemma foldl_apply_progress_fields [simp]:
  "app_world (foldl apply_progress a es) = app_world a"
  "workers (foldl apply_progress a es) = workers a"
  "boxes (foldl apply_progress a es) = boxes a"
  by (induction es arbitrary: a) simp_all

lemma run_worker_bar_ok:
  assumes "run_worker srv a = Some a'" "bar_ok a"
  shows "bar_ok a'"
proof (cases "workers a")
  case Nil
  then show ?thesis using assms by (simp add: run_worker_def)
next
  case (Cons tid rest)
  then obtain out w where sw: "search_worker srv tid (prev_uri a) (next_uri a) (file_jpg a) (file_png a) (file_gif a)
      (app_world a) = Some (out, w)"
    and a': "a' = (foldl apply_progress a (drop (length (trace (app_world a))) (trace w)))
                    \<lparr>workers := rest, boxes := boxes a @ [worker_box out], app_world := w\<rparr>"
    using assms(1) by (auto simp: run_worker_def split: option.splits)
  have "bar_ok (foldl apply_progress a (drop (length (trace (app_world a))) (trace w)))"
    using search_worker_progress_events [OF sw] assms(2) by (intro foldl_apply_progress_ok) blast
  then show ?thesis by (simp add: a' bar_ok_def)
qed

lemma search_result_all_absent:
  "\<forall>q \<in> set qs. probe_page srv q = Absent \<Longrightarrow> search_result srv qs d = Inr d"
  by (induction qs) simp_all

lemma find_adjacent_artworks_fields:
  "progress (snd (find_adjacent_artworks srv a)) = progress a"
proof (cases "py_int (artwork_id a)")
  case (Some c)
  obtain r w where fa: "find_adjacent_valid_artworks srv c (app_world a) = (r, w)" by fastforce
  then show ?thesis using Some by (cases r) (auto simp: find_adjacent_artworks_def)
qed (simp add: find_adjacent_artworks_def)

text \<open>A state that differs from another only in the form is an edit of it.\<close>
lemma edit_form_fields:
  assumes "progress a' = progress a" "boxes a' = boxes a" "workers a' = workers a" "app_world a' = app_world a"
  shows "a' = edit_form a (artwork_id a') (prev_artwork_url a') (next_artwork_url a') (prev_uri a') (next_uri a')
                 (file_jpg a') (file_png a') (file_gif a')"
  using assms by (cases a, cases a') (simp add: edit_form_def)

text \<open>Every event is one of the steps of \<open>app_reach\<close>.\<close>
lemma gui_step_cases:
  assumes "gui_step srv a ev = Some a'"
  obtains i pu nu p q jpg png gif where "a' = edit_form a i pu nu p q jpg png gif"
  | ok where "find_adjacent_artworks srv a = (ok, a')"
  | "a' = start_search a"
  | "run_worker srv a = Some a'"
proof (cases "ev \<in> {IdEntryReturn, FindAdjacentButton, StartSearchButton, WorkerFinishes}")
  case True
  then show thesis
    using assms that(2) [of "fst (find_adjacent_artworks srv a)"] that(3,4) by auto
next
  case False
  then have "progress a' = progress a" "boxes a' = boxes a" "workers a' = workers a" "app_world a' = app_world a"
    using assms by (cases ev; auto)+
  then show thesis by (rule that(1) [OF edit_form_fields])
qed

section \<open>Properties of the desktop front end\<close>

text \<open>C24. Invariant of the window: in every state the main loop can reach, by any
  sequence of the events \<open>setup_gui\<close> wires (typing, check-button clicks, the Return key
  and the two buttons, worker threads finishing), the progress bar's value lies between
  0 and 100.\<close>
theorem app_reach_progress_in_range:
  "app_reach srv a \<Longrightarrow> 0 \<le> progress a \<and> progress a \<le> 100"
proof (induction rule: app_reach.induct)
  case start
  then show ?case by (simp add: init_app_def)
next
  case (step a ev a')
  from step.hyps(2) show ?case
  proof (rule gui_step_cases)
    fix i pu nu p q jpg png gif
    assume "a' = edit_form a i pu nu p q jpg png gif"
    then show ?thesis using step.IH by (simp add: edit_form_def)
  next
    fix ok
    assume "find_adjacent_artworks srv a = (ok, a')"
    then show ?thesis using step.IH find_adjacent_artworks_fields [of srv a] by simp
  next
    assume "a' = start_search a"
    then show ?thesis using step.IH by (simp add: start_search_def split: option.splits)
  next
    assume "run_worker srv a = Some a'"
    then show ?thesis using step.IH run_worker_bar_ok [of srv a a'] by (simp add: bar_ok_def)
  qed
qed

text \<open>C25. The adjacent-artwork button fills the two URL fields with the artwork URLs of
  what the search returned; when every identifier below a positive center is absent, the
  exhausted downward scan's value 0 is shown as if it were an artwork.\<close>
theorem find_adjacent_artworks_urls:
  assumes "py_int (artwork_id a) = Some c"
    and "fst (find_adjacent_valid_artworks srv c (app_world a)) = Inr (p, n)"
  shows "fst (find_adjacent_artworks srv a) \<and>
         prev_artwork_url (snd (find_adjacent_artworks srv a)) = build_pixiv_artwork_url p \<and>
         next_artwork_url (snd (find_adjacent_artworks srv a)) = build_pixiv_artwork_url n \<and>
         (1 \<le> c \<and> (\<forall>q. 0 < q \<and> q < c \<longrightarrow> probe_page srv q = Absent) \<longrightarrow>
            prev_artwork_url (snd (find_adjacent_artworks srv a)) = ''https://www.pixiv.net/en/artworks/0'')"
proof -
  obtain w where fa: "find_adjacent_valid_artworks srv c (app_world a) = (Inr (p, n), w)"
    using assms(2) by (cases "find_adjacent_valid_artworks srv c (app_world a)") auto
  have exhausted: "p = 0" if "1 \<le> c" "\<forall>q. 0 < q \<and> q < c \<longrightarrow> probe_page srv q = Absent"
  proof -
    have "search_result srv (prev_ids c) (min (c - 1) 0) = Inr p"
      using assms(2) find_adjacent_Inr_iff by blast
    moreover have "search_result srv (prev_ids c) (min (c - 1) 0) = Inr (min (c - 1) 0)"
      using that(2) by (intro search_result_all_absent) auto
    ultimately show "p = 0" using that(1) by simp
  qed
  show ?thesis
    using assms(1) fa exhausted
    by (simp add: find_adjacent_artworks_def build_pixiv_artwork_url_def py_str_int_def py_str_nat.simps
        digit_char_def)
qed

text \<open>C26. The worker thread reads the check boxes again when it runs, after
  \<open>start_search\<close> has checked them: if the user has unticked every box in between, the
  worker probes nothing, sends no request and shows the not-found warning.\<close>
theorem run_worker_rereads_boxes:
  assumes "workers a = tid # rest" "\<not> file_jpg a" "\<not> file_png a" "\<not> file_gif a"
    and "extract_time_range (prev_uri a) (next_uri a) tid = Some (pt, nt, base)"
    and "strptime_hms pt = Some st" "strptime_hms nt = Some en"
  shows "\<exists>a'. run_worker srv a = Some a' \<and> workers a' = rest \<and>
           boxes a' = boxes a @ [WarningBox ''No resources found in the specified time range with selected formats''] \<and>
           requested (trace (app_world a')) = requested (trace (app_world a))"
proof -
  have "selected_extensions (file_jpg a) (file_png a) (file_gif a) = []"
    using assms(2-4) by (simp add: selected_extensions_def)
  then show ?thesis
    using search_worker_no_candidates [OF assms(5-7), of "file_jpg a" "file_png a" "file_gif a" srv
        "app_world a"] assms(1)
    by (simp add: run_worker_def worker_box_def)
qed

text \<open>C27. \<open>start_search\<close> never touches the network or the disk; it starts a worker,
  for the ID typed, exactly when both URIs are filled in, a box is ticked and the ID reads as
  an integer, and otherwise shows one error box.\<close>
theorem start_search_checks:
  "app_world (start_search a) = app_world a \<and>
   (workers (start_search a) = workers a @ [tid] \<longleftrightarrow>
      prev_uri a \<noteq> [] \<and> next_uri a \<noteq> [] \<and> (file_jpg a \<or> file_png a \<or> file_gif a) \<and>
      py_int (artwork_id a) = Some tid) \<and>
   (workers (start_search a) = workers a \<longleftrightarrow> length (boxes (start_search a)) = Suc (length (boxes a)))"
  by (auto simp: start_search_def split: option.splits)

text \<open>C32. Nothing stops a second search while one runs: \<open>start_search\<close> does not look
  for a worker already started, so two clicks on the search button with a valid form leave
  two worker threads for the same artwork, whose probes and downloads then run in
  parallel, against the strictly sequential, throttled access the specification requires.\<close>
theorem start_search_twice:
  assumes "prev_uri a \<noteq> []" "next_uri a \<noteq> []" "file_jpg a \<or> file_png a \<or> file_gif a"
    and "py_int (artwork_id a) = Some t"
  shows "gui_run srv a [StartSearchButton, StartSearchButton] = Some (a\<lparr>workers := workers a @ [t, t]\<rparr>)"
  using assms by (simp add: start_search_def)

section \<open>Witnesses\<close>

text \<open>The form filled in for the resolver example of \<open>Resolver\<close>, then searched.\<close>
definition example_form :: app where
  "example_form = edit_form init_app ''7'' [] [] ''img/2025/05/12/00/00/00/'' ''img/2025/05/12/00/00/02/'' True True False"

lemma example_form_start: "start_search example_form = example_form\<lparr>workers := [7]\<rparr>"
proof -
  have "py_int ''7'' = Some 7" by code_simp
  then show ?thesis by (simp add: start_search_def example_form_def edit_form_def init_app_def)
qed

theorem app_reach_progress_in_range_witness:
  "\<exists>a'. run_worker resolver_example_server (start_search example_form) = Some a' \<and>
        app_reach resolver_example_server a' \<and> 0 \<le> progress a' \<and> progress a' \<le> 100"
proof -
  obtain w' where run: "search_worker resolver_example_server 7 ''img/2025/05/12/00/00/00/'' ''img/2025/05/12/00/00/02/''
      True True False init_world = Some (ReportedSuccess ''png'', w')"
    using resolver_example_run by blast
  have f: "prev_uri example_form = ''img/2025/05/12/00/00/00/''" "next_uri example_form = ''img/2025/05/12/00/00/02/''"
    "file_jpg example_form" "file_png example_form" "\<not> file_gif example_form" "app_world example_form = init_world"
    by (simp_all add: example_form_def edit_form_def init_app_def)
  have "\<exists>a'. run_worker resolver_example_server (start_search example_form) = Some a'"
    using run by (simp add: run_worker_def example_form_start f)
  then obtain a' where r: "run_worker resolver_example_server (start_search example_form) = Some a'" ..
  let ?S = resolver_example_server
  have r1: "app_reach ?S (init_app\<lparr>artwork_id := ''7''\<rparr>)"
    by (rule app_reach.step [OF app_reach.start, where ev = "TypeArtworkId ''7''"]) simp
  have r2: "app_reach ?S (init_app\<lparr>artwork_id := ''7'', prev_uri := ''img/2025/05/12/00/00/00/''\<rparr>)"
    by (rule app_reach.step [OF r1, where ev = "TypePrevUri ''img/2025/05/12/00/00/00/''"]) simp
  have r3: "app_reach ?S (init_app\<lparr>artwork_id := ''7'', prev_uri := ''img/2025/05/12/00/00/00/'',
              next_uri := ''img/2025/05/12/00/00/02/''\<rparr>)"
    by (rule app_reach.step [OF r2, where ev = "TypeNextUri ''img/2025/05/12/00/00/02/''"]) simp
  have "init_app\<lparr>artwork_id := ''7'', prev_uri := ''img/2025/05/12/00/00/00/'',
          next_uri := ''img/2025/05/12/00/00/02/''\<rparr> = example_form"
    by (simp add: example_form_def edit_form_def init_app_def)
  with r3 have "app_reach ?S example_form" by simp
  then have "app_reach ?S (start_search example_form)"
    by (rule app_reach.step [where ev = StartSearchButton]) simp
  then have reach: "app_reach ?S a'"
    by (rule app_reach.step [where ev = WorkerFinishes]) (simp add: r)
  show ?thesis using r reach app_reach_progress_in_range [OF reach] by blast
qed

theorem find_adjacent_artworks_urls_witness:
  "py_int (artwork_id (edit_form init_app ''1'' [] [] [] [] True True False)) = Some 1 \<and>
   fst (find_adjacent_valid_artworks adj_example_server 1 (app_world (edit_form init_app ''1'' [] [] [] [] True True False))) =
     Inr (0, 8) \<and>
   prev_artwork_url (snd (find_adjacent_artworks adj_example_server (edit_form init_app ''1'' [] [] [] [] True True False))) =
     ''https://www.pixiv.net/en/artworks/0''"
proof -
  have i: "py_int (artwork_id (edit_form init_app ''1'' [] [] [] [] True True False)) = Some 1"
    by (simp add: edit_form_def init_app_def) code_simp
  have f: "fst (find_adjacent_valid_artworks adj_example_server 1 (app_world (edit_form init_app ''1'' [] [] [] [] True True False))) =
             Inr (0, 8)"
    by (simp add: edit_form_def init_app_def) code_simp
  have v: "\<forall>q::int. 0 < q \<and> q < 1 \<longrightarrow> probe_page adj_example_server q = Absent" by auto
  show ?thesis using find_adjacent_artworks_urls [OF i f] i f v by blast
qed

theorem run_worker_rereads_boxes_witness:
  "workers (start_search example_form) = [7] \<and> boxes (start_search example_form) = [] \<and>
   (\<exists>a'. run_worker resolver_example_server
           (edit_form (start_search example_form) ''7'' [] [] ''img/2025/05/12/00/00/00/'' ''img/2025/05/12/00/00/02/''
              False False False) = Some a' \<and>
         boxes a' = [WarningBox ''No resources found in the specified time range with selected formats''] \<and>
         requested (trace (app_world a')) = [])"
proof -
  let ?a = "edit_form (start_search example_form) ''7'' [] [] ''img/2025/05/12/00/00/00/'' ''img/2025/05/12/00/00/02/''
              False False False"
  have a: "workers ?a = 7 # []" "\<not> file_jpg ?a" "\<not> file_png ?a" "\<not> file_gif ?a"
    "extract_time_range (prev_uri ?a) (next_uri ?a) 7 =
       Some (''00:00:00'', ''00:00:02'', ''https://i.pximg.net/img-original/img/2025/05/12/{time}/7_p0'')"
    by (simp_all add: example_form_start edit_form_def resolver_example_extract)
  have e: "boxes example_form = []" "trace (app_world example_form) = []"
    by (simp_all add: example_form_def edit_form_def init_app_def init_world_def)
  have st: "workers (start_search example_form) = [7]" "boxes (start_search example_form) = []"
    using e by (simp_all only: example_form_start) simp_all
  have b: "boxes ?a = []" "trace (app_world ?a) = []"
    using e by (simp_all only: example_form_start edit_form_def) simp_all
  obtain a' where r: "run_worker resolver_example_server ?a = Some a'"
    and bx: "boxes a' = boxes ?a @ [WarningBox ''No resources found in the specified time range with selected formats'']"
    and rq: "requested (trace (app_world a')) = requested (trace (app_world ?a))"
    using run_worker_rereads_boxes [OF a resolver_example_times, of resolver_example_server] by blast
  have "boxes a' = [WarningBox ''No resources found in the specified time range with selected formats'']"
    "requested (trace (app_world a')) = []"
    using bx rq b by simp_all
  then show ?thesis using st r by blast
qed

theorem start_search_twice_witness:
  "prev_uri example_form \<noteq> [] \<and> next_uri example_form \<noteq> [] \<and>
   (file_jpg example_form \<or> file_png example_form \<or> file_gif example_form) \<and>
   py_int (artwork_id example_form) = Some 7 \<and>
   gui_run resolver_example_server example_form [StartSearchButton, StartSearchButton] =
     Some (example_form\<lparr>workers := [7, 7]\<rparr>)"
proof -
  have i: "py_int ''7'' = Some 7" by code_simp
  have f: "prev_uri example_form \<noteq> []" "next_uri example_form \<noteq> []"
    "file_jpg example_form \<or> file_png example_form \<or> file_gif example_form"
    "py_int (artwork_id example_form) = Some 7" "workers example_form = []"
    by (simp_all add: example_form_def edit_form_def init_app_def i)
  show ?thesis
    using start_search_twice [OF f(1-4), of resolver_example_server] f by simp
qed

end
