(* ===== verification/Scripts.thy ===== *)
theory Scripts
  imports AdjacentSearch WindowScan Gallery
begin

text \<open>
  The command-line entry points: the \<open>if __name__ == '__main__'\<close> blocks of
  \<open>find_adj.py\<close>, \<open>find_resource.py\<close> and \<open>resource_downloader.py\<close>, each with the
  parameters it ships with, which the scripts' comments ask the user to replace. What
  the blocks print is returned as a value. No property is claimed of the shipped values.
\<close>

section \<open>Definitions\<close>

text \<open>\<open>find_adj.py\<close>: the search around \<open>ARTWORK_ID\<close>, and the two IDs and URLs printed.
  An exception of the search is not caught: the script ends with it.\<close>
definition find_adj_main :: "server \<Rightarrow> world \<Rightarrow> (exc + int \<times> int \<times> url \<times> url) \<times> world" where
  "find_adj_main srv w =
     (let artwork_id = 123456789
      in case find_adjacent_valid_artworks srv artwork_id w of
           (Inl e, w') \<Rightarrow> (Inl e, w')
         | (Inr (prev_id, next_id), w') \<Rightarrow>
             (Inr (prev_id, next_id, build_pixiv_artwork_url prev_id, build_pixiv_artwork_url next_id), w'))"

text \<open>\<open>find_resource.py\<close>: the template with the \<open>YYYY/MM/DD\<close> placeholders, the file
  name built by an f-string, and the placeholder times \<open>HH/MM/SS\<close>.\<close>
definition find_resource_main :: "server \<Rightarrow> world \<Rightarrow> scan_outcome \<times> world" where
  "find_resource_main srv w =
     (let base_url_template = ''https://i.pximg.net/img-original/img/YYYY/MM/DD/'' @ ''{time}/'';
          artwork_id = (123456789 :: int);
          image_id = py_str_int artwork_id @ ''_p0.png''
      in check_pixiv_image_existence srv base_url_template ''HH/MM/SS'' ''HH/MM/SS'' image_id w)"

text \<open>\<open>resource_downloader.py\<close>: the target URL is a plain string, so its
  \<open>{ARTWORK_ID}\<close> is not substituted; the folder is the raw string \<open>C:\Downloads\<close>.\<close>
definition resource_downloader_main :: "server \<Rightarrow> world \<Rightarrow> (gallery_outcome \<times> world) option" where
  "resource_downloader_main srv w =
     (let target_url = ''https://i.pximg.net/img-original/img/YYYY/MM/DD/HH/MM/SS/{ARTWORK_ID}_p0.png'';
          download_path = ''C:'' @ [CHR 0x5C] @ ''Downloads''
      in download_pixiv_gallery srv target_url download_path w)"

end
