(* ===== verification/Spec2Isabelle.thy ===== *)
theory Spec2Isabelle
  imports DesktopApp Scripts
begin

text \<open>
  \<^bold>\<open>Verification development of the Pixiv resource finder\<close> (\<open>src/find_adj.py\<close>,
  \<open>src/find_resource.py\<close>, \<open>src/resource_downloader.py\<close>, \<open>src/main.py\<close>).

  \<^bold>\<open>The program.\<close> Four parts probe a content host and download what they find.
  \<^item> PageProbe: \<open>get_artwork_page_content\<close> fetches an artwork page; \<open>is_valid_artwork_page\<close>
    tells a soft-404 page from a real one.
  \<^item> AdjacentIdSearch: \<open>find_adjacent_valid_artworks\<close> walks down from the center, then up,
    with PageProbe, to the nearest present artwork on each side.
  \<^item> TimeWindowProbe: \<open>check_pixiv_image_existence\<close> probes every second of a time-of-day
    window.
  \<^item> ExtensionResolver: the nested loops of \<open>search_worker\<close> (main.py) probe the window
    once per ticked extension and stop at the first hit.
  \<^item> GallerySequentialDownloader: \<open>download_pixiv_gallery\<close> parses the URL found and saves
    pages \<open>p0, p1, ...\<close> until a page is missing.
  \<^item> The desktop front end (main.py) glues them: the ID field and
    \<open>find_adjacent_artworks\<close>; two image URIs and \<open>start_search\<close>, which starts a thread
    running \<open>search_worker\<close> (\<open>extract_time_range\<close>, the resolver loops, then the
    downloader); the progress bar and message boxes.

  \<^bold>\<open>How it is modelled.\<close> Shallow embedding with explicit state passing.
  \<^item> \<open>Prelude\<close>: the outside world.
    \<^item> A request is the record of the arguments of \<open>requests.get\<close>.
    \<^item> The host is an arbitrary \<open>server\<close> function from requests to \<open>http_result\<close>
      (complete response, broken body transfer, no response). Every theorem therefore
      holds for every behaviour of the host.
    \<^item> The \<open>world\<close> record holds directories, files, the \<open>open()\<close> permission and the
      trace of every effect in program order: requests, sleeps, directory creation,
      writes, and progress-bar updates.
    \<^item> \<open>os.makedirs(d, exist_ok=True)\<close> creates \<open>d\<close> and its ancestors and raises when one of
      them is a file.
    \<^item> Python's \<open>str(int)\<close>, \<open>in\<close> and \<open>str.replace\<close> are executable functions on strings.
  \<^item> \<open>PageProbe\<close> (find_adj.py 6--36): the page request; \<open>raise_for_status\<close>; the result
    as \<open>exc + string option\<close>.
  \<^item> \<open>AdjacentSearch\<close> (find_adj.py 39--71):
    \<^item> \<open>scan_prev\<close> and \<open>scan_next\<close> are the two \<open>while\<close> loops, as \<open>function\<close>s whose
      termination is proved by the measures \<open>nat prev_id\<close> and
      \<open>nat (999999999 - next_id)\<close>;
    \<^item> \<open>scan_list\<close> is the reference search over an explicit list of identifiers;
    \<^item> \<open>scan_prev_scan_list\<close> and \<open>scan_next_scan_list\<close> prove the loops equal to it.
  \<^item> \<open>TimeOfDay\<close>: \<open>strptime(.., '%H:%M:%S')\<close> as the alternation of regexes that CPython
    compiles the format to, and \<open>strftime\<close>; its lemmas are the library facts the
    window scan and the resolver rely on, not claims about this program.
  \<^item> \<open>WindowScan\<close> (find_resource.py 5--76): \<open>str.format\<close> with the \<open>time\<close> field;
    \<open>scan_seconds\<close> is the loop, terminating by the measure \<open>Suc end - current\<close>.
  \<^item> \<open>GalleryUrl\<close> (resource_downloader.py 17--24): the regex
    \<open>(https?://.*/)(\d+)_p\d+(\..+)\<close>, with the backtracking of the greedy \<open>.*\<close>
    written out.
  \<^item> \<open>Gallery\<close> (resource_downloader.py 6--79): the \<open>while True\<close> loop has no bound, so it
    is a \<open>partial_function (option)\<close> (\<open>None\<close> = never returns). No fuel is chosen:
    \<open>download_loop_terminates\<close> characterises exactly when the loop returns.
  \<^item> \<open>TimeRange\<close> (main.py 165--184): \<open>extract_time_range\<close>, with \<open>re.search\<close> as the
    leftmost match.
  \<^item> \<open>Resolver\<close> (main.py 210--314):
    \<^item> the two probe loops \<open>probe_extension\<close> and \<open>probe_extensions\<close>, the first
      terminating by the measure \<open>Suc end - current\<close>;
    \<^item> \<open>search_worker\<close> with its final \<open>report_result\<close> and its \<open>except\<close> clause
      \<open>search_failed\<close>;
    \<^item> the abstract contract \<open>resolve_spec\<close>.
  \<^item> \<open>DesktopApp\<close> (main.py 18--33, 118--163, 188--208):
    \<^item> the form as a record, and Python's \<open>int(str)\<close>;
    \<^item> \<open>update_progress\<close> and \<open>reset_progress\<close>; the two handlers;
    \<^item> \<open>run_worker\<close>, the worker thread taken as a later step that reads the form as it is
      then;
    \<^item> the wiring of \<open>setup_gui\<close> (main.py 44--89) as the \<open>gui_event\<close> datatype and
      \<open>gui_step\<close>; a worker that never finishes is an event that cannot happen;
    \<^item> \<open>root.mainloop()\<close> (main.py 319--326): \<open>gui_run\<close> runs a given sequence of
      events, and the inductive \<open>app_reach\<close> is the set of states some sequence of
      events reaches from the window \<open>__init__\<close> builds.
  \<^item> \<open>Scripts\<close> (find_adj.py 74--88, find_resource.py 79--95, resource_downloader.py
    82--93): the \<open>__main__\<close> blocks with the parameters they ship with; no property is
    claimed of these placeholder values.
  Every exception and early return of the code is a value of an error datatype or an option
  (\<open>exc\<close>, \<open>loop_exit\<close>, \<open>gallery_outcome\<close>, \<open>scan_outcome\<close>, \<open>worker_outcome\<close>). All
  definitions are executable, and the witnesses evaluate them with \<open>simp\<close> or \<open>code_simp\<close>.

  \<^bold>\<open>What is proved\<close> (claims C1--C32, listed in \<open>PROJECT.json\<close>):
  \<^item> Adjacent search:
    \<^item> the result brackets the center and is the nearest present artwork on each side;
    \<^item> an HTTP error aborts the whole search;
    \<^item> only identifiers in range are requested, with a bound on their number.
  \<^item> Page probe: the classification of every answer.
  \<^item> Gallery:
    \<^item> the loop returns exactly when some page is not saved;
    \<^item> the trace and files of a gallery of \<open>k\<close> pages;
    \<^item> a broken transfer leaves a partial file;
    \<^item> a malformed URL does nothing, and neither does a download directory blocked by a
      file;
    \<^item> the URL parse/print round trip;
    \<^item> pages are requested in order with a pause between them.
  \<^item> Window scan:
    \<^item> the exact requests and hits of a scan, and hits lie within the window;
    \<^item> a reversed window does nothing;
    \<^item> both time formats of the docstring, \<open>HH/MM/SS\<close> and \<open>HH:MM:SS\<close>, are accepted
      and scan the same window.
  \<^item> Resolver:
    \<^item> the probe loops refine \<open>resolve_spec\<close>;
    \<^item> the loop for one extension is equivalent to TimeWindowProbe's exhaustive scan
      (\<open>check_pixiv_image_existence\<close>) of the same window: it finds the URL of the first
      timestamp that scan reports;
    \<^item> every URL the loops try parses under the downloader's pattern, giving back the target
      ID and the extension, and the downloader's page 0 is that URL;
    \<^item> termination of the worker thread: it returns exactly when there is no hit, the
      \<open>download\<close> path is taken by a file, the URL is rejected, or a page of the gallery is
      not saved (so on a host that serves every page it runs forever);
    \<^item> the worker reports the first hit in check-box order, and warns exactly when there is
      no hit;
    \<^item> every progress value lies in [0, 100];
    \<^item> a reversed (midnight-crossing) window is not rejected;
    \<^item> success is reported without any download;
    \<^item> the date of the template comes from the previous URI only.
  \<^item> Front end:
    \<^item> the invariant that the progress bar stays in range in every state the event loop
      reaches, by rule induction over \<open>app_reach\<close>;
    \<^item> the URL fields, including the sentinel 0 shown as an artwork;
    \<^item> the worker re-reads check boxes already validated;
    \<^item> the checks of \<open>start_search\<close>;
    \<^item> two clicks on the search button start two workers: nothing keeps the network
      access sequential.
  The findings these theorems document (divergences from the specification and bugs) are
  listed in \<open>PROJECT.json\<close>.

  \<^bold>\<open>Not modelled.\<close>
  \<^item> \<open>print\<close> and \<open>log\<close> output, label texts and the widget layout of \<open>setup_gui\<close>.
  \<^item> Response decoding and \<open>iter_content\<close> chunking: a body is one string.
  \<^item> Non-ASCII characters: Unicode digits and whitespace in \<open>int()\<close>, \<open>\d\<close> and
    \<open>strip\<close>.
  \<^item> Format fields with a format spec or a conversion: they give \<open>FormatNotModelled\<close>.
  \<^item> Why \<open>open()\<close> fails (a \<open>writable\<close> oracle), and path normalisation (\<open>a//b\<close>, a
    trailing \<open>/\<close>) in \<open>os.makedirs\<close>.
  \<^item> Fine-grained interleaving of several worker threads: each thread runs to its end as
    one step.
\<close>

end
